theory Spec2Isabelle
  imports Complex_Main "HOL-Library.Sublist"
begin

section \<open>Data model of the file transfer orchestrator\<close>

text \<open>
  The component \<^verbatim>\<open>FilesImportControl\<close> is a React function component. Its
  \<^verbatim>\<open>useState\<close> cells become the fields of one state record that every operation
  takes and returns; the functional updates \<^verbatim>\<open>setX(prev => ...)\<close> are applied in
  program order. A string is a list of UTF-16 code units below 256 (the characters of
  Latin-1, which a \<open>char\<close> of HOL holds), file sizes are natural numbers, the
  configured limit is an integer number of megabytes (\<^verbatim>\<open>Whole.None\<close>,
  \<^verbatim>\<open>parseInt\<close> in the admin form). The field names of a record carry a prefix
  of the record, since the interfaces of the source share the names \<^verbatim>\<open>name\<close>,
  \<^verbatim>\<open>size\<close>, \<^verbatim>\<open>url\<close> and \<^verbatim>\<open>error\<close>.
\<close>

datatype status = Pending | Uploading | Completed | Failed | Invalid

text \<open>The three fields of a browser \<^verbatim>\<open>File\<close> that the component reads.\<close>

record js_file =
  fname :: string
  fsize :: nat
  ftype :: string

text \<open>
  The rejection carries the numbers that the source formats into its message
  (\<^verbatim>\<open>toFixed(2)\<close> of the candidate size, the limit and the running total before the
  candidate), not the formatted text.
\<close>

datatype reject =
  TypeNotAllowed string
| SizeExceeded nat int nat

record validation =
  v_isValid :: bool
  v_error :: "reject option"

text \<open>
  The \<^verbatim>\<open>error\<close> text of a file: a validation rejection, or the message of a failed
  upload or read.
\<close>

datatype file_error = Rejection reject | Message string

text \<open>\<^verbatim>\<open>IFileState\<close>; an absent \<^verbatim>\<open>isValid\<close> is falsy and is \<open>False\<close> here.\<close>

record file_state =
  fs_file :: js_file
  fs_progress :: int
  fs_status :: status
  fs_url :: "string option"
  fs_error :: "file_error option"
  fs_isValid :: bool

text \<open>\<^verbatim>\<open>IExistingFileState\<close>: a file the list endpoint reported.\<close>

record existing_file =
  ex_name :: string
  ex_size :: nat
  ex_url :: string
  ex_lastModified :: string

text \<open>One entry of the local batch JSON built by \<^verbatim>\<open>processFilesAsJSON\<close>.\<close>

record json_file =
  jf_name :: string
  jf_size :: nat
  jf_contentBytes :: string

text \<open>\<^verbatim>\<open>IUploadResult\<close>.\<close>

record upload_result =
  ur_fileName :: string
  ur_url :: string
  ur_success :: bool
  ur_error :: "string option"
  ur_flowRunId :: "string option"

text \<open>
  The properties and the admin configuration the operations read. A property that is
  \<^verbatim>\<open>null\<close> or \<^verbatim>\<open>undefined\<close> is \<open>None\<close>.
\<close>

datatype upload_status = InProgress | StatusCompleted | StatusFailed

text \<open>The entries of \<^verbatim>\<open>filesJSON\<close> that the remote path reports.\<close>

record result_entry =
  re_name :: string
  re_url :: string
  re_success :: bool
  re_error :: "string option"

datatype files_json = BatchJSON "json_file list" | ResultsJSON "result_entry list"

datatype event_tag =
  ContextChanged
| CumulativeFilesCleared
| FileRemovedFromCumulative string
| FileDeleted string

text \<open>
  The object handed to \<^verbatim>\<open>onEvent\<close>; a key the source leaves out is \<open>None\<close>. The
  JSON texts are kept as the values they encode.
\<close>

record event =
  ev_filesJSON :: "files_json option"
  ev_existingFiles :: "existing_file list option"
  ev_uploadResults :: "upload_result list option"
  ev_uploadStatus :: "upload_status option"
  ev_tag :: "event_tag option"

text \<open>
  A \<^verbatim>\<open>fetch\<close> call: the address, the \<^verbatim>\<open>Authorization\<close> header if one is
  set, the JSON body, and the delay in milliseconds after which an abort signal fires
  (\<open>None\<close> when the call passes no signal).
\<close>

datatype payload =
  UploadPayload string "string option" string string nat string
| ListPayload string string
| DeletePayload string string "string option"

record 'p request =
  rq_url :: string
  rq_authorization :: "string option"
  rq_payload :: 'p
  rq_signal :: "nat option"

text \<open>
  The cells that the operations below read or write, with two logs added: the events
  handed to \<^verbatim>\<open>onEvent\<close> and the requests sent with \<^verbatim>\<open>fetch\<close>, oldest
  first. The cells that only steer the display (\<^verbatim>\<open>showFileList\<close>,
  \<^verbatim>\<open>uploadProgress\<close>, the loading and confirmation flags, the state of the
  button) are left out.
\<close>

record state =
  fileStates :: "file_state list"
  existingFiles :: "existing_file list"
  selectedFiles :: "js_file list"
  cumulativeFilesJSON :: "json_file list"
  events :: "event list"
  requests :: "payload request list"

record config =
  buttonAllowMultipleFiles :: bool
  maxTotalFileSizeMB :: int
  allowedFileTypes :: string
  cloudFlowUploadUrl :: "string option"
  cloudFlowListFilesUrl :: "string option"
  cloudFlowDeleteUrl :: "string option"
  cloudFlowDownloadUrl :: "string option"
  containerPath :: "string option"
  listFilesFolderName :: "string option"
  recordUid :: "string option"

section \<open>Strings as JavaScript handles them\<close>

definition isSep :: "char \<Rightarrow> bool" where
  "isSep c = (c = CHR '';'' \<or> c = CHR '','')"

text \<open>
  \<^verbatim>\<open>s.split(re)\<close> for a one-character class: the pieces between the characters
  that satisfy \<open>P\<close>; never the empty list.
\<close>

fun splitOn :: "(char \<Rightarrow> bool) \<Rightarrow> string \<Rightarrow> string list" where
  "splitOn P [] = [[]]"
| "splitOn P (c # cs) =
     (if P c then [] # splitOn P cs
      else (case splitOn P cs of [] \<Rightarrow> [[c]] | w # ws \<Rightarrow> (c # w) # ws))"

text \<open>
  The white space and line terminators below 256 that \<^verbatim>\<open>trim\<close> strips: tab,
  line feed, vertical tab, form feed, carriage return, space and no-break space.
\<close>

definition isSpace :: "char \<Rightarrow> bool" where
  "isSpace c =
     (c \<in> {CHR 0x09, CHR 0x0A, CHR 0x0B, CHR 0x0C, CHR 0x0D, CHR 0x20, CHR 0xA0})"

definition trim :: "string \<Rightarrow> string" where
  "trim s = rev (dropWhile isSpace (rev (dropWhile isSpace s)))"

text \<open>
  \<^verbatim>\<open>toLowerCase\<close> on code units below 256: the capital letters are A to Z
  (65 to 90) and the accented capitals from 192 to 222 without the multiplication sign
  215; the small letter of each is 32 above it.
\<close>

definition isUpperCode :: "nat \<Rightarrow> bool" where
  "isUpperCode n = ((65 \<le> n \<and> n \<le> 90) \<or> (192 \<le> n \<and> n \<le> 222 \<and> n \<noteq> 215))"

definition toLowerChar :: "char \<Rightarrow> char" where
  "toLowerChar c = (if isUpperCode (of_char c) then char_of (of_char c + 32 :: nat) else c)"

definition toLowerCase :: "string \<Rightarrow> string" where
  "toLowerCase s = map toLowerChar s"

text \<open>\<^verbatim>\<open>s.lastIndexOf(c)\<close>, with \<open>None\<close> for the result \<^verbatim>\<open>-1\<close>.\<close>

fun lastIndexOf :: "char \<Rightarrow> string \<Rightarrow> nat option" where
  "lastIndexOf c [] = None"
| "lastIndexOf c (x # xs) =
     (case lastIndexOf c xs of
        Some i \<Rightarrow> Some (Suc i)
      | None \<Rightarrow> if x = c then Some 0 else None)"

text \<open>
  \<^verbatim>\<open>fileName.substring(fileName.lastIndexOf('.'))\<close>: \<^verbatim>\<open>substring\<close> reads the
  index \<^verbatim>\<open>-1\<close> as \<^verbatim>\<open>0\<close>, so a name without a dot is its own extension.
\<close>

definition fileExtension :: "string \<Rightarrow> string" where
  "fileExtension fileName =
     (case lastIndexOf CHR ''.'' fileName of None \<Rightarrow> fileName | Some i \<Rightarrow> drop i fileName)"

text \<open>\<^verbatim>\<open>s.replace('*', '')\<close> removes the first star only.\<close>

fun removeFirstStar :: "string \<Rightarrow> string" where
  "removeFirstStar [] = []"
| "removeFirstStar (c # cs) = (if c = CHR ''*'' then cs else c # removeFirstStar cs)"

section \<open>Validation engine\<close>

text \<open>The callback of \<^verbatim>\<open>allowedTypes.some\<close> in \<^verbatim>\<open>validateFileType\<close>.\<close>

definition typeMatches :: "string \<Rightarrow> string \<Rightarrow> string \<Rightarrow> bool" where
  "typeMatches fileExt fileType allowedType =
     (if CHR ''/'' \<in> set allowedType
      then fileType = allowedType \<or> prefix (removeFirstStar allowedType) fileType
      else fileExt = (if prefix ''.'' allowedType then allowedType else CHR ''.'' # allowedType))"

text \<open>The \<^verbatim>\<open>split\<close>, \<^verbatim>\<open>map\<close>, \<^verbatim>\<open>filter\<close> chain that yields \<^verbatim>\<open>allowedTypes\<close>.\<close>

definition parseAllowedTypes :: "string \<Rightarrow> string list" where
  "parseAllowedTypes allowed =
     filter (\<lambda>t. t \<noteq> [] \<and> t \<noteq> ''*'') (map (\<lambda>t. toLowerCase (trim t)) (splitOn isSep allowed))"

definition accepted :: validation where
  "accepted = \<lparr>v_isValid = True, v_error = None\<rparr>"

definition rejected :: "reject \<Rightarrow> validation" where
  "rejected e = \<lparr>v_isValid = False, v_error = Some e\<rparr>"

text \<open>
  The type check of \<^verbatim>\<open>validateFileType\<close>: \<open>True\<close> when the source returns the
  type rejection.
\<close>

definition typeRejected :: "config \<Rightarrow> js_file \<Rightarrow> bool" where
  "typeRejected cfg f =
     (let allowed = allowedFileTypes cfg in
      if allowed = [] \<or> trim allowed = [] \<or> trim allowed = ''*'' then False
      else
        (let allowedTypes = parseAllowedTypes allowed in
         if allowedTypes \<noteq> [] then
           (let fileName = toLowerCase (fname f);
                fileType = toLowerCase (ftype f);
                fileExt = fileExtension fileName;
                isValidType = list_ex (typeMatches fileExt fileType) allowedTypes
            in \<not> isValidType)
         else False))"

text \<open>
  \<^verbatim>\<open>validateFileType(file, existingFiles)\<close>. The parameter, here \<open>batch\<close>, hides
  the state cell of the same name inside the function: the files summed are the valid,
  non-failed entries of \<^verbatim>\<open>fileStates\<close> and the files of the parameter.
\<close>

definition validateFileType :: "config \<Rightarrow> state \<Rightarrow> js_file \<Rightarrow> js_file list \<Rightarrow> validation" where
  "validateFileType cfg st f batch =
     (if typeRejected cfg f then rejected (TypeNotAllowed (allowedFileTypes cfg))
      else if maxTotalFileSizeMB cfg > 0 then
        (let maxSizeBytes = maxTotalFileSizeMB cfg * 1024 * 1024;
             existingPendingFiles =
               map fs_file (filter (\<lambda>fs. fs_isValid fs \<and> fs_status fs \<noteq> Failed) (fileStates st));
             allExistingFiles = existingPendingFiles @ batch;
             totalExistingSize = foldl (\<lambda>sum g. sum + fsize g) 0 allExistingFiles;
             totalNewSize = totalExistingSize + fsize f
         in if int totalNewSize > maxSizeBytes
            then rejected (SizeExceeded (fsize f) (maxTotalFileSizeMB cfg) totalExistingSize)
            else accepted)
      else accepted)"

section \<open>Per-file state store\<close>

text \<open>
  The loop of \<^verbatim>\<open>addFilesToState\<close>, with \<^verbatim>\<open>newFileStates\<close> as accumulator.
  The source also computes \<^verbatim>\<open>existingPendingSize\<close> and \<^verbatim>\<open>currentBatchSize\<close>
  and never reads them; they are left out.
\<close>

fun addLoop :: "config \<Rightarrow> state \<Rightarrow> file_state list \<Rightarrow> js_file list \<Rightarrow> file_state list" where
  "addLoop cfg st newFileStates [] = newFileStates"
| "addLoop cfg st newFileStates (f # fs) =
     (let filesInCurrentBatch = map fs_file (filter fs_isValid newFileStates);
          v = validateFileType cfg st f filesInCurrentBatch
      in addLoop cfg st
           (newFileStates @
              [\<lparr>fs_file = f, fs_progress = 0,
                fs_status = (if v_isValid v then Pending else Invalid),
                fs_url = None,
                fs_error = map_option Rejection (v_error v),
                fs_isValid = v_isValid v\<rparr>])
           fs)"

definition addFilesToState :: "config \<Rightarrow> js_file list \<Rightarrow> state \<Rightarrow> state" where
  "addFilesToState cfg files st =
     st\<lparr>fileStates := fileStates st @ addLoop cfg st [] files,
        selectedFiles := selectedFiles st @ files\<rparr>"

text \<open>
  \<^verbatim>\<open>updateFileState(fileName, updates)\<close>: \<^verbatim>\<open>updates\<close> is a partial
  \<^verbatim>\<open>IFileState\<close>; a key that is present overrides the field, also when its value
  is \<^verbatim>\<open>undefined\<close> (so \<open>Some None\<close> clears a field and \<open>None\<close> keeps it).
\<close>

record file_update =
  u_progress :: "int option"
  u_status :: "status option"
  u_url :: "string option option"
  u_error :: "file_error option option"

definition noUpdate :: file_update where
  "noUpdate = \<lparr>u_progress = None, u_status = None, u_url = None, u_error = None\<rparr>"

definition applyUpdate :: "file_update \<Rightarrow> file_state \<Rightarrow> file_state" where
  "applyUpdate u fs =
     fs\<lparr>fs_progress := (case u_progress u of None \<Rightarrow> fs_progress fs | Some p \<Rightarrow> p),
        fs_status := (case u_status u of None \<Rightarrow> fs_status fs | Some s \<Rightarrow> s),
        fs_url := (case u_url u of None \<Rightarrow> fs_url fs | Some x \<Rightarrow> x),
        fs_error := (case u_error u of None \<Rightarrow> fs_error fs | Some e \<Rightarrow> e)\<rparr>"

definition updateFileState :: "string \<Rightarrow> file_update \<Rightarrow> state \<Rightarrow> state" where
  "updateFileState fileName updates st =
     st\<lparr>fileStates :=
          map (\<lambda>fileState. if fname (fs_file fileState) = fileName
                            then applyUpdate updates fileState else fileState)
            (fileStates st)\<rparr>"

definition emit :: "event \<Rightarrow> state \<Rightarrow> state" where
  "emit e st = st\<lparr>events := events st @ [e]\<rparr>"

definition noEvent :: event where
  "noEvent = \<lparr>ev_filesJSON = None, ev_existingFiles = None, ev_uploadResults = None,
              ev_uploadStatus = None, ev_tag = None\<rparr>"

text \<open>JavaScript truthiness of an optional string property.\<close>

definition truthy :: "string option \<Rightarrow> bool" where
  "truthy s = (case s of None \<Rightarrow> False | Some x \<Rightarrow> x \<noteq> [])"

definition orEmpty :: "string option \<Rightarrow> string" where
  "orEmpty s = (case s of None \<Rightarrow> [] | Some x \<Rightarrow> x)"

text \<open>The test \<^verbatim>\<open>!recordUid || recordUid.trim() === ''\<close>.\<close>

definition recordUidEmpty :: "config \<Rightarrow> bool" where
  "recordUidEmpty cfg = (\<not> truthy (recordUid cfg) \<or> trim (orEmpty (recordUid cfg)) = [])"

definition isCloudFlowConfigured :: "config \<Rightarrow> bool" where
  "isCloudFlowConfigured cfg =
     (truthy (recordUid cfg) \<and> trim (orEmpty (recordUid cfg)) \<noteq> [] \<and>
      truthy (cloudFlowDownloadUrl cfg) \<and> truthy (cloudFlowUploadUrl cfg) \<and>
      truthy (cloudFlowListFilesUrl cfg) \<and> truthy (cloudFlowDeleteUrl cfg) \<and>
      truthy (containerPath cfg))"

definition getCombinedFolderPath :: "config \<Rightarrow> string" where
  "getCombinedFolderPath cfg =
     (if \<not> truthy (listFilesFolderName cfg) \<or> \<not> truthy (recordUid cfg)
      then (if truthy (recordUid cfg) then orEmpty (recordUid cfg)
            else if truthy (listFilesFolderName cfg) then orEmpty (listFilesFolderName cfg)
            else [])
      else orEmpty (listFilesFolderName cfg) @ ''/'' @ orEmpty (recordUid cfg))"

text \<open>
  \<^verbatim>\<open>removeFile(fileName)\<close>. \<^verbatim>\<open>find\<close> yields the first entry of that name; the
  early \<^verbatim>\<open>return\<close> after the warning leaves every cell as it was.
\<close>

definition removeFile :: "config \<Rightarrow> string \<Rightarrow> state \<Rightarrow> state" where
  "removeFile cfg fileName st =
     (let fileState = find (\<lambda>fs. fname (fs_file fs) = fileName) (fileStates st);
          refused = (case fileState of
                       None \<Rightarrow> False
                     | Some fs \<Rightarrow> fs_status fs = Uploading \<or> fs_status fs = Completed \<or>
                                 fs_status fs = Failed)
      in if refused then st
         else
           (let st1 = st\<lparr>fileStates := filter (\<lambda>fs. fname (fs_file fs) \<noteq> fileName) (fileStates st),
                         selectedFiles := filter (\<lambda>f. fname f \<noteq> fileName) (selectedFiles st)\<rparr>
            in if recordUidEmpty cfg then
                 (let updatedCumulative =
                        filter (\<lambda>j. jf_name j \<noteq> fileName) (cumulativeFilesJSON st1)
                  in emit (noEvent\<lparr>ev_filesJSON := Some (BatchJSON updatedCumulative),
                                   ev_tag := Some (FileRemovedFromCumulative fileName)\<rparr>)
                       (st1\<lparr>cumulativeFilesJSON := updatedCumulative\<rparr>))
               else st1))"

definition clearNewFiles :: "config \<Rightarrow> state \<Rightarrow> state" where
  "clearNewFiles cfg st =
     (let st1 = st\<lparr>fileStates := [], selectedFiles := []\<rparr>
      in if recordUidEmpty cfg then
           emit (noEvent\<lparr>ev_filesJSON := Some (BatchJSON []),
                         ev_tag := Some CumulativeFilesCleared\<rparr>)
             (st1\<lparr>cumulativeFilesJSON := []\<rparr>)
         else st1)"

text \<open>
  \<^verbatim>\<open>getCurrentTotalFileSize\<close>: the sizes of the valid entries that have not failed.
\<close>

definition getCurrentTotalFileSize :: "state \<Rightarrow> nat" where
  "getCurrentTotalFileSize st =
     (let validPendingFiles =
            filter (\<lambda>fs. fs_isValid fs \<and> fs_status fs \<noteq> Failed) (fileStates st)
      in foldl (\<lambda>total fs. total + fsize (fs_file fs)) 0 validPendingFiles)"

section \<open>The environment of the asynchronous operations\<close>

text \<open>
  What the browser and the remote endpoints answer is an input of the model. A
  \<^verbatim>\<open>FileReader\<close> either loads a data URL or fails; a \<^verbatim>\<open>fetch\<close> either is
  rejected with a message or yields a response whose body may fail to parse as JSON; a
  body that parses is an object with the members the operation reads.
  The random numbers of the progress timer are the list of values that
  \<^verbatim>\<open>Math.random()\<close> returned in the ticks that fired while the file was in flight.
\<close>

datatype read_outcome = ReadOk string | ReadError string

datatype 'b body = Parsed 'b | Unparsable string

record 'b response =
  rs_ok :: bool
  rs_status :: nat
  rs_statusText :: string
  rs_body :: "'b body"

datatype 'b fetch_outcome = Replied "'b response" | NetworkFailure string

record upload_body =
  ub_success :: bool
  ub_url :: "string option"
  ub_error :: "string option"
  ub_flowRunId :: "string option"

record list_entry =
  le_name :: string
  le_size :: nat
  le_url :: string
  le_lastModified :: string

text \<open>
  The \<^verbatim>\<open>files\<close> member of a list response: absent or another falsy value, an array
  of file objects, or any other truthy value.
\<close>

datatype files_field = FilesFalsy | FilesArray "list_entry list" | FilesOther

record list_body =
  lb_success :: bool
  lb_files :: files_field
  lb_error :: "string option"

record delete_body =
  db_success :: bool
  db_error :: "string option"

record env =
  readOutcome :: "js_file \<Rightarrow> read_outcome"
  uploadOutcome :: "js_file \<Rightarrow> upload_body fetch_outcome"
  listOutcome :: "list_body fetch_outcome"
  deleteOutcome :: "string \<Rightarrow> delete_body fetch_outcome"
  progressTicks :: "js_file \<Rightarrow> real list"

section \<open>Listing the remote files\<close>

definition toExisting :: "list_entry \<Rightarrow> existing_file" where
  "toExisting e = \<lparr>ex_name = le_name e, ex_size = le_size e, ex_url = le_url e,
                    ex_lastModified = le_lastModified e\<rparr>"

text \<open>
  The body of the \<^verbatim>\<open>try\<close> block of \<^verbatim>\<open>loadExistingFiles\<close> from the parsing of
  the response to \<^verbatim>\<open>existingFileStates\<close>: \<open>Inl\<close> is the error thrown, \<open>Inr\<close> the
  list stored by \<^verbatim>\<open>setExistingFiles\<close>. Calling \<^verbatim>\<open>map\<close> on a truthy value that
  is no array raises a \<^verbatim>\<open>TypeError\<close>.
\<close>

definition listResult :: "list_body response \<Rightarrow> string + existing_file list" where
  "listResult r =
     (case rs_body r of
        Unparsable m \<Rightarrow>
          (if \<not> rs_ok r then Inl (''List files failed: '' @ rs_statusText r)
           else Inl ''Failed to parse response'')
      | Parsed result \<Rightarrow>
          (let hasValidFilesArray =
                 (case lb_files result of FilesArray _ \<Rightarrow> True | _ \<Rightarrow> False)
           in if (\<not> rs_ok r \<or> \<not> lb_success result) \<and> \<not> hasValidFilesArray
              then Inl (if truthy (lb_error result) then orEmpty (lb_error result)
                        else ''List files failed: '' @ rs_statusText r)
              else (case lb_files result of
                      FilesFalsy \<Rightarrow> Inr []
                    | FilesArray files \<Rightarrow> Inr (map toExisting files)
                    | FilesOther \<Rightarrow> Inl ''files.map is not a function'')))"

definition listRequest :: "config \<Rightarrow> payload request" where
  "listRequest cfg =
     \<lparr>rq_url = orEmpty (cloudFlowListFilesUrl cfg), rq_authorization = None,
      rq_payload = ListPayload (orEmpty (containerPath cfg)) (getCombinedFolderPath cfg),
      rq_signal = None\<rparr>"

text \<open>
  The part of \<^verbatim>\<open>loadExistingFiles\<close> after \<^verbatim>\<open>await fetch\<close>. An error is
  caught and logged: the list of existing files stays as it was and no event is sent.
\<close>

definition receiveList :: "env \<Rightarrow> state \<Rightarrow> state" where
  "receiveList en st =
     (case listOutcome en of
        NetworkFailure m \<Rightarrow> st
      | Replied r \<Rightarrow>
          (case listResult r of
             Inl err \<Rightarrow> st
           | Inr existingFileStates \<Rightarrow>
               emit (noEvent\<lparr>ev_existingFiles := Some existingFileStates\<rparr>)
                 (st\<lparr>existingFiles := existingFileStates\<rparr>)))"

definition loadExistingFiles :: "config \<Rightarrow> env \<Rightarrow> state \<Rightarrow> state" where
  "loadExistingFiles cfg en st =
     (if \<not> isCloudFlowConfigured cfg
      then emit (noEvent\<lparr>ev_existingFiles := Some []\<rparr>) (st\<lparr>existingFiles := []\<rparr>)
      else receiveList en (st\<lparr>requests := requests st @ [listRequest cfg]\<rparr>))"

section \<open>Progress estimator\<close>

text \<open>
  One firing of the interval callback of \<^verbatim>\<open>startProgressSimulation\<close>; \<open>r\<close> is the
  value of \<^verbatim>\<open>Math.random()\<close>, a number from 0 up to but excluding 1. The numbers
  are reals here.
\<close>

definition tick :: "real \<Rightarrow> real \<Rightarrow> real" where
  "tick simulatedProgress r = min (simulatedProgress + r * 15) 95"

text \<open>
  The ticks that fire between \<^verbatim>\<open>startProgressSimulation\<close> and
  \<^verbatim>\<open>stopProgressSimulation\<close>: the counter starts at 0, and each tick writes the
  floor of the counter into the progress of the files of that name.
\<close>

fun runTicks :: "string \<Rightarrow> real \<Rightarrow> real list \<Rightarrow> state \<Rightarrow> state" where
  "runTicks fileName simulatedProgress [] st = st"
| "runTicks fileName simulatedProgress (r # rs) st =
     (let p = tick simulatedProgress r
      in runTicks fileName p rs
           (updateFileState fileName (noUpdate\<lparr>u_progress := Some \<lfloor>p\<rfloor>\<rparr>) st))"

definition simulateProgress :: "env \<Rightarrow> js_file \<Rightarrow> state \<Rightarrow> state" where
  "simulateProgress en f st = runTicks (fname f) 0 (progressTicks en f) st"

section \<open>Transfer orchestrator\<close>

definition failedUpload :: "js_file \<Rightarrow> string \<Rightarrow> upload_result" where
  "failedUpload f msg =
     \<lparr>ur_fileName = fname f, ur_url = [], ur_success = False, ur_error = Some msg,
      ur_flowRunId = None\<rparr>"

text \<open>\<^verbatim>\<open>(reader.result as string).split(',')[1]\<close>.\<close>

definition base64Part :: "string \<Rightarrow> string option" where
  "base64Part dataUrl =
     (case splitOn (\<lambda>c. c = CHR '','') dataUrl of _ # b # _ \<Rightarrow> Some b | _ \<Rightarrow> None)"

definition uploadRequest :: "config \<Rightarrow> js_file \<Rightarrow> string \<Rightarrow> payload request" where
  "uploadRequest cfg f dataUrl =
     \<lparr>rq_url = orEmpty (cloudFlowUploadUrl cfg), rq_authorization = None,
      rq_payload = UploadPayload (fname f) (base64Part dataUrl) (orEmpty (containerPath cfg))
                     (getCombinedFolderPath cfg) (fsize f)
                     (if ftype f = [] then ''application/octet-stream'' else ftype f),
      rq_signal = None\<rparr>"

text \<open>
  The \<^verbatim>\<open>try\<close>/\<^verbatim>\<open>catch\<close> around one upload, which
  \<^verbatim>\<open>uploadToCloudFlow\<close> writes out once in its loop for several files and once
  for a single file: the file is read, the request is sent with \<^verbatim>\<open>fetch\<close>, and
  the answer becomes an \<^verbatim>\<open>IUploadResult\<close>. The first component is the list of
  requests sent (none when the file cannot be read).
\<close>

definition attemptUpload :: "config \<Rightarrow> env \<Rightarrow> js_file \<Rightarrow> payload request list \<times> upload_result" where
  "attemptUpload cfg en f =
     (case readOutcome en f of
        ReadError m \<Rightarrow> ([], failedUpload f m)
      | ReadOk dataUrl \<Rightarrow>
          if dataUrl = [] then ([], failedUpload f ''Failed to read file'')
          else
            (let rq = uploadRequest cfg f dataUrl
             in case uploadOutcome en f of
                  NetworkFailure m \<Rightarrow> ([rq], failedUpload f m)
                | Replied r \<Rightarrow>
                    if \<not> rs_ok r then ([rq], failedUpload f (''Upload failed: '' @ rs_statusText r))
                    else
                      (case rs_body r of
                         Unparsable m \<Rightarrow> ([rq], failedUpload f m)
                       | Parsed result \<Rightarrow>
                           if ub_success result
                           then ([rq], \<lparr>ur_fileName = fname f, ur_url = orEmpty (ub_url result),
                                        ur_success = True, ur_error = None,
                                        ur_flowRunId = ub_flowRunId result\<rparr>)
                           else ([rq], failedUpload f
                                         (if truthy (ub_error result) then orEmpty (ub_error result)
                                          else ''Upload failed'')))))"

text \<open>The first \<^verbatim>\<open>forEach\<close> of \<^verbatim>\<open>uploadToCloudFlow\<close>.\<close>

definition markUploading :: "js_file list \<Rightarrow> state \<Rightarrow> state" where
  "markUploading files st =
     foldl (\<lambda>s f. updateFileState (fname f)
                     (noUpdate\<lparr>u_status := Some Uploading, u_progress := Some 0\<rparr>) s)
       st files"

text \<open>The loop over the files when several files are allowed.\<close>

fun uploadEach ::
  "config \<Rightarrow> env \<Rightarrow> js_file list \<Rightarrow> upload_result list \<Rightarrow> state \<Rightarrow> upload_result list \<times> state" where
  "uploadEach cfg en [] results st = (results, st)"
| "uploadEach cfg en (f # fs) results st =
     (let st1 = simulateProgress en f st;
          (rqs, res) = attemptUpload cfg en f;
          st2 = st1\<lparr>requests := requests st1 @ rqs\<rparr>;
          st3 = (if ur_success res
                 then updateFileState (fname f) (noUpdate\<lparr>u_progress := Some 100\<rparr>) st2
                 else st2)
      in uploadEach cfg en fs (results @ [res]) st3)"

text \<open>The \<^verbatim>\<open>results.forEach\<close> that writes the outcomes into the file states.\<close>

definition resultUpdate :: "upload_result \<Rightarrow> file_update" where
  "resultUpdate res =
     \<lparr>u_progress = Some (if ur_success res then 100 else 0),
      u_status = Some (if ur_success res then Completed else Failed),
      u_url = Some (if ur_success res then Some (ur_url res) else None),
      u_error = Some (if ur_success res then None else map_option Message (ur_error res))\<rparr>"

definition applyResults :: "upload_result list \<Rightarrow> state \<Rightarrow> state" where
  "applyResults results st =
     foldl (\<lambda>s res. updateFileState (ur_fileName res) (resultUpdate res) s) st results"

text \<open>
  \<^verbatim>\<open>uploadToCloudFlow(files)\<close>; \<open>Inl\<close> is an exception that leaves the function.
  With several files allowed every file is uploaded in turn; otherwise the branch reads
  \<^verbatim>\<open>files[0]\<close> only.
\<close>

definition uploadToCloudFlow ::
  "config \<Rightarrow> env \<Rightarrow> js_file list \<Rightarrow> state \<Rightarrow> string + (upload_result list \<times> state)" where
  "uploadToCloudFlow cfg en files st =
     (if \<not> isCloudFlowConfigured cfg then Inl ''Cloud Flow configuration is missing''
      else
        (let st0 = markUploading files st
         in if buttonAllowMultipleFiles cfg then
              (let (results, st1) = uploadEach cfg en files [] st0
               in Inr (results, applyResults results st1))
            else
              (case files of
                 [] \<Rightarrow> Inl ''Cannot read properties of undefined''
               | f # _ \<Rightarrow>
                   (let st1 = simulateProgress en f st0;
                        (rqs, res) = attemptUpload cfg en f;
                        st2 = st1\<lparr>requests := requests st1 @ rqs\<rparr>
                    in if ur_success res then
                         Inr ([res],
                              updateFileState (fname f)
                                (noUpdate\<lparr>u_status := Some Completed, u_url := Some (Some (ur_url res)),
                                          u_progress := Some 100\<rparr>)
                                (updateFileState (fname f) (noUpdate\<lparr>u_progress := Some 100\<rparr>) st2))
                       else
                         Inr ([res],
                              updateFileState (fname f)
                                (noUpdate\<lparr>u_status := Some Failed,
                                          u_error := Some (map_option Message (ur_error res)),
                                          u_progress := Some 0\<rparr>)
                                st2)))))"

text \<open>
  \<^verbatim>\<open>processFilesAsJSON\<close>: \<^verbatim>\<open>readFile\<close> rejects with \<^verbatim>\<open>null\<close> when a file
  cannot be read, and so does the \<^verbatim>\<open>Promise.all\<close>; the message that the handler
  of \<^verbatim>\<open>processFiles\<close> makes of it is \<^verbatim>\<open>String(null)\<close>.
\<close>

fun processFilesAsJSON :: "env \<Rightarrow> js_file list \<Rightarrow> string + json_file list" where
  "processFilesAsJSON en [] = Inr []"
| "processFilesAsJSON en (f # fs) =
     (case readOutcome en f of
        ReadError m \<Rightarrow> Inl ''null''
      | ReadOk content \<Rightarrow>
          (case processFilesAsJSON en fs of
             Inl e \<Rightarrow> Inl e
           | Inr rest \<Rightarrow>
               Inr (\<lparr>jf_name = fname f, jf_size = fsize f, jf_contentBytes = content\<rparr> # rest)))"

definition toEntry :: "upload_result \<Rightarrow> result_entry" where
  "toEntry res = \<lparr>re_name = ur_fileName res, re_url = ur_url res, re_success = ur_success res,
                   re_error = ur_error res\<rparr>"

text \<open>The \<^verbatim>\<open>catch\<close> block of \<^verbatim>\<open>processFiles\<close>.\<close>

definition processFailed :: "js_file list \<Rightarrow> string \<Rightarrow> state \<Rightarrow> state" where
  "processFailed files msg st =
     emit (noEvent\<lparr>ev_uploadStatus := Some StatusFailed,
                   ev_uploadResults :=
                     Some [\<lparr>ur_fileName = ''Unknown'', ur_url = [], ur_success = False,
                            ur_error = Some msg, ur_flowRunId = None\<rparr>]\<rparr>)
       (foldl (\<lambda>s f. updateFileState (fname f)
                        (noUpdate\<lparr>u_status := Some Failed, u_error := Some (Some (Message msg)),
                                  u_progress := Some 0\<rparr>) s)
          st files)"

text \<open>
  \<^verbatim>\<open>processFiles(files)\<close>. The cumulative list sent in the event is the one the
  function saw when it was called, extended by the current batch.
\<close>

definition processFiles :: "config \<Rightarrow> env \<Rightarrow> js_file list \<Rightarrow> state \<Rightarrow> state" where
  "processFiles cfg en files st =
     (if files = [] then st
      else if isCloudFlowConfigured cfg then
        (let st0 = emit (noEvent\<lparr>ev_uploadStatus := Some InProgress\<rparr>) st
         in case uploadToCloudFlow cfg en files st0 of
              Inl msg \<Rightarrow> processFailed files msg st0
            | Inr (uploadResults, st1) \<Rightarrow>
                (let hasFailures = list_ex (\<lambda>res. \<not> ur_success res) uploadResults;
                     st2 =
                       (if list_ex ur_success uploadResults then
                          (let st' = loadExistingFiles cfg en st1;
                               successfulUploads = map ur_fileName (filter ur_success uploadResults)
                           in st'\<lparr>fileStates :=
                                    filter (\<lambda>fs. fname (fs_file fs) \<notin> set successfulUploads)
                                      (fileStates st'),
                                  selectedFiles :=
                                    filter (\<lambda>f. fname f \<notin> set successfulUploads) (selectedFiles st')\<rparr>)
                        else st1)
                 in emit (noEvent\<lparr>ev_uploadResults := Some uploadResults,
                                  ev_uploadStatus :=
                                    Some (if hasFailures then StatusFailed else StatusCompleted),
                                  ev_filesJSON := Some (ResultsJSON (map toEntry uploadResults))\<rparr>)
                      st2))
      else
        (case processFilesAsJSON en files of
           Inl msg \<Rightarrow> processFailed files msg st
         | Inr currentBatchFiles \<Rightarrow>
             (let st1 = foldl (\<lambda>s f. updateFileState (fname f)
                                        (noUpdate\<lparr>u_status := Some Completed, u_progress := Some 100\<rparr>) s)
                          st files
              in if recordUidEmpty cfg then
                   emit (noEvent\<lparr>ev_filesJSON :=
                                   Some (BatchJSON (cumulativeFilesJSON st @ currentBatchFiles)),
                                 ev_uploadStatus := Some StatusCompleted\<rparr>)
                     (st1\<lparr>cumulativeFilesJSON := cumulativeFilesJSON st1 @ currentBatchFiles\<rparr>)
                 else
                   (let st2 = emit (noEvent\<lparr>ev_filesJSON := Some (BatchJSON currentBatchFiles),
                                            ev_uploadStatus := Some StatusCompleted\<rparr>) st1
                    in st2\<lparr>fileStates :=
                             filter (\<lambda>fs. fname (fs_file fs) \<notin> fname ` set files) (fileStates st2),
                           selectedFiles :=
                             filter (\<lambda>f. fname f \<notin> fname ` set files) (selectedFiles st2)\<rparr>))))"

definition handleUploadAll :: "config \<Rightarrow> env \<Rightarrow> state \<Rightarrow> state" where
  "handleUploadAll cfg en st =
     (let pendingValidFiles =
            map fs_file (filter (\<lambda>fs. fs_status fs = Pending \<and> fs_isValid fs) (fileStates st))
      in if pendingValidFiles \<noteq> [] then processFiles cfg en pendingValidFiles st else st)"


section \<open>Context change, deletion, and the operations as actions\<close>

text \<open>
  The effect that runs when the list address, the container, the folder or the record
  identity changes. \<^verbatim>\<open>loadExistingFiles()\<close> is started and not awaited: without a
  remote configuration it finishes at once; otherwise its request is sent, the cells are
  reset and the event is sent, and the answer is handled afterwards.
\<close>

definition resetForContext :: "state \<Rightarrow> state" where
  "resetForContext st =
     emit (noEvent\<lparr>ev_filesJSON := Some (BatchJSON []), ev_tag := Some ContextChanged\<rparr>)
       (st\<lparr>fileStates := [], selectedFiles := [], cumulativeFilesJSON := []\<rparr>)"

definition contextChange :: "config \<Rightarrow> env \<Rightarrow> state \<Rightarrow> state" where
  "contextChange cfg en st =
     (if isCloudFlowConfigured cfg
      then receiveList en (resetForContext (st\<lparr>requests := requests st @ [listRequest cfg]\<rparr>))
      else resetForContext (loadExistingFiles cfg en st))"

definition deleteRequest :: "config \<Rightarrow> string \<Rightarrow> payload request" where
  "deleteRequest cfg fileName =
     \<lparr>rq_url = orEmpty (cloudFlowDeleteUrl cfg), rq_authorization = None,
      rq_payload = DeletePayload fileName (orEmpty (containerPath cfg))
                     (if getCombinedFolderPath cfg = [] then None
                      else Some (getCombinedFolderPath cfg)),
      rq_signal = None\<rparr>"

text \<open>
  \<^verbatim>\<open>handleDeleteExistingFile\<close>; every error ends in an alert and changes no cell of
  this model. The event carries the list of existing files that the function saw when it
  was called, without the deleted name.
\<close>

definition handleDeleteExistingFile :: "config \<Rightarrow> env \<Rightarrow> string \<Rightarrow> state \<Rightarrow> state" where
  "handleDeleteExistingFile cfg en fileName st =
     (if \<not> isCloudFlowConfigured cfg then st
      else
        (let st1 = st\<lparr>requests := requests st @ [deleteRequest cfg fileName]\<rparr>
         in case deleteOutcome en fileName of
              NetworkFailure m \<Rightarrow> st1
            | Replied r \<Rightarrow>
                if \<not> rs_ok r then st1
                else
                  (case rs_body r of
                     Unparsable m \<Rightarrow> st1
                   | Parsed result \<Rightarrow>
                       if db_success result then
                         (let st2 = st1\<lparr>existingFiles :=
                                         filter (\<lambda>e. ex_name e \<noteq> fileName) (existingFiles st1)\<rparr>;
                              st3 = loadExistingFiles cfg en st2
                          in emit (noEvent\<lparr>ev_tag := Some (FileDeleted fileName),
                                           ev_existingFiles :=
                                             Some (filter (\<lambda>e. ex_name e \<noteq> fileName)
                                                     (existingFiles st))\<rparr>)
                               st3)
                       else st1)))"

text \<open>
  The operations of the component that write the list of files, the existing files, the
  selection or the cumulative batch. (Viewing or downloading an existing file writes none
  of them.)
\<close>

datatype action =
  AddFiles "js_file list"
| RemoveFile string
| ClearNewFiles
| ProcessFiles "js_file list"
| UploadAll
| LoadExisting
| DeleteExisting string
| ContextChange

fun step :: "config \<Rightarrow> env \<Rightarrow> action \<Rightarrow> state \<Rightarrow> state" where
  "step cfg en (AddFiles files) st = addFilesToState cfg files st"
| "step cfg en (RemoveFile fileName) st = removeFile cfg fileName st"
| "step cfg en ClearNewFiles st = clearNewFiles cfg st"
| "step cfg en (ProcessFiles files) st = processFiles cfg en files st"
| "step cfg en UploadAll st = handleUploadAll cfg en st"
| "step cfg en LoadExisting st = loadExistingFiles cfg en st"
| "step cfg en (DeleteExisting fileName) st = handleDeleteExistingFile cfg en fileName st"
| "step cfg en ContextChange st = contextChange cfg en st"

section \<open>invokeCloudFlow of PowerAutomateCloudFlows\<close>








section \<open>Concrete inputs\<close>

text \<open>
  A remote configuration with a bound record identity, a state with no files, and an
  environment in which every file is read, every upload succeeds and the list endpoint
  answers with status 500 and an empty array of files.
\<close>

definition remoteConfig :: config where
  "remoteConfig =
     \<lparr>buttonAllowMultipleFiles = True, maxTotalFileSizeMB = 10,
      allowedFileTypes = ''.pdf;.docx'',
      cloudFlowUploadUrl = Some ''https://flow/upload'',
      cloudFlowListFilesUrl = Some ''https://flow/list'',
      cloudFlowDeleteUrl = Some ''https://flow/delete'',
      cloudFlowDownloadUrl = Some ''https://flow/download'',
      containerPath = Some ''docs'', listFilesFolderName = None, recordUid = Some ''r1''\<rparr>"

definition emptyState :: state where
  "emptyState =
     \<lparr>fileStates = [], existingFiles = [], selectedFiles = [], cumulativeFilesJSON = [],
      events = [], requests = []\<rparr>"

definition emptyList500 :: "list_body response" where
  "emptyList500 =
     \<lparr>rs_ok = False, rs_status = 500, rs_statusText = ''Internal Server Error'',
      rs_body = Parsed \<lparr>lb_success = False, lb_files = FilesArray [], lb_error = None\<rparr>\<rparr>"

definition successOnly500 :: "list_body response" where
  "successOnly500 =
     \<lparr>rs_ok = False, rs_status = 500, rs_statusText = ''Internal Server Error'',
      rs_body = Parsed \<lparr>lb_success = True, lb_files = FilesFalsy, lb_error = None\<rparr>\<rparr>"

definition uploaded200 :: "upload_body response" where
  "uploaded200 =
     \<lparr>rs_ok = True, rs_status = 200, rs_statusText = ''OK'',
      rs_body = Parsed \<lparr>ub_success = True, ub_url = Some ''https://blob/f'', ub_error = None,
                        ub_flowRunId = Some ''run1''\<rparr>\<rparr>"

definition happyEnv :: env where
  "happyEnv =
     \<lparr>readOutcome = (\<lambda>f. ReadOk ''data:application/pdf;base64,QUJD''),
      uploadOutcome = (\<lambda>f. Replied uploaded200),
      listOutcome = Replied emptyList500,
      deleteOutcome = (\<lambda>n. NetworkFailure ''Failed to fetch''),
      progressTicks = (\<lambda>f. [1 / 2, 1 / 2])\<rparr>"

text \<open>
  The same configuration without an upload address and without a record identity, a PDF
  file of a given name and size, a valid entry for a file, and a state with one pending
  file.
\<close>

definition localConfig :: config where
  "localConfig = remoteConfig\<lparr>cloudFlowUploadUrl := None, recordUid := None\<rparr>"

definition pdfFile :: "string \<Rightarrow> nat \<Rightarrow> js_file" where
  "pdfFile n s = \<lparr>fname = n, fsize = s, ftype = ''application/pdf''\<rparr>"

definition entry :: "js_file \<Rightarrow> status \<Rightarrow> file_state" where
  "entry f s = \<lparr>fs_file = f, fs_progress = 0, fs_status = s, fs_url = None, fs_error = None,
                 fs_isValid = True\<rparr>"

definition onePending :: state where
  "onePending = emptyState\<lparr>fileStates := [entry (pdfFile ''a.pdf'' 3) Pending]\<rparr>"

text \<open>A state with a pending file and a completed file of different names.\<close>

definition pendingAndCompleted :: state where
  "pendingAndCompleted =
     emptyState\<lparr>fileStates := [entry (pdfFile ''a.pdf'' 3) Pending,
                                entry (pdfFile ''b.pdf'' 4) Completed]\<rparr>"


text \<open>
  The environment in which seven ticks fire while a file is in flight, each with the
  random value 14/15.
\<close>

definition eagerEnv :: env where
  "eagerEnv =
     happyEnv\<lparr>progressTicks :=
                (\<lambda>f. [14 / 15, 14 / 15, 14 / 15, 14 / 15, 14 / 15, 14 / 15, 14 / 15])\<rparr>"

text \<open>
  The remote configuration with the selection of several files switched off, and a state
  with two pending files.
\<close>

definition singleConfig :: config where
  "singleConfig = remoteConfig\<lparr>buttonAllowMultipleFiles := False\<rparr>"

definition twoPending :: state where
  "twoPending =
     emptyState\<lparr>fileStates := [entry (pdfFile ''a.pdf'' 3) Pending,
                                entry (pdfFile ''b.pdf'' 4) Pending]\<rparr>"

text \<open>The file names that a reported \<^verbatim>\<open>filesJSON\<close> value lists.\<close>

fun reportedNames :: "files_json \<Rightarrow> string list" where
  "reportedNames (BatchJSON batch) = map jf_name batch"
| "reportedNames (ResultsJSON entries) = map re_name entries"

text \<open>
  The sum of the sizes of the existing remote files, which the specification adds to the
  pending sizes; and a state that knows one remote file of 8 MB.
\<close>

definition existingRemoteSize :: "state \<Rightarrow> nat" where
  "existingRemoteSize st = sum_list (map ex_size (existingFiles st))"

definition oneRemote :: state where
  "oneRemote =
     emptyState\<lparr>existingFiles := [\<lparr>ex_name = ''old.pdf'', ex_size = 8388608,
                                    ex_url = ''https://blob/old'', ex_lastModified = []\<rparr>]\<rparr>"

text \<open>
  An extension pattern as it stands between separators, apart from white space around
  it: not empty, without white space at either end, without a leading dot, without
  separator or slash, and not the bare wildcard.
\<close>

definition extensionPattern :: "string \<Rightarrow> bool" where
  "extensionPattern p =
     (p \<noteq> [] \<and> \<not> isSpace (hd p) \<and> \<not> isSpace (last p) \<and> hd p \<noteq> CHR ''.'' \<and>
      (\<forall>c \<in> set p. \<not> isSep c \<and> c \<noteq> CHR ''/'') \<and> p \<noteq> ''*'')"

section \<open>Facts about the state store\<close>

lemma remoteConfig_configured: "isCloudFlowConfigured remoteConfig"
  by (simp add: isCloudFlowConfigured_def remoteConfig_def truthy_def orEmpty_def trim_def
      isSpace_def)

lemma status_cases:
  "s = Pending \<or> s = Invalid \<or> s = Uploading \<or> s = Completed \<or> s = Failed"
  by (cases s) auto

lemma find_distinct_name:
  assumes "distinct (map (\<lambda>fs. fname (fs_file fs)) xs)" and "x \<in> set xs"
  shows "find (\<lambda>fs. fname (fs_file fs) = fname (fs_file x)) xs = Some x"
  using assms
proof (induction xs)
  case Nil
  then show ?case by simp
next
  case (Cons y ys)
  then show ?case by (cases "x = y") (auto simp: image_iff)
qed

lemma applyUpdate_file [simp]: "fs_file (applyUpdate u fs) = fs_file fs"
  by (simp add: applyUpdate_def)

lemma applyUpdate_isValid [simp]: "fs_isValid (applyUpdate u fs) = fs_isValid fs"
  by (simp add: applyUpdate_def)

lemma applyUpdate_idem [simp]: "applyUpdate u (applyUpdate u fs) = applyUpdate u fs"
  by (simp add: applyUpdate_def split: option.splits)

text \<open>What an operation built from \<^verbatim>\<open>updateFileState\<close> leaves alone.\<close>

lemma updateFileState_frame [simp]:
  "existingFiles (updateFileState n u st) = existingFiles st"
  "selectedFiles (updateFileState n u st) = selectedFiles st"
  "cumulativeFilesJSON (updateFileState n u st) = cumulativeFilesJSON st"
  "events (updateFileState n u st) = events st"
  "requests (updateFileState n u st) = requests st"
  by (simp_all add: updateFileState_def)

lemma updateFileState_names [simp]:
  "map (\<lambda>fs. fname (fs_file fs)) (fileStates (updateFileState n u st)) =
   map (\<lambda>fs. fname (fs_file fs)) (fileStates st)"
  by (simp add: updateFileState_def comp_def)

lemma emit_frame [simp]:
  "fileStates (emit e st) = fileStates st"
  "existingFiles (emit e st) = existingFiles st"
  "selectedFiles (emit e st) = selectedFiles st"
  "cumulativeFilesJSON (emit e st) = cumulativeFilesJSON st"
  "events (emit e st) = events st @ [e]"
  "requests (emit e st) = requests st"
  by (simp_all add: emit_def)

lemma foldl_update_frame:
  "existingFiles (foldl (\<lambda>s x. updateFileState (g x) (h x) s) st xs) = existingFiles st \<and>
   selectedFiles (foldl (\<lambda>s x. updateFileState (g x) (h x) s) st xs) = selectedFiles st \<and>
   cumulativeFilesJSON (foldl (\<lambda>s x. updateFileState (g x) (h x) s) st xs) =
     cumulativeFilesJSON st \<and>
   events (foldl (\<lambda>s x. updateFileState (g x) (h x) s) st xs) = events st \<and>
   requests (foldl (\<lambda>s x. updateFileState (g x) (h x) s) st xs) = requests st \<and>
   map (\<lambda>fs. fname (fs_file fs)) (fileStates (foldl (\<lambda>s x. updateFileState (g x) (h x) s) st xs)) =
     map (\<lambda>fs. fname (fs_file fs)) (fileStates st)"
  by (induction xs arbitrary: st) simp_all

lemmas foldl_update_simps [simp] =
  foldl_update_frame [THEN conjunct1]
  foldl_update_frame [THEN conjunct2, THEN conjunct1]
  foldl_update_frame [THEN conjunct2, THEN conjunct2, THEN conjunct1]
  foldl_update_frame [THEN conjunct2, THEN conjunct2, THEN conjunct2, THEN conjunct1]
  foldl_update_frame [THEN conjunct2, THEN conjunct2, THEN conjunct2, THEN conjunct2, THEN conjunct1]
  foldl_update_frame [THEN conjunct2, THEN conjunct2, THEN conjunct2, THEN conjunct2, THEN conjunct2]

text \<open>
  Writing one update under each name of a list updates exactly the entries whose name
  is in the list.
\<close>

lemma foldl_update_fileStates:
  "fileStates (foldl (\<lambda>s x. updateFileState (g x) u s) st xs) =
   map (\<lambda>fs. if fname (fs_file fs) \<in> g ` set xs then applyUpdate u fs else fs) (fileStates st)"
proof (induction xs arbitrary: st)
  case Nil
  then show ?case by simp
next
  case (Cons x xs)
  have "fileStates (foldl (\<lambda>s x. updateFileState (g x) u s) (updateFileState (g x) u st) xs) =
        map (\<lambda>fs. if fname (fs_file fs) \<in> g ` set xs then applyUpdate u fs else fs)
          (fileStates (updateFileState (g x) u st))"
    by (rule Cons.IH)
  also have "\<dots> = map (\<lambda>fs. if fname (fs_file fs) \<in> g ` set (x # xs) then applyUpdate u fs else fs)
                     (fileStates st)"
    by (auto simp: updateFileState_def)
  finally show ?case by simp
qed

lemma runTicks_frame:
  "existingFiles (runTicks n p rs st) = existingFiles st \<and>
   selectedFiles (runTicks n p rs st) = selectedFiles st \<and>
   cumulativeFilesJSON (runTicks n p rs st) = cumulativeFilesJSON st \<and>
   events (runTicks n p rs st) = events st \<and>
   requests (runTicks n p rs st) = requests st \<and>
   map (\<lambda>fs. fname (fs_file fs)) (fileStates (runTicks n p rs st)) =
     map (\<lambda>fs. fname (fs_file fs)) (fileStates st)"
  by (induction rs arbitrary: st p) (simp_all add: Let_def)

lemmas runTicks_simps [simp] =
  runTicks_frame [THEN conjunct1]
  runTicks_frame [THEN conjunct2, THEN conjunct1]
  runTicks_frame [THEN conjunct2, THEN conjunct2, THEN conjunct1]
  runTicks_frame [THEN conjunct2, THEN conjunct2, THEN conjunct2, THEN conjunct1]
  runTicks_frame [THEN conjunct2, THEN conjunct2, THEN conjunct2, THEN conjunct2, THEN conjunct1]
  runTicks_frame [THEN conjunct2, THEN conjunct2, THEN conjunct2, THEN conjunct2, THEN conjunct2]

lemma receiveList_frame [simp]:
  "fileStates (receiveList en st) = fileStates st"
  "selectedFiles (receiveList en st) = selectedFiles st"
  "cumulativeFilesJSON (receiveList en st) = cumulativeFilesJSON st"
  "requests (receiveList en st) = requests st"
  by (simp_all add: receiveList_def split: fetch_outcome.splits sum.splits)

lemma loadExistingFiles_frame [simp]:
  "fileStates (loadExistingFiles cfg en st) = fileStates st"
  "selectedFiles (loadExistingFiles cfg en st) = selectedFiles st"
  "cumulativeFilesJSON (loadExistingFiles cfg en st) = cumulativeFilesJSON st"
  by (simp_all add: loadExistingFiles_def)

text \<open>Reading every file makes the local batch, one entry for each file, in order.\<close>

lemma processFilesAsJSON_ok:
  assumes "\<forall>f \<in> set files. \<exists>c. readOutcome en f = ReadOk c"
  shows "\<exists>batch. processFilesAsJSON en files = Inr batch \<and>
                 map jf_name batch = map fname files \<and> map jf_size batch = map fsize files"
  using assms
proof (induction files)
  case Nil
  then show ?case by simp
next
  case (Cons f fs)
  then obtain c where c: "readOutcome en f = ReadOk c" by auto
  from Cons obtain batch where
    b: "processFilesAsJSON en fs = Inr batch" "map jf_name batch = map fname fs"
       "map jf_size batch = map fsize fs"
    by auto
  with c show ?case by simp
qed

section \<open>What the transfer operations leave alone\<close>

lemma simulateProgress_frame [simp]:
  "existingFiles (simulateProgress en f st) = existingFiles st"
  "selectedFiles (simulateProgress en f st) = selectedFiles st"
  "cumulativeFilesJSON (simulateProgress en f st) = cumulativeFilesJSON st"
  "events (simulateProgress en f st) = events st"
  "requests (simulateProgress en f st) = requests st"
  "map (\<lambda>fs. fname (fs_file fs)) (fileStates (simulateProgress en f st)) =
     map (\<lambda>fs. fname (fs_file fs)) (fileStates st)"
  by (simp_all add: simulateProgress_def)

lemma markUploading_frame [simp]:
  "existingFiles (markUploading files st) = existingFiles st"
  "selectedFiles (markUploading files st) = selectedFiles st"
  "cumulativeFilesJSON (markUploading files st) = cumulativeFilesJSON st"
  "events (markUploading files st) = events st"
  "requests (markUploading files st) = requests st"
  by (simp_all add: markUploading_def)

lemma applyResults_frame [simp]:
  "existingFiles (applyResults rs st) = existingFiles st"
  "selectedFiles (applyResults rs st) = selectedFiles st"
  "cumulativeFilesJSON (applyResults rs st) = cumulativeFilesJSON st"
  "events (applyResults rs st) = events st"
  "requests (applyResults rs st) = requests st"
  by (simp_all add: applyResults_def)

lemma uploadEach_frame:
  "existingFiles (snd (uploadEach cfg en fs rs st)) = existingFiles st \<and>
   selectedFiles (snd (uploadEach cfg en fs rs st)) = selectedFiles st \<and>
   cumulativeFilesJSON (snd (uploadEach cfg en fs rs st)) = cumulativeFilesJSON st \<and>
   events (snd (uploadEach cfg en fs rs st)) = events st"
  by (induction fs arbitrary: rs st) (simp_all add: Let_def case_prod_beta)

lemma uploadToCloudFlow_frame:
  assumes "uploadToCloudFlow cfg en files st = Inr (rs, st')"
  shows "existingFiles st' = existingFiles st" "selectedFiles st' = selectedFiles st"
    "cumulativeFilesJSON st' = cumulativeFilesJSON st" "events st' = events st"
  using assms uploadEach_frame [of cfg en files "[]" "markUploading files st"]
  by (auto simp: uploadToCloudFlow_def Let_def case_prod_beta split: if_splits list.splits)

lemma processFailed_frame [simp]:
  "existingFiles (processFailed files m st) = existingFiles st"
  "selectedFiles (processFailed files m st) = selectedFiles st"
  "cumulativeFilesJSON (processFailed files m st) = cumulativeFilesJSON st"
  "requests (processFailed files m st) = requests st"
  by (simp_all add: processFailed_def)

lemma processFiles_cumulative:
  "prefix (cumulativeFilesJSON st) (cumulativeFilesJSON (processFiles cfg en files st))"
proof (cases "uploadToCloudFlow cfg en files (emit (noEvent\<lparr>ev_uploadStatus := Some InProgress\<rparr>) st)")
  case (Inl a)
  then show ?thesis
    by (auto simp: processFiles_def Let_def split: sum.splits)
next
  case (Inr b)
  obtain rs st' where b: "b = (rs, st')" by (cases b)
  from uploadToCloudFlow_frame(3) [OF Inr [unfolded b]]
  show ?thesis using Inr b
    by (auto simp: processFiles_def Let_def split: sum.splits)
qed

section \<open>Ticks, results and the two branches of the upload\<close>

lemma tick_le: "tick p r \<le> 95"
  by (simp add: tick_def)

lemma foldl_tick_le: "p \<le> 95 \<Longrightarrow> foldl tick p rs \<le> 95"
  by (induction rs arbitrary: p) (simp_all add: tick_le)

lemma runTicks_fileStates:
  "fileStates (runTicks n p rs st) =
     (if rs = [] then fileStates st
      else map (\<lambda>fs. if fname (fs_file fs) = n
                       then applyUpdate (noUpdate\<lparr>u_progress := Some \<lfloor>foldl tick p rs\<rfloor>\<rparr>) fs
                       else fs) (fileStates st))"
proof (induction rs arbitrary: p st)
  case Nil
  then show ?case by simp
next
  case (Cons r rs)
  show ?case
  proof (cases "rs = []")
    case True
    then show ?thesis by (simp add: Let_def updateFileState_def)
  next
    case False
    then show ?thesis
      using Cons.IH [of "tick p r" "updateFileState n (noUpdate\<lparr>u_progress := Some \<lfloor>tick p r\<rfloor>\<rparr>) st"]
      by (auto simp: Let_def updateFileState_def applyUpdate_def noUpdate_def)
  qed
qed

lemma attemptUpload_name [simp]: "ur_fileName (snd (attemptUpload cfg en f)) = fname f"
  by (simp add: attemptUpload_def failedUpload_def Let_def
      split: read_outcome.splits fetch_outcome.splits body.splits)

lemma uploadEach_results:
  "fst (uploadEach cfg en fs rs st) = rs @ map (\<lambda>f. snd (attemptUpload cfg en f)) fs"
  by (induction fs arbitrary: rs st) (simp_all add: Let_def case_prod_beta)

text \<open>The results written one after the other, seen from one entry.\<close>

lemma applyResults_fileStates:
  "fileStates (applyResults rs st) =
     map (\<lambda>fs. foldl (\<lambda>a r. if fname (fs_file fs) = ur_fileName r
                              then applyUpdate (resultUpdate r) a else a) fs rs)
       (fileStates st)"
proof (induction rs arbitrary: st)
  case Nil
  then show ?case by (simp add: applyResults_def)
next
  case (Cons r rs)
  have "applyResults (r # rs) st = applyResults rs (updateFileState (ur_fileName r) (resultUpdate r) st)"
    by (simp add: applyResults_def)
  then show ?case
    using Cons.IH [of "updateFileState (ur_fileName r) (resultUpdate r) st"]
    by (simp add: updateFileState_def comp_def)
qed

lemma foldl_results_other:
  assumes "\<forall>r \<in> set rs. ur_fileName r \<noteq> n"
  shows "foldl (\<lambda>a r. if n = ur_fileName r then applyUpdate (resultUpdate r) a else a) fs rs = fs"
  using assms by (induction rs arbitrary: fs) auto

lemma foldl_results_distinct:
  assumes "distinct (map ur_fileName rs)" and "r \<in> set rs" and "n = ur_fileName r"
  shows "fs_progress (foldl (\<lambda>a r. if n = ur_fileName r then applyUpdate (resultUpdate r) a else a)
                        fs rs) = (if ur_success r then 100 else 0)"
  using assms
proof (induction rs arbitrary: fs)
  case Nil
  then show ?case by simp
next
  case (Cons x xs)
  show ?case
  proof (cases "x = r")
    case True
    with Cons.prems have "\<forall>y \<in> set xs. ur_fileName y \<noteq> n" by (auto simp: image_iff)
    from foldl_results_other [OF this] True Cons.prems(3)
    show ?thesis by (simp add: applyUpdate_def resultUpdate_def)
  next
    case False
    with Cons.prems have "r \<in> set xs" "distinct (map ur_fileName xs)" by auto
    from Cons.IH [OF this(2) this(1) Cons.prems(3)] show ?thesis by simp
  qed
qed


lemma runTicks_progress:
  assumes "rs \<noteq> []" and "fs \<in> set (fileStates (runTicks n 0 rs st))" and "fname (fs_file fs) = n"
  shows "fs_progress fs = \<lfloor>foldl tick 0 rs\<rfloor>"
proof -
  let ?F = "\<lambda>fs. if fname (fs_file fs) = n
           then applyUpdate (noUpdate\<lparr>u_progress := Some \<lfloor>foldl tick 0 rs\<rfloor>\<rparr>) fs else fs"
  from assms(1,2) have "fs \<in> ?F ` set (fileStates st)"
    by (simp add: runTicks_fileStates)
  then obtain fs0 where
    "fs = (if fname (fs_file fs0) = n
           then applyUpdate (noUpdate\<lparr>u_progress := Some \<lfloor>foldl tick 0 rs\<rfloor>\<rparr>) fs0 else fs0)"
    by blast
  with assms(3) show ?thesis
    by (cases "fname (fs_file fs0) = n") (simp_all add: applyUpdate_def noUpdate_def)
qed

lemma uploadToCloudFlow_configured:
  "uploadToCloudFlow cfg en files st = Inr x \<Longrightarrow> isCloudFlowConfigured cfg"
  by (cases "isCloudFlowConfigured cfg") (simp_all add: uploadToCloudFlow_def)

text \<open>The two branches of \<^verbatim>\<open>uploadToCloudFlow\<close>, unfolded.\<close>

lemma uploadToCloudFlow_multi:
  assumes "isCloudFlowConfigured cfg" and "buttonAllowMultipleFiles cfg"
  shows "uploadToCloudFlow cfg en files st =
            Inr (fst (uploadEach cfg en files [] (markUploading files st)),
                 applyResults (fst (uploadEach cfg en files [] (markUploading files st)))
                   (snd (uploadEach cfg en files [] (markUploading files st))))"
  using assms by (simp add: uploadToCloudFlow_def Let_def case_prod_beta)

lemma uploadToCloudFlow_single:
  assumes "isCloudFlowConfigured cfg" and "\<not> buttonAllowMultipleFiles cfg"
  shows "uploadToCloudFlow cfg en (f # rest) st =
     Inr ([snd (attemptUpload cfg en f)],
          updateFileState (fname f)
            (if ur_success (snd (attemptUpload cfg en f))
             then noUpdate\<lparr>u_status := Some Completed,
                           u_url := Some (Some (ur_url (snd (attemptUpload cfg en f)))),
                           u_progress := Some 100\<rparr>
             else noUpdate\<lparr>u_status := Some Failed,
                           u_error := Some (map_option Message (ur_error (snd (attemptUpload cfg en f)))),
                           u_progress := Some 0\<rparr>)
            ((if ur_success (snd (attemptUpload cfg en f))
              then updateFileState (fname f) (noUpdate\<lparr>u_progress := Some 100\<rparr>)
              else (\<lambda>s. s))
               (simulateProgress en f (markUploading (f # rest) st)
                  \<lparr>requests := requests (simulateProgress en f (markUploading (f # rest) st)) @
                                fst (attemptUpload cfg en f)\<rparr>)))"
  using assms by (simp add: uploadToCloudFlow_def Let_def case_prod_beta)

section \<open>Entries that an upload does not touch\<close>

lemma updateFileState_others:
  "fs \<in> set (fileStates (updateFileState n u st)) \<Longrightarrow> fname (fs_file fs) \<noteq> n \<Longrightarrow>
   fs \<in> set (fileStates st)"
  by (auto simp: updateFileState_def split: if_splits)

lemma runTicks_others:
  "fs \<in> set (fileStates (runTicks n p rs st)) \<Longrightarrow> fname (fs_file fs) \<noteq> n \<Longrightarrow>
   fs \<in> set (fileStates st)"
  by (auto simp: runTicks_fileStates split: if_splits)

lemma markUploading_marked:
  assumes "fs \<in> set (fileStates (markUploading files st))"
    and "fname (fs_file fs) \<in> fname ` set files"
  shows "fs_status fs = Uploading \<and> fs_progress fs = 0"
proof -
  let ?u = "noUpdate\<lparr>u_status := Some Uploading, u_progress := Some 0\<rparr>"
  let ?F = "\<lambda>fs. if fname (fs_file fs) \<in> fname ` set files then applyUpdate ?u fs else fs"
  have "fileStates (markUploading files st) = map ?F (fileStates st)"
    unfolding markUploading_def by (rule foldl_update_fileStates)
  with assms(1) have "fs \<in> ?F ` set (fileStates st)" by simp
  then obtain fs0 where fs: "fs = ?F fs0" by blast
  show ?thesis
  proof (cases "fname (fs_file fs0) \<in> fname ` set files")
    case True
    with fs show ?thesis by (simp add: applyUpdate_def noUpdate_def)
  next
    case False
    with fs assms(2) show ?thesis by simp
  qed
qed

lemma attemptUpload_requests:
  "length (fst (attemptUpload cfg en f)) \<le> 1 \<and>
   (\<forall>rq \<in> set (fst (attemptUpload cfg en f)). \<exists>d. rq = uploadRequest cfg f d)"
  by (auto simp: attemptUpload_def Let_def
      split: read_outcome.splits fetch_outcome.splits body.splits)


text \<open>An entry under the name that \<^verbatim>\<open>updateFileState\<close> is given carries the update.\<close>

lemma updateFileState_named:
  "fs \<in> set (fileStates (updateFileState n u st)) \<Longrightarrow> fname (fs_file fs) = n \<Longrightarrow>
   \<exists>fs0. fs = applyUpdate u fs0"
  by (auto simp: updateFileState_def split: if_splits)

section \<open>What one upload reads and sends\<close>

lemma attemptUpload_read:
  assumes "readOutcome en f = ReadOk d" and "d \<noteq> []"
  shows "fst (attemptUpload cfg en f) =
     [\<lparr>rq_url = orEmpty (cloudFlowUploadUrl cfg), rq_authorization = None,
       rq_payload = UploadPayload (fname f) (base64Part d) (orEmpty (containerPath cfg))
                      (getCombinedFolderPath cfg) (fsize f)
                      (if ftype f = [] then ''application/octet-stream'' else ftype f),
       rq_signal = None\<rparr>]"
  using assms
  by (simp add: attemptUpload_def uploadRequest_def Let_def
      split: fetch_outcome.splits body.splits)

lemma attemptUpload_unread:
  assumes "(\<exists>m. readOutcome en f = ReadError m) \<or> readOutcome en f = ReadOk []"
  shows "fst (attemptUpload cfg en f) = []" and "\<not> ur_success (snd (attemptUpload cfg en f))"
  using assms by (auto simp: attemptUpload_def failedUpload_def)

lemma attemptUpload_success:
  assumes "readOutcome en f = ReadOk d" and "d \<noteq> []" and "uploadOutcome en f = Replied r"
    and "rs_ok r" and "rs_body r = Parsed b" and "ub_success b"
  shows "snd (attemptUpload cfg en f) =
     \<lparr>ur_fileName = fname f, ur_url = orEmpty (ub_url b), ur_success = True, ur_error = None,
      ur_flowRunId = ub_flowRunId b\<rparr>"
  using assms by (simp add: attemptUpload_def Let_def)

lemma attemptUpload_refused:
  assumes "uploadOutcome en f = Replied r" and "\<not> rs_ok r"
  shows "\<not> ur_success (snd (attemptUpload cfg en f))"
  using assms
  by (simp add: attemptUpload_def failedUpload_def Let_def split: read_outcome.splits)
section \<open>The remote branch of processFiles\<close>

lemma processFilesAsJSON_names:
  "processFilesAsJSON en files = Inr batch \<Longrightarrow> map jf_name batch = map fname files"
proof (induction files arbitrary: batch)
  case Nil
  then show ?case by simp
next
  case (Cons f fs)
  then show ?case
    by (auto split: read_outcome.splits sum.splits)
qed

lemma uploadToCloudFlow_Inr:
  assumes "isCloudFlowConfigured cfg" and "files \<noteq> []"
  shows "\<exists>results st1. uploadToCloudFlow cfg en files st = Inr (results, st1) \<and>
           results \<noteq> [] \<and> set (map ur_fileName results) \<subseteq> fname ` set files \<and>
           (buttonAllowMultipleFiles cfg \<longrightarrow> map ur_fileName results = map fname files)"
proof (cases "buttonAllowMultipleFiles cfg")
  case True
  let ?R = "fst (uploadEach cfg en files [] (markUploading files st))"
  have n: "map ur_fileName ?R = map fname files"
    by (simp add: uploadEach_results comp_def)
  then have "length ?R = length files" by (metis length_map)
  with assms(2) have ne: "?R \<noteq> []" by auto
  from n have "set (map ur_fileName ?R) \<subseteq> fname ` set files" by simp
  with uploadToCloudFlow_multi [OF assms(1) True, of en files st] n ne show ?thesis by blast
next
  case False
  from assms(2) obtain f rest where fl: "files = f # rest" by (cases files) auto
  from uploadToCloudFlow_single [OF assms(1) False, of en f rest st] fl False
  show ?thesis by simp
qed

lemma processFiles_remote:
  assumes "isCloudFlowConfigured cfg" and "files \<noteq> []"
    and "uploadToCloudFlow cfg en files (emit (noEvent\<lparr>ev_uploadStatus := Some InProgress\<rparr>) st) =
           Inr (results, st1)"
  shows "processFiles cfg en files st =
     emit (noEvent\<lparr>ev_uploadResults := Some results,
                   ev_uploadStatus :=
                     Some (if list_ex (\<lambda>res. \<not> ur_success res) results
                           then StatusFailed else StatusCompleted),
                   ev_filesJSON := Some (ResultsJSON (map toEntry results))\<rparr>)
       (if list_ex ur_success results then
          loadExistingFiles cfg en st1
            \<lparr>fileStates :=
               filter (\<lambda>fs. fname (fs_file fs) \<notin> set (map ur_fileName (filter ur_success results)))
                 (fileStates (loadExistingFiles cfg en st1)),
             selectedFiles :=
               filter (\<lambda>f. fname f \<notin> set (map ur_fileName (filter ur_success results)))
                 (selectedFiles (loadExistingFiles cfg en st1))\<rparr>
        else st1)"
  using assms by (simp add: processFiles_def Let_def)

section \<open>The size check and the loop of addFilesToState\<close>

lemma foldl_sizes: "foldl (\<lambda>sum g. sum + fsize g) a xs = a + sum_list (map fsize xs)"
  by (induction xs arbitrary: a) simp_all

lemma foldl_state_sizes:
  "foldl (\<lambda>total fs. total + fsize (fs_file fs)) a xs = a + sum_list (map (\<lambda>fs. fsize (fs_file fs)) xs)"
  by (induction xs arbitrary: a) simp_all

lemma getCurrentTotalFileSize_sum:
  "getCurrentTotalFileSize st =
     sum_list (map (\<lambda>fs. fsize (fs_file fs))
                 (filter (\<lambda>fs. fs_isValid fs \<and> fs_status fs \<noteq> Failed) (fileStates st)))"
  by (simp add: getCurrentTotalFileSize_def foldl_state_sizes)

text \<open>The size check, for a candidate that passes the type check.\<close>

lemma validateFileType_size:
  assumes "0 < maxTotalFileSizeMB cfg" and "\<not> typeRejected cfg f"
  shows "v_isValid (validateFileType cfg st f batch) \<longleftrightarrow>
           int (getCurrentTotalFileSize st + sum_list (map fsize batch) + fsize f) \<le>
             maxTotalFileSizeMB cfg * 1024 * 1024"
  using assms
  by (simp add: validateFileType_def Let_def foldl_sizes getCurrentTotalFileSize_sum comp_def
      accepted_def rejected_def)

lemma validateFileType_type:
  "typeRejected cfg f \<Longrightarrow> \<not> v_isValid (validateFileType cfg st f batch)"
  by (simp add: validateFileType_def rejected_def)

lemma validateFileType_accepts:
  assumes "0 < maxTotalFileSizeMB cfg" and "v_isValid (validateFileType cfg st f batch)"
  shows "int (getCurrentTotalFileSize st + sum_list (map fsize batch) + fsize f) \<le>
             maxTotalFileSizeMB cfg * 1024 * 1024"
  using assms validateFileType_type [of cfg f st batch] validateFileType_size [of cfg f st batch]
  by blast

text \<open>
  The invariant of the loop of \<^verbatim>\<open>addFilesToState\<close>: valid new entries are pending,
  and once one of them is valid, the pending sizes and the sizes of the valid new entries
  are within the limit.
\<close>

lemma addLoop_invariant:
  assumes "0 < maxTotalFileSizeMB cfg"
    and "\<forall>fs \<in> set acc. fs_isValid fs \<longrightarrow> fs_status fs = Pending"
    and "(\<exists>fs \<in> set acc. fs_isValid fs) \<longrightarrow>
           int (getCurrentTotalFileSize st +
                sum_list (map (\<lambda>fs. fsize (fs_file fs)) (filter fs_isValid acc))) \<le>
             maxTotalFileSizeMB cfg * 1024 * 1024"
  shows "(\<forall>fs \<in> set (addLoop cfg st acc files). fs_isValid fs \<longrightarrow> fs_status fs = Pending) \<and>
         ((\<exists>fs \<in> set (addLoop cfg st acc files). fs_isValid fs) \<longrightarrow>
           int (getCurrentTotalFileSize st +
                sum_list (map (\<lambda>fs. fsize (fs_file fs))
                            (filter fs_isValid (addLoop cfg st acc files)))) \<le>
             maxTotalFileSizeMB cfg * 1024 * 1024)"
  using assms(2,3)
proof (induction files arbitrary: acc)
  case Nil
  then show ?case by simp
next
  case (Cons f fs)
  let ?batch = "map fs_file (filter fs_isValid acc)"
  let ?v = "validateFileType cfg st f ?batch"
  let ?e = "\<lparr>fs_file = f, fs_progress = 0,
             fs_status = (if v_isValid ?v then Pending else Invalid), fs_url = None,
             fs_error = map_option Rejection (v_error ?v), fs_isValid = v_isValid ?v\<rparr>"
  have step: "addLoop cfg st acc (f # fs) = addLoop cfg st (acc @ [?e]) fs"
    by (simp add: Let_def)
  have a: "\<forall>x \<in> set (acc @ [?e]). fs_isValid x \<longrightarrow> fs_status x = Pending"
    using Cons.prems(1) by auto
  have b: "(\<exists>x \<in> set (acc @ [?e]). fs_isValid x) \<longrightarrow>
           int (getCurrentTotalFileSize st +
                sum_list (map (\<lambda>fs. fsize (fs_file fs)) (filter fs_isValid (acc @ [?e])))) \<le>
             maxTotalFileSizeMB cfg * 1024 * 1024"
  proof (cases "v_isValid ?v")
    case True
    from validateFileType_accepts [OF assms(1) True]
    show ?thesis using True by (simp add: comp_def)
  next
    case False
    then show ?thesis using Cons.prems(2) by auto
  qed
  from Cons.IH [OF a b] show ?case unfolding step .
qed


text \<open>The loop run on a list in two parts, and what it adds to its accumulator.\<close>

lemma addLoop_append:
  "addLoop cfg st acc (xs @ ys) = addLoop cfg st (addLoop cfg st acc xs) ys"
  by (induction xs arbitrary: acc) (simp_all add: Let_def)

lemma addLoop_acc:
  "\<exists>new. addLoop cfg st acc xs = acc @ new \<and> map fs_file new = xs"
proof (induction xs arbitrary: acc)
  case Nil
  then show ?case by simp
next
  case (Cons f fs)
  let ?v = "validateFileType cfg st f (map fs_file (filter fs_isValid acc))"
  let ?e = "\<lparr>fs_file = f, fs_progress = 0,
             fs_status = (if v_isValid ?v then Pending else Invalid), fs_url = None,
             fs_error = map_option Rejection (v_error ?v), fs_isValid = v_isValid ?v\<rparr>"
  have step: "addLoop cfg st acc (f # fs) = addLoop cfg st (acc @ [?e]) fs"
    by (simp add: Let_def)
  from Cons.IH [of "acc @ [?e]"] obtain new
    where n: "addLoop cfg st (acc @ [?e]) fs = (acc @ [?e]) @ new" and m: "map fs_file new = fs"
    by blast
  from n m have "addLoop cfg st acc (f # fs) = acc @ (?e # new) \<and> map fs_file (?e # new) = f # fs"
    unfolding step by simp
  then show ?case by (rule exI [of _ "?e # new"])
qed

lemma addLoop_files: "map fs_file (addLoop cfg st [] files) = files"
  using addLoop_acc [of cfg st "[]" files] by auto

lemma addLoop_length: "length (addLoop cfg st [] files) = length files"
  using addLoop_files [of cfg st files] by (metis length_map)

lemma addLoop_take: "take k (addLoop cfg st [] files) = addLoop cfg st [] (take k files)"
proof (cases "k \<le> length files")
  case True
  let ?r = "addLoop cfg st [] (take k files)"
  have "addLoop cfg st [] (take k files @ drop k files) = addLoop cfg st ?r (drop k files)"
    by (rule addLoop_append)
  then have "addLoop cfg st [] files = addLoop cfg st ?r (drop k files)" by simp
  moreover obtain new where "addLoop cfg st ?r (drop k files) = ?r @ new"
    using addLoop_acc [of cfg st ?r "drop k files"] by blast
  ultimately have a: "addLoop cfg st [] files = ?r @ new" by (rule trans)
  from True have l: "length ?r = k" by (simp add: addLoop_length)
  have "take k (?r @ new) = ?r" using l by simp
  then show ?thesis by (simp only: a [symmetric])
next
  case False
  then have "take k files = files" by simp
  moreover from False have "take k (addLoop cfg st [] files) = addLoop cfg st [] files"
    by (simp add: addLoop_length)
  ultimately show ?thesis by simp
qed

text \<open>
  The entry of the \<open>i\<close>-th file: it is validated against the files of the entries
  before it that are valid.
\<close>

lemma addLoop_nth:
  assumes "i < length files"
  shows "addLoop cfg st [] files ! i =
     (let earlier = map fs_file (filter fs_isValid (take i (addLoop cfg st [] files)));
          v = validateFileType cfg st (files ! i) earlier
      in \<lparr>fs_file = files ! i, fs_progress = 0,
           fs_status = (if v_isValid v then Pending else Invalid), fs_url = None,
           fs_error = map_option Rejection (v_error v), fs_isValid = v_isValid v\<rparr>)"
proof -
  let ?r = "addLoop cfg st [] (take i files)"
  let ?v = "validateFileType cfg st (files ! i) (map fs_file (filter fs_isValid ?r))"
  let ?e = "\<lparr>fs_file = files ! i, fs_progress = 0,
             fs_status = (if v_isValid ?v then Pending else Invalid), fs_url = None,
             fs_error = map_option Rejection (v_error ?v), fs_isValid = v_isValid ?v\<rparr>"
  from assms have s: "take (Suc i) files = take i files @ [files ! i]"
    by (rule take_Suc_conv_app_nth)
  have "addLoop cfg st [] (take (Suc i) files) = addLoop cfg st ?r [files ! i]"
    unfolding s by (rule addLoop_append)
  also have "\<dots> = ?r @ [?e]" by (simp add: Let_def)
  finally have t: "take (Suc i) (addLoop cfg st [] files) = ?r @ [?e]"
    by (simp only: addLoop_take)
  have l: "length ?r = i" using assms by (simp add: addLoop_length)
  have "addLoop cfg st [] files ! i = take (Suc i) (addLoop cfg st [] files) ! i" by simp
  also have "\<dots> = ?e" unfolding t using l by (simp add: nth_append)
  finally show ?thesis by (simp only: addLoop_take Let_def)
qed

text \<open>
  The total of the state after the loop: the total before, and the sizes of the new
  entries that are valid.
\<close>

lemma addLoop_valid_pending:
  "fs \<in> set (addLoop cfg st [] files) \<Longrightarrow>
     fs_status fs = (if fs_isValid fs then Pending else Invalid)"
proof -
  assume "fs \<in> set (addLoop cfg st [] files)"
  then obtain i where i: "i < length (addLoop cfg st [] files)" and e: "addLoop cfg st [] files ! i = fs"
    by (auto simp: in_set_conv_nth)
  from i have "i < length files" by (simp add: addLoop_length)
  from addLoop_nth [OF this, of cfg st] e show ?thesis by (auto simp: Let_def)
qed

lemma getCurrentTotalFileSize_added:
  "getCurrentTotalFileSize (addFilesToState cfg files st) =
     getCurrentTotalFileSize st +
     sum_list (map fsize (map fs_file (filter fs_isValid (addLoop cfg st [] files))))"
proof -
  let ?new = "addLoop cfg st [] files"
  have "filter (\<lambda>fs. fs_isValid fs \<and> fs_status fs \<noteq> Failed) ?new = filter fs_isValid ?new"
    using addLoop_valid_pending [of _ cfg st files] by (intro filter_cong) auto
  then show ?thesis
    by (simp add: getCurrentTotalFileSize_sum addFilesToState_def comp_def)
qed
section \<open>Splitting, trimming and lower case\<close>

lemma toLowerChar_code:
  "(of_char (toLowerChar c) :: nat) =
     (if isUpperCode (of_char c) then of_char c + 32 else of_char c)"
proof (cases "isUpperCode (of_char c)")
  case True
  then have "(of_char c :: nat) + 32 < 256" by (auto simp: isUpperCode_def)
  with True show ?thesis by (simp add: toLowerChar_def)
next
  case False
  then show ?thesis by (simp add: toLowerChar_def)
qed

lemma toLowerChar_idem [simp]: "toLowerChar (toLowerChar c) = toLowerChar c"
proof -
  have "\<not> isUpperCode (of_char (toLowerChar c))"
    unfolding toLowerChar_code by (auto simp: isUpperCode_def)
  then show ?thesis by (simp add: toLowerChar_def [of "toLowerChar c"])
qed

text \<open>A character that is no letter is the lower case of itself only.\<close>

lemma toLowerChar_other:
  assumes "\<not> isUpperCode (of_char x)"
    and "\<not> isUpperCode (of_char x - 32) \<or> (of_char x :: nat) < 32"
  shows "toLowerChar c = x \<longleftrightarrow> c = x"
proof
  assume "c = x"
  with assms(1) show "toLowerChar c = x" by (simp add: toLowerChar_def)
next
  assume h: "toLowerChar c = x"
  then have "(of_char (toLowerChar c) :: nat) = of_char x" by simp
  then have e: "(if isUpperCode (of_char c) then of_char c + 32 else of_char c) = (of_char x :: nat)"
    by (simp only: toLowerChar_code)
  show "c = x"
  proof (cases "isUpperCode (of_char c)")
    case True
    with e have "(of_char x :: nat) = of_char c + 32" by simp
    with True assms(2) show ?thesis by auto
  next
    case False
    with h show ?thesis by (simp add: toLowerChar_def)
  qed
qed

lemma toLowerChar_semicolon: "toLowerChar c = CHR '';'' \<longleftrightarrow> c = CHR '';''"
  by (rule toLowerChar_other) (simp_all add: isUpperCode_def)

lemma toLowerChar_comma: "toLowerChar c = CHR '','' \<longleftrightarrow> c = CHR '',''"
  by (rule toLowerChar_other) (simp_all add: isUpperCode_def)

lemma toLowerChar_isSep [simp]: "isSep (toLowerChar c) = isSep c"
  by (simp add: isSep_def toLowerChar_semicolon toLowerChar_comma)

lemma toLowerChar_spaces:
  "toLowerChar c = CHR 0x09 \<longleftrightarrow> c = CHR 0x09"
  "toLowerChar c = CHR 0x0A \<longleftrightarrow> c = CHR 0x0A"
  "toLowerChar c = CHR 0x0B \<longleftrightarrow> c = CHR 0x0B"
  "toLowerChar c = CHR 0x0C \<longleftrightarrow> c = CHR 0x0C"
  "toLowerChar c = CHR 0x0D \<longleftrightarrow> c = CHR 0x0D"
  "toLowerChar c = CHR 0x20 \<longleftrightarrow> c = CHR 0x20"
  "toLowerChar c = CHR 0xA0 \<longleftrightarrow> c = CHR 0xA0"
  by (rule toLowerChar_other, simp add: isUpperCode_def, simp add: isUpperCode_def)+

lemma toLowerChar_isSpace [simp]: "isSpace (toLowerChar c) = isSpace c"
  by (simp add: isSpace_def toLowerChar_spaces)

lemma toLowerChar_slash [simp]: "toLowerChar c = CHR ''/'' \<longleftrightarrow> c = CHR ''/''"
  by (rule toLowerChar_other) (simp_all add: isUpperCode_def)

lemma toLowerChar_dot [simp]: "toLowerChar c = CHR ''.'' \<longleftrightarrow> c = CHR ''.''"
  by (rule toLowerChar_other) (simp_all add: isUpperCode_def)

lemma toLowerChar_star [simp]: "toLowerChar c = CHR ''*'' \<longleftrightarrow> c = CHR ''*''"
  by (rule toLowerChar_other) (simp_all add: isUpperCode_def)

lemma toLowerCase_idem [simp]: "toLowerCase (toLowerCase s) = toLowerCase s"
  by (simp add: toLowerCase_def)

lemma splitOn_nonempty [simp]: "splitOn P s \<noteq> []"
  by (induction s) (auto split: list.splits)

lemma splitOn_none: "\<forall>c \<in> set p. \<not> P c \<Longrightarrow> splitOn P p = [p]"
  by (induction p) auto

lemma splitOn_append:
  "splitOn P (xs @ ys) =
     butlast (splitOn P xs) @ [last (splitOn P xs) @ hd (splitOn P ys)] @ tl (splitOn P ys)"
proof (induction xs)
  case Nil
  then show ?case by (cases "splitOn P ys") auto
next
  case (Cons x xs)
  show ?case
  proof (cases "P x")
    case True
    with Cons show ?thesis by simp
  next
    case False
    obtain w ws where s: "splitOn P xs = w # ws" by (cases "splitOn P xs") auto
    obtain v vs where t: "splitOn P (xs @ ys) = v # vs" by (cases "splitOn P (xs @ ys)") auto
    from Cons s t False show ?thesis by (cases ws) auto
  qed
qed

lemma splitOn_toLower:
  "splitOn isSep (toLowerCase s) = map toLowerCase (splitOn isSep s)"
proof (induction s)
  case Nil
  then show ?case by (simp add: toLowerCase_def)
next
  case (Cons c cs)
  obtain w ws where s: "splitOn isSep cs = w # ws" by (cases "splitOn isSep cs") auto
  with Cons show ?case by (simp add: toLowerCase_def)
qed

lemma dropWhile_toLower:
  "dropWhile isSpace (toLowerCase s) = toLowerCase (dropWhile isSpace s)"
  by (induction s) (simp_all add: toLowerCase_def)

lemma trim_toLower: "trim (toLowerCase s) = toLowerCase (trim s)"
proof -
  have r: "rev (toLowerCase xs) = toLowerCase (rev xs)" for xs
    by (simp add: toLowerCase_def rev_map)
  show ?thesis
    by (simp add: trim_def dropWhile_toLower r)
qed

lemma parseAllowedTypes_toLower: "parseAllowedTypes (toLowerCase s) = parseAllowedTypes s"
  by (simp add: parseAllowedTypes_def splitOn_toLower trim_toLower comp_def)

lemma set_dropWhile_space: "set s \<subseteq> set (dropWhile isSpace s) \<union> Collect isSpace"
proof -
  have "set s = set (takeWhile isSpace s @ dropWhile isSpace s)" by simp
  also have "\<dots> = set (takeWhile isSpace s) \<union> set (dropWhile isSpace s)" by (rule set_append)
  finally show ?thesis by (auto dest: set_takeWhileD)
qed

lemma set_trim: "set s \<subseteq> set (trim s) \<union> Collect isSpace"
proof -
  let ?d = "dropWhile isSpace s"
  have "set s \<subseteq> set ?d \<union> Collect isSpace" by (rule set_dropWhile_space)
  moreover have "set ?d = set (rev ?d)" by simp
  moreover have "set (rev ?d) \<subseteq> set (dropWhile isSpace (rev ?d)) \<union> Collect isSpace"
    by (rule set_dropWhile_space)
  moreover have "set (trim s) = set (dropWhile isSpace (rev ?d))" by (simp add: trim_def)
  ultimately show ?thesis by blast
qed

lemma sep_not_space: "isSep c \<Longrightarrow> \<not> isSpace c"
  by (auto simp: isSep_def isSpace_def)

text \<open>
  The first test of the type check adds nothing: a string that trims to nothing or to the
  wildcard yields no pattern.
\<close>

lemma parseAllowedTypes_unrestricted:
  assumes "allowed = [] \<or> trim allowed = [] \<or> trim allowed = ''*''"
  shows "parseAllowedTypes allowed = []"
proof -
  from assms have t: "trim allowed = [] \<or> trim allowed = ''*''" by (auto simp: trim_def)
  have "\<forall>c \<in> set allowed. \<not> isSep c"
  proof
    fix c assume c: "c \<in> set allowed"
    show "\<not> isSep c"
    proof
      assume s: "isSep c"
      then have "\<not> isSpace c" by (rule sep_not_space)
      with c set_trim [of allowed] have "c \<in> set (trim allowed)" by auto
      with t have "c = CHR ''*''" by auto
      with s show False by (simp add: isSep_def)
    qed
  qed
  then have "splitOn isSep allowed = [allowed]" by (rule splitOn_none)
  with t show ?thesis by (auto simp: parseAllowedTypes_def toLowerCase_def)
qed

lemma typeRejected_iff:
  "typeRejected cfg f \<longleftrightarrow>
     parseAllowedTypes (allowedFileTypes cfg) \<noteq> [] \<and>
     \<not> list_ex (typeMatches (fileExtension (toLowerCase (fname f))) (toLowerCase (ftype f)))
          (parseAllowedTypes (allowedFileTypes cfg))"
  using parseAllowedTypes_unrestricted [of "allowedFileTypes cfg"]
  by (auto simp: typeRejected_def Let_def)

lemma validateFileType_cong:
  assumes "typeRejected cfg f = typeRejected cfg' f"
    and "maxTotalFileSizeMB cfg = maxTotalFileSizeMB cfg'"
  shows "v_isValid (validateFileType cfg st f batch) = v_isValid (validateFileType cfg' st f batch)"
  using assms by (simp add: validateFileType_def Let_def rejected_def accepted_def)

lemma typeRejected_allowed_cong:
  assumes "parseAllowedTypes a = parseAllowedTypes b"
  shows "typeRejected (cfg\<lparr>allowedFileTypes := a\<rparr>) f = typeRejected (cfg\<lparr>allowedFileTypes := b\<rparr>) f"
  using assms by (simp add: typeRejected_iff)

lemma splitOn_swap:
  assumes "\<And>c. isSep (g c) = isSep c" and "\<And>c. \<not> isSep c \<Longrightarrow> g c = c"
  shows "splitOn isSep (map g s) = splitOn isSep s"
proof (induction s)
  case Nil
  then show ?case by simp
next
  case (Cons c cs)
  then show ?case using assms by (cases "isSep c") auto
qed

lemma parseAllowedTypes_swap:
  assumes "\<And>c. isSep (g c) = isSep c" and "\<And>c. \<not> isSep c \<Longrightarrow> g c = c"
  shows "parseAllowedTypes (map g s) = parseAllowedTypes s"
  by (simp add: parseAllowedTypes_def splitOn_swap [of g, OF assms])

lemma toLowerChar_sym [simp]:
  "CHR ''/'' = toLowerChar c \<longleftrightarrow> c = CHR ''/''"
  "CHR ''.'' = toLowerChar c \<longleftrightarrow> c = CHR ''.''"
  "CHR ''*'' = toLowerChar c \<longleftrightarrow> c = CHR ''*''"
  by (metis toLowerChar_slash, metis toLowerChar_dot, metis toLowerChar_star)

lemma trim_padded:
  assumes "list_all isSpace w1" and "list_all isSpace w2"
    and "p \<noteq> []" and "\<not> isSpace (hd p)" and "\<not> isSpace (last p)"
  shows "trim (w1 @ p @ w2) = p"
proof -
  from assms(1) have a: "\<forall>c \<in> set w1. isSpace c" by (simp add: list_all_iff)
  from assms(2) have b: "\<forall>c \<in> set (rev w2). isSpace c" by (simp add: list_all_iff)
  from assms(3) obtain x xs where p: "p = x # xs" by (cases p) auto
  from assms(3) obtain y ys where r: "rev p = y # ys" by (cases "rev p") auto
  with assms(3,5) have y: "\<not> isSpace y" by (metis hd_rev list.sel(1))
  from p assms(4) have x: "\<not> isSpace x" by simp
  have "dropWhile isSpace (w1 @ p @ w2) = p @ w2"
    using a p x by (simp add: dropWhile_append3)
  moreover have "dropWhile isSpace (rev (p @ w2)) = rev p"
    using b r y by (simp add: dropWhile_append3)
  ultimately show ?thesis by (simp add: trim_def)
qed

lemma extensionPattern_parts:
  assumes "extensionPattern p"
  shows "p \<noteq> []" "\<not> isSpace (hd p)" "\<not> isSpace (last p)" "hd p \<noteq> CHR ''.''"
    "\<forall>c \<in> set p. \<not> isSep c" "CHR ''/'' \<notin> set p" "p \<noteq> ''*''"
  using assms by (auto simp: extensionPattern_def)

text \<open>An extension pattern is compared with the extension with or without its dot.\<close>

lemma typeMatches_dot:
  assumes "extensionPattern p"
  shows "typeMatches e t (toLowerCase (CHR ''.'' # p)) = typeMatches e t (toLowerCase p)"
    and "typeMatches e t (toLowerCase p) \<longleftrightarrow> e = CHR ''.'' # toLowerCase p"
proof -
  note x = extensionPattern_parts [OF assms]
  from x(1) obtain c cs where p: "p = c # cs" by (cases p) auto
  with x(4) have c: "c \<noteq> CHR ''.''" by simp
  have s: "CHR ''/'' \<notin> set (toLowerCase p)"
  proof
    assume "CHR ''/'' \<in> set (toLowerCase p)"
    then have "CHR ''/'' \<in> toLowerChar ` set p" by (simp add: toLowerCase_def)
    then obtain k where k: "k \<in> set p" "CHR ''/'' = toLowerChar k" by blast
    from k(2) toLowerChar_slash [of k] have "k = CHR ''/''" by auto
    with k(1) x(6) show False by simp
  qed
  have d: "toLowerCase (CHR ''.'' # p) = CHR ''.'' # toLowerCase p"
    by (simp add: toLowerCase_def)
  from s have s': "CHR ''/'' \<notin> set (toLowerCase (CHR ''.'' # p))"
    unfolding d by simp
  have np: "\<not> prefix ''.'' (toLowerCase p)"
    using p c by (simp add: toLowerCase_def)
  have pp: "prefix ''.'' (toLowerCase (CHR ''.'' # p))"
    unfolding d by simp
  from s np show m: "typeMatches e t (toLowerCase p) \<longleftrightarrow> e = CHR ''.'' # toLowerCase p"
    by (simp add: typeMatches_def)
  from s' pp have "typeMatches e t (toLowerCase (CHR ''.'' # p)) \<longleftrightarrow>
                   e = toLowerCase (CHR ''.'' # p)"
    by (simp add: typeMatches_def)
  with m d show "typeMatches e t (toLowerCase (CHR ''.'' # p)) = typeMatches e t (toLowerCase p)"
    by simp
qed

lemma toLowerCase_star: "toLowerCase q = ''*'' \<longleftrightarrow> q = ''*''"
  by (auto simp: toLowerCase_def map_eq_Cons_conv)

text \<open>
  The patterns of a string in which \<open>q\<close> stands between \<open>pre\<close> and \<open>post\<close>, with
  nothing but white space between it and the separators.
\<close>

lemma parseAllowedTypes_around:
  assumes "list_all isSpace (last (splitOn isSep pre))"
    and "list_all isSpace (hd (splitOn isSep post))"
    and "q \<noteq> []" and "\<not> isSpace (hd q)" and "\<not> isSpace (last q)"
    and "\<forall>c \<in> set q. \<not> isSep c" and "q \<noteq> ''*''"
  shows "parseAllowedTypes (pre @ q @ post) =
           filter (\<lambda>t. t \<noteq> [] \<and> t \<noteq> ''*'')
             (map (\<lambda>t. toLowerCase (trim t)) (butlast (splitOn isSep pre))) @
           [toLowerCase q] @
           filter (\<lambda>t. t \<noteq> [] \<and> t \<noteq> ''*'')
             (map (\<lambda>t. toLowerCase (trim t)) (tl (splitOn isSep post)))"
proof -
  let ?w1 = "last (splitOn isSep pre)" and ?w2 = "hd (splitOn isSep post)"
  have q1: "splitOn isSep q = [q]" using assms(6) by (rule splitOn_none)
  have "splitOn isSep (q @ post) = [q @ ?w2] @ tl (splitOn isSep post)"
    by (simp add: splitOn_append [of isSep q post] q1)
  then have "splitOn isSep (pre @ q @ post) =
        butlast (splitOn isSep pre) @ [?w1 @ q @ ?w2] @ tl (splitOn isSep post)"
    by (simp add: splitOn_append [of isSep pre "q @ post"])
  moreover have "trim (?w1 @ q @ ?w2) = q"
    by (rule trim_padded [OF assms(1,2,3,4,5)])
  moreover have "toLowerCase q \<noteq> []" using assms(3) by (simp add: toLowerCase_def)
  moreover have "toLowerCase q \<noteq> ''*''" using assms(7) by (simp add: toLowerCase_star)
  ultimately show ?thesis by (simp add: parseAllowedTypes_def)
qed

lemma typeRejected_dot:
  assumes "list_all isSpace (last (splitOn isSep pre))"
    and "list_all isSpace (hd (splitOn isSep post))"
    and "extensionPattern p"
  shows "typeRejected (cfg\<lparr>allowedFileTypes := pre @ CHR ''.'' # p @ post\<rparr>) f =
         typeRejected (cfg\<lparr>allowedFileTypes := pre @ p @ post\<rparr>) f"
proof -
  note x = extensionPattern_parts [OF assms(3)]
  have a: "parseAllowedTypes (pre @ p @ post) =
           filter (\<lambda>t. t \<noteq> [] \<and> t \<noteq> ''*'')
             (map (\<lambda>t. toLowerCase (trim t)) (butlast (splitOn isSep pre))) @
           [toLowerCase p] @
           filter (\<lambda>t. t \<noteq> [] \<and> t \<noteq> ''*'')
             (map (\<lambda>t. toLowerCase (trim t)) (tl (splitOn isSep post)))"
    by (rule parseAllowedTypes_around [OF assms(1,2) x(1,2,3,5,7)])
  have l: "last (CHR ''.'' # p) = last p" using x(1) by simp
  have b: "parseAllowedTypes (pre @ (CHR ''.'' # p) @ post) =
           filter (\<lambda>t. t \<noteq> [] \<and> t \<noteq> ''*'')
             (map (\<lambda>t. toLowerCase (trim t)) (butlast (splitOn isSep pre))) @
           [toLowerCase (CHR ''.'' # p)] @
           filter (\<lambda>t. t \<noteq> [] \<and> t \<noteq> ''*'')
             (map (\<lambda>t. toLowerCase (trim t)) (tl (splitOn isSep post)))"
  proof (rule parseAllowedTypes_around [OF assms(1,2)])
    show "CHR ''.'' # p \<noteq> []" by simp
    show "\<not> isSpace (hd (CHR ''.'' # p))" by (simp add: isSpace_def)
    show "\<not> isSpace (last (CHR ''.'' # p))" unfolding l by (rule x(3))
    show "\<forall>c \<in> set (CHR ''.'' # p). \<not> isSep c" using x(5) by (simp add: isSep_def)
    show "CHR ''.'' # p \<noteq> ''*''" by simp
  qed
  show ?thesis
    using typeMatches_dot(1) [OF assms(3)]
    by (simp add: typeRejected_iff a b [simplified])
qed

lemma parseAllowedTypes_single:
  assumes "extensionPattern p"
  shows "parseAllowedTypes p = [toLowerCase p]"
proof -
  note x = extensionPattern_parts [OF assms]
  have "parseAllowedTypes ([] @ p @ []) =
           filter (\<lambda>t. t \<noteq> [] \<and> t \<noteq> ''*'')
             (map (\<lambda>t. toLowerCase (trim t)) (butlast (splitOn isSep []))) @
           [toLowerCase p] @
           filter (\<lambda>t. t \<noteq> [] \<and> t \<noteq> ''*'')
             (map (\<lambda>t. toLowerCase (trim t)) (tl (splitOn isSep [])))"
    by (rule parseAllowedTypes_around [OF _ _ x(1,2,3,5,7)]) simp_all
  then show ?thesis by simp
qed

lemma extensionPattern_PDF: "extensionPattern ''PDF''"
  by (simp add: extensionPattern_def isSpace_def isSep_def)

lemma toLowerCase_PDF: "toLowerCase ''PDF'' = ''pdf''"
  by (simp add: toLowerCase_def toLowerChar_def isUpperCode_def char_of_eq_iff)

section \<open>The extension of a file name\<close>

lemma lastIndexOf_None: "lastIndexOf c xs = None \<longleftrightarrow> c \<notin> set xs"
  by (induction xs) (auto split: option.splits)

lemma lastIndexOf_last:
  "c \<notin> set x \<Longrightarrow> lastIndexOf c (base @ c # x) = Some (length base)"
proof (induction base)
  case Nil
  then have "lastIndexOf c x = None" by (simp add: lastIndexOf_None)
  then show ?case by simp
next
  case (Cons b base)
  then show ?case by simp
qed

lemma lastIndexOf_Some:
  "lastIndexOf c xs = Some i \<Longrightarrow> \<exists>base x. xs = base @ c # x \<and> c \<notin> set x \<and> i = length base"
proof (induction xs arbitrary: i)
  case Nil
  then show ?case by simp
next
  case (Cons y ys)
  show ?case
  proof (cases "lastIndexOf c ys")
    case None
    with Cons.prems have "y = c" "i = 0" by (auto split: if_splits)
    moreover from None have "c \<notin> set ys" by (simp add: lastIndexOf_None)
    ultimately have "y # ys = [] @ c # ys \<and> c \<notin> set ys \<and> i = length ([] :: string)" by simp
    then show ?thesis by blast
  next
    case (Some j)
    with Cons.prems have i: "i = Suc j" by simp
    from Cons.IH [OF Some] obtain base x where "ys = base @ c # x" "c \<notin> set x" "j = length base"
      by blast
    with i have "y # ys = (y # base) @ c # x \<and> c \<notin> set x \<and> i = length (y # base)" by simp
    then show ?thesis by blast
  qed
qed

text \<open>
  The extension is the dot and \<open>x\<close> exactly when the name ends with a dot and \<open>x\<close>, and
  \<open>x\<close> has no dot: the dot is the last one of the name.
\<close>

lemma fileExtension_last_dot:
  "fileExtension n = CHR ''.'' # x \<longleftrightarrow> CHR ''.'' \<notin> set x \<and> (\<exists>base. n = base @ CHR ''.'' # x)"
proof
  assume e: "fileExtension n = CHR ''.'' # x"
  show "CHR ''.'' \<notin> set x \<and> (\<exists>base. n = base @ CHR ''.'' # x)"
  proof (cases "lastIndexOf CHR ''.'' n")
    case None
    with e have "n = CHR ''.'' # x" by (simp add: fileExtension_def)
    moreover from None have "CHR ''.'' \<notin> set n" by (simp add: lastIndexOf_None)
    ultimately show ?thesis by simp
  next
    case (Some i)
    from lastIndexOf_Some [OF Some] obtain base y
      where n: "n = base @ CHR ''.'' # y" and y: "CHR ''.'' \<notin> set y" and i: "i = length base"
      by blast
    from e Some n i have "y = x" by (simp add: fileExtension_def)
    with n y show ?thesis by blast
  qed
next
  assume "CHR ''.'' \<notin> set x \<and> (\<exists>base. n = base @ CHR ''.'' # x)"
  then obtain base where x: "CHR ''.'' \<notin> set x" and n: "n = base @ CHR ''.'' # x" by blast
  from lastIndexOf_last [OF x, of base] show "fileExtension n = CHR ''.'' # x"
    unfolding n by (simp add: fileExtension_def)
qed

lemma toLowerCase_no_dot: "CHR ''.'' \<in> set (toLowerCase p) \<longleftrightarrow> CHR ''.'' \<in> set p"
proof
  assume "CHR ''.'' \<in> set (toLowerCase p)"
  then have "CHR ''.'' \<in> toLowerChar ` set p" by (simp add: toLowerCase_def)
  then obtain k where k: "k \<in> set p" "CHR ''.'' = toLowerChar k" by blast
  from k(2) toLowerChar_dot [of k] have "k = CHR ''.''" by auto
  with k(1) show "CHR ''.'' \<in> set p" by simp
next
  assume "CHR ''.'' \<in> set p"
  then have "toLowerChar CHR ''.'' \<in> toLowerChar ` set p" by (rule imageI)
  moreover have "toLowerChar CHR ''.'' = CHR ''.''" by simp
  ultimately show "CHR ''.'' \<in> set (toLowerCase p)" by (simp add: toLowerCase_def)
qed

text \<open>
  An extension pattern with nothing but white space around it accepts the files whose
  lower-case name ends with a dot and the lower-case pattern, the pattern having no dot.
\<close>

lemma typeRejected_extension:
  assumes "list_all isSpace w1" and "list_all isSpace w2" and "extensionPattern p"
  shows "\<not> typeRejected (cfg\<lparr>allowedFileTypes := w1 @ p @ w2\<rparr>) f \<longleftrightarrow>
           CHR ''.'' \<notin> set p \<and>
           (\<exists>base. toLowerCase (fname f) = base @ CHR ''.'' # toLowerCase p)"
proof -
  note x = extensionPattern_parts [OF assms(3)]
  from assms(1) have s1: "\<forall>c \<in> set w1. \<not> isSep c"
    using sep_not_space by (auto simp: list_all_iff)
  from assms(2) have s2: "\<forall>c \<in> set w2. \<not> isSep c"
    using sep_not_space by (auto simp: list_all_iff)
  have l1: "list_all isSpace (last (splitOn isSep w1))"
    using assms(1) by (simp add: splitOn_none [OF s1])
  have l2: "list_all isSpace (hd (splitOn isSep w2))"
    using assms(2) by (simp add: splitOn_none [OF s2])
  have "parseAllowedTypes (w1 @ p @ w2) =
           filter (\<lambda>t. t \<noteq> [] \<and> t \<noteq> ''*'')
             (map (\<lambda>t. toLowerCase (trim t)) (butlast (splitOn isSep w1))) @
           [toLowerCase p] @
           filter (\<lambda>t. t \<noteq> [] \<and> t \<noteq> ''*'')
             (map (\<lambda>t. toLowerCase (trim t)) (tl (splitOn isSep w2)))"
    by (rule parseAllowedTypes_around [OF l1 l2 x(1,2,3,5,7)])
  then have a: "parseAllowedTypes (w1 @ p @ w2) = [toLowerCase p]"
    by (simp add: splitOn_none [OF s1] splitOn_none [OF s2])
  have "\<not> typeRejected (cfg\<lparr>allowedFileTypes := w1 @ p @ w2\<rparr>) f \<longleftrightarrow>
          fileExtension (toLowerCase (fname f)) = CHR ''.'' # toLowerCase p"
    using typeMatches_dot(2) [OF assms(3)] by (simp add: typeRejected_iff a)
  then show ?thesis
    by (simp add: fileExtension_last_dot toLowerCase_no_dot)
qed

section \<open>The concrete inputs evaluated\<close>

lemma attempt_happy:
  "attemptUpload remoteConfig happyEnv (pdfFile ''a.pdf'' 3) =
     ([uploadRequest remoteConfig (pdfFile ''a.pdf'' 3) ''data:application/pdf;base64,QUJD''],
      \<lparr>ur_fileName = ''a.pdf'', ur_url = ''https://blob/f'', ur_success = True, ur_error = None,
       ur_flowRunId = Some ''run1''\<rparr>)"
  by (simp add: attemptUpload_def happyEnv_def uploaded200_def pdfFile_def orEmpty_def Let_def)

lemma markUploading_onePending:
  "fileStates (markUploading [pdfFile ''a.pdf'' 3] onePending) =
     [entry (pdfFile ''a.pdf'' 3) Uploading]"
  by (simp add: markUploading_def updateFileState_def onePending_def emptyState_def entry_def
      pdfFile_def applyUpdate_def noUpdate_def)

lemma singleConfig_configured: "isCloudFlowConfigured singleConfig"
  using remoteConfig_configured by (simp add: singleConfig_def isCloudFlowConfigured_def)

lemma singleConfig_single: "\<not> buttonAllowMultipleFiles singleConfig"
  by (simp add: singleConfig_def)

lemma attempt_single:
  "attemptUpload singleConfig happyEnv (pdfFile ''a.pdf'' 3) =
     ([uploadRequest singleConfig (pdfFile ''a.pdf'' 3) ''data:application/pdf;base64,QUJD''],
      \<lparr>ur_fileName = ''a.pdf'', ur_url = ''https://blob/f'', ur_success = True, ur_error = None,
       ur_flowRunId = Some ''run1''\<rparr>)"
  by (simp add: attemptUpload_def happyEnv_def uploaded200_def pdfFile_def orEmpty_def Let_def)

lemma pdfFile_sel [simp]:
  "fname (pdfFile n s) = n" "fsize (pdfFile n s) = s" "ftype (pdfFile n s) = ''application/pdf''"
  by (simp_all add: pdfFile_def)

lemma happyEnv_ticks [simp]: "progressTicks happyEnv f = [1 / 2, 1 / 2]"
  by (simp add: happyEnv_def)

text \<open>The upload of two pending files with the selection of several files switched off.\<close>

lemma upload_two_single:
  "\<exists>st'. uploadToCloudFlow singleConfig happyEnv [pdfFile ''a.pdf'' 3, pdfFile ''b.pdf'' 4] st =
     Inr ([\<lparr>ur_fileName = ''a.pdf'', ur_url = ''https://blob/f'', ur_success = True,
            ur_error = None, ur_flowRunId = Some ''run1''\<rparr>], st') \<and>
     (fileStates st = fileStates twoPending \<longrightarrow>
        map (\<lambda>fs. (fname (fs_file fs), fs_status fs, fs_progress fs)) (fileStates st') =
          [(''a.pdf'', Completed, 100), (''b.pdf'', Uploading, 0)]) \<and>
     existingFiles st' = existingFiles st \<and> selectedFiles st' = selectedFiles st \<and>
     cumulativeFilesJSON st' = cumulativeFilesJSON st \<and> events st' = events st"
proof -
  let ?res = "\<lparr>ur_fileName = ''a.pdf'', ur_url = ''https://blob/f'', ur_success = True,
            ur_error = None, ur_flowRunId = Some ''run1''\<rparr>"
  let ?files = "[pdfFile ''a.pdf'' 3, pdfFile ''b.pdf'' 4]"
  let ?rq = "uploadRequest singleConfig (pdfFile ''a.pdf'' 3) ''data:application/pdf;base64,QUJD''"
  let ?st1 = "simulateProgress happyEnv (pdfFile ''a.pdf'' 3) (markUploading ?files st)"
  let ?S = "updateFileState ''a.pdf''
            (noUpdate\<lparr>u_status := Some Completed, u_url := Some (Some ''https://blob/f''),
                           u_progress := Some 100\<rparr>)
            (updateFileState ''a.pdf'' (noUpdate\<lparr>u_progress := Some 100\<rparr>)
               (?st1\<lparr>requests := requests ?st1 @ [?rq]\<rparr>))"
  have u: "uploadToCloudFlow singleConfig happyEnv ?files st = Inr ([?res], ?S)"
    using uploadToCloudFlow_single [OF singleConfig_configured singleConfig_single,
        of happyEnv "pdfFile ''a.pdf'' 3" "[pdfFile ''b.pdf'' 4]" st]
    by (simp add: attempt_single)
  have m: "fileStates (markUploading ?files st) =
             map (\<lambda>fs. if fname (fs_file fs) \<in> {''a.pdf'', ''b.pdf''}
                        then applyUpdate (noUpdate\<lparr>u_status := Some Uploading, u_progress := Some 0\<rparr>) fs
                        else fs) (fileStates st)"
    unfolding markUploading_def by (simp only: foldl_update_fileStates) simp
  have t: "\<lfloor>foldl tick 0 [1 / 2, 1 / 2]\<rfloor> = 15" by (simp add: tick_def)
  have r: "fileStates ?st1 =
             map (\<lambda>fs. if fname (fs_file fs) = ''a.pdf''
                        then applyUpdate (noUpdate\<lparr>u_progress := Some 15\<rparr>) fs else fs)
               (fileStates (markUploading ?files st))"
    by (simp only: simulateProgress_def happyEnv_ticks pdfFile_sel runTicks_fileStates t) simp
  have e: "fileStates twoPending =
             [entry (pdfFile ''a.pdf'' 3) Pending, entry (pdfFile ''b.pdf'' 4) Pending]"
    by (simp add: twoPending_def emptyState_def)
  have f: "map (\<lambda>fs. (fname (fs_file fs), fs_status fs, fs_progress fs)) (fileStates ?S) =
          [(''a.pdf'', Completed, 100), (''b.pdf'', Uploading, 0)]"
    if "fileStates st = fileStates twoPending"
    by (simp add: updateFileState_def r m that e entry_def applyUpdate_def noUpdate_def)
  show ?thesis
  proof (intro exI [of _ ?S] conjI impI)
    show "uploadToCloudFlow singleConfig happyEnv ?files st = Inr ([?res], ?S)" by (rule u)
    show "map (\<lambda>fs. (fname (fs_file fs), fs_status fs, fs_progress fs)) (fileStates ?S) =
          [(''a.pdf'', Completed, 100), (''b.pdf'', Uploading, 0)]"
      if "fileStates st = fileStates twoPending" by (rule f [OF that])
    show "existingFiles ?S = existingFiles st" by (rule uploadToCloudFlow_frame(1) [OF u])
    show "selectedFiles ?S = selectedFiles st" by (rule uploadToCloudFlow_frame(2) [OF u])
    show "cumulativeFilesJSON ?S = cumulativeFilesJSON st" by (rule uploadToCloudFlow_frame(3) [OF u])
    show "events ?S = events st" by (rule uploadToCloudFlow_frame(4) [OF u])
  qed
qed

lemma remoteConfig_bound: "\<not> recordUidEmpty remoteConfig"
  by (simp add: recordUidEmpty_def remoteConfig_def truthy_def orEmpty_def trim_def isSpace_def)

lemma singleConfig_bound: "\<not> recordUidEmpty singleConfig"
  using remoteConfig_bound by (simp add: recordUidEmpty_def singleConfig_def)

lemma pdf_allowed_a: "\<not> typeRejected remoteConfig (pdfFile ''a.pdf'' s)"
  by (simp add: typeRejected_def remoteConfig_def parseAllowedTypes_def trim_def isSpace_def
      isSep_def toLowerCase_def toLowerChar_def isUpperCode_def char_of_eq_iff fileExtension_def typeMatches_def Let_def)

lemma pdf_allowed_b: "\<not> typeRejected remoteConfig (pdfFile ''b.pdf'' s)"
  by (simp add: typeRejected_def remoteConfig_def parseAllowedTypes_def trim_def isSpace_def
      isSep_def toLowerCase_def toLowerChar_def isUpperCode_def char_of_eq_iff fileExtension_def typeMatches_def Let_def)

lemma remoteConfig_limit [simp]: "maxTotalFileSizeMB remoteConfig = 10"
  by (simp add: remoteConfig_def)


lemma pdf_allowed_c: "\<not> typeRejected remoteConfig (pdfFile ''c.pdf'' s)"
  by (simp add: typeRejected_def remoteConfig_def parseAllowedTypes_def trim_def isSpace_def
      isSep_def toLowerCase_def toLowerChar_def isUpperCode_def char_of_eq_iff fileExtension_def typeMatches_def Let_def)
section \<open>C1: the running total of the size check\<close>

text \<open>
  C1, as the code has it. With a positive limit, a candidate that passes the type check is
  accepted exactly when the sizes of the valid pending files that have not failed, plus
  the sizes of the files accepted earlier in the same batch, plus its own size, do not
  exceed the limit in bytes; a candidate that fails the type check is rejected. This holds
  of \<^verbatim>\<open>validateFileType\<close> for any batch it is given, and of the loop of
  \<^verbatim>\<open>addFilesToState\<close>: the loop makes one entry per file, in order, and the entry
  of the \<open>i\<close>-th file is valid exactly when the file passes the type check and the pending
  total, plus the sizes of the files of the valid entries before it (and of no rejected
  one), plus its own size, is within the limit. Right after such an acceptance, that is
  for the batch up to the \<open>i\<close>-th file, the sizes of the valid pending files that have
  not failed are this total, and so within the limit; and after the whole batch they are
  within the limit if any file of it was accepted. The existing remote files are not part
  of the total.
\<close>

theorem C1_size_total:
  assumes "0 < maxTotalFileSizeMB cfg"
  shows "(\<not> typeRejected cfg f \<longrightarrow>
            (v_isValid (validateFileType cfg st f batch) \<longleftrightarrow>
               int (getCurrentTotalFileSize st + sum_list (map fsize batch) + fsize f) \<le>
                 maxTotalFileSizeMB cfg * 1024 * 1024)) \<and>
         (typeRejected cfg f \<longrightarrow> \<not> v_isValid (validateFileType cfg st f batch)) \<and>
         map fs_file (addLoop cfg st [] files) = files \<and>
         (i < length files \<longrightarrow>
            (let new = addLoop cfg st [] files;
                 earlier = map fs_file (filter fs_isValid (take i new));
                 total = getCurrentTotalFileSize st + sum_list (map fsize earlier) + fsize (files ! i)
             in fs_isValid (new ! i) = v_isValid (validateFileType cfg st (files ! i) earlier) \<and>
                fs_status (new ! i) = (if fs_isValid (new ! i) then Pending else Invalid) \<and>
                (fs_isValid (new ! i) \<longleftrightarrow>
                   \<not> typeRejected cfg (files ! i) \<and>
                   int total \<le> maxTotalFileSizeMB cfg * 1024 * 1024) \<and>
                (fs_isValid (new ! i) \<longrightarrow>
                   getCurrentTotalFileSize (addFilesToState cfg (take (Suc i) files) st) = total \<and>
                   int (getCurrentTotalFileSize (addFilesToState cfg (take (Suc i) files) st)) \<le>
                     maxTotalFileSizeMB cfg * 1024 * 1024))) \<and>
         ((\<exists>fs \<in> set (addLoop cfg st [] files). fs_isValid fs) \<longrightarrow>
            int (getCurrentTotalFileSize (addFilesToState cfg files st)) \<le>
              maxTotalFileSizeMB cfg * 1024 * 1024)"
proof -
  let ?lim = "maxTotalFileSizeMB cfg * 1024 * 1024"
  let ?new = "addLoop cfg st [] files"
  have 1: "\<not> typeRejected cfg f \<longrightarrow>
            (v_isValid (validateFileType cfg st f batch) \<longleftrightarrow>
               int (getCurrentTotalFileSize st + sum_list (map fsize batch) + fsize f) \<le> ?lim)"
    using validateFileType_size [OF assms] by (rule impI)
  have 2: "typeRejected cfg f \<longrightarrow> \<not> v_isValid (validateFileType cfg st f batch)"
    using validateFileType_type by (rule impI)
  have 3: "map fs_file ?new = files" by (rule addLoop_files)
  have 4: "i < length files \<longrightarrow>
            (let new = addLoop cfg st [] files;
                 earlier = map fs_file (filter fs_isValid (take i new));
                 total = getCurrentTotalFileSize st + sum_list (map fsize earlier) + fsize (files ! i)
             in fs_isValid (new ! i) = v_isValid (validateFileType cfg st (files ! i) earlier) \<and>
                fs_status (new ! i) = (if fs_isValid (new ! i) then Pending else Invalid) \<and>
                (fs_isValid (new ! i) \<longleftrightarrow>
                   \<not> typeRejected cfg (files ! i) \<and> int total \<le> ?lim) \<and>
                (fs_isValid (new ! i) \<longrightarrow>
                   getCurrentTotalFileSize (addFilesToState cfg (take (Suc i) files) st) = total \<and>
                   int (getCurrentTotalFileSize (addFilesToState cfg (take (Suc i) files) st)) \<le> ?lim))"
  proof
    assume i: "i < length files"
    let ?earlier = "map fs_file (filter fs_isValid (take i ?new))"
    let ?total = "getCurrentTotalFileSize st + sum_list (map fsize ?earlier) + fsize (files ! i)"
    let ?v = "validateFileType cfg st (files ! i) ?earlier"
    have e: "?new ! i =
        \<lparr>fs_file = files ! i, fs_progress = 0,
          fs_status = (if v_isValid ?v then Pending else Invalid), fs_url = None,
          fs_error = map_option Rejection (v_error ?v), fs_isValid = v_isValid ?v\<rparr>"
      using addLoop_nth [OF i, of cfg st] by (simp only: Let_def)
    have a: "fs_isValid (?new ! i) = v_isValid ?v" unfolding e by simp
    have b: "fs_status (?new ! i) = (if fs_isValid (?new ! i) then Pending else Invalid)"
      unfolding e by simp
    have c: "fs_isValid (?new ! i) \<longleftrightarrow> \<not> typeRejected cfg (files ! i) \<and> int ?total \<le> ?lim"
    proof (cases "typeRejected cfg (files ! i)")
      case True
      with validateFileType_type [OF True, of st ?earlier] a show ?thesis by simp
    next
      case False
      with validateFileType_size [OF assms False, of st ?earlier] a show ?thesis by simp
    qed
    have d: "getCurrentTotalFileSize (addFilesToState cfg (take (Suc i) files) st) = ?total"
      if v: "fs_isValid (?new ! i)"
    proof -
      from i have "i < length ?new" by (simp add: addLoop_length)
      then have "take (Suc i) ?new = take i ?new @ [?new ! i]" by (rule take_Suc_conv_app_nth)
      then have "addLoop cfg st [] (take (Suc i) files) = take i ?new @ [?new ! i]"
        by (simp only: addLoop_take)
      moreover have "fs_file (?new ! i) = files ! i" unfolding e by simp
      ultimately have
        "map fs_file (filter fs_isValid (addLoop cfg st [] (take (Suc i) files))) =
           ?earlier @ [files ! i]"
        using v by simp
      then show ?thesis by (simp add: getCurrentTotalFileSize_added)
    qed
    have d': "fs_isValid (?new ! i) \<longrightarrow>
        getCurrentTotalFileSize (addFilesToState cfg (take (Suc i) files) st) = ?total \<and>
        int (getCurrentTotalFileSize (addFilesToState cfg (take (Suc i) files) st)) \<le> ?lim"
      using c d by simp
    from a b c d' show "let new = addLoop cfg st [] files;
                 earlier = map fs_file (filter fs_isValid (take i new));
                 total = getCurrentTotalFileSize st + sum_list (map fsize earlier) + fsize (files ! i)
             in fs_isValid (new ! i) = v_isValid (validateFileType cfg st (files ! i) earlier) \<and>
                fs_status (new ! i) = (if fs_isValid (new ! i) then Pending else Invalid) \<and>
                (fs_isValid (new ! i) \<longleftrightarrow>
                   \<not> typeRejected cfg (files ! i) \<and> int total \<le> ?lim) \<and>
                (fs_isValid (new ! i) \<longrightarrow>
                   getCurrentTotalFileSize (addFilesToState cfg (take (Suc i) files) st) = total \<and>
                   int (getCurrentTotalFileSize (addFilesToState cfg (take (Suc i) files) st)) \<le> ?lim)"
      unfolding Let_def by (intro conjI)
  qed
  have 5: "(\<exists>fs \<in> set ?new. fs_isValid fs) \<longrightarrow>
            int (getCurrentTotalFileSize (addFilesToState cfg files st)) \<le> ?lim"
  proof
    assume ex: "\<exists>fs \<in> set ?new. fs_isValid fs"
    from addLoop_invariant [OF assms, of "[]" st files]
    have s: "(\<exists>fs \<in> set ?new. fs_isValid fs) \<longrightarrow>
           int (getCurrentTotalFileSize st +
                sum_list (map (\<lambda>fs. fsize (fs_file fs)) (filter fs_isValid ?new))) \<le> ?lim"
      by simp
    with ex show "int (getCurrentTotalFileSize (addFilesToState cfg files st)) \<le> ?lim"
      by (simp add: getCurrentTotalFileSize_added comp_def)
  qed
  show ?thesis
    apply (intro conjI)
        apply (rule 1)
       apply (rule 2)
      apply (rule 3)
     apply (rule 4)
    apply (rule 5)
    done
qed

text \<open>
  Limit 10 MB, no pending file: in the batch of the PDF files \<open>a\<close> of 6 MB, \<open>b\<close> of 8 MB
  and \<open>c\<close> of 4 MB, \<open>a\<close> is accepted, \<open>b\<close> is rejected (14 MB with \<open>a\<close>), and
  \<open>c\<close> is accepted: its total counts \<open>a\<close> and not the rejected \<open>b\<close>, and is 10 MB.
\<close>

theorem C1_size_total_witness:
  "0 < maxTotalFileSizeMB remoteConfig \<and>
   \<not> typeRejected remoteConfig (pdfFile ''b.pdf'' 8388608) \<and>
   \<not> v_isValid (validateFileType remoteConfig emptyState (pdfFile ''b.pdf'' 8388608)
                  [pdfFile ''a.pdf'' 6291456]) \<and>
   v_isValid (validateFileType remoteConfig emptyState (pdfFile ''a.pdf'' 6291456) []) \<and>
   map fs_isValid
     (addLoop remoteConfig emptyState []
        [pdfFile ''a.pdf'' 6291456, pdfFile ''b.pdf'' 8388608, pdfFile ''c.pdf'' 4194304]) =
     [True, False, True] \<and>
   map fs_status
     (addLoop remoteConfig emptyState []
        [pdfFile ''a.pdf'' 6291456, pdfFile ''b.pdf'' 8388608, pdfFile ''c.pdf'' 4194304]) =
     [Pending, Invalid, Pending] \<and>
   getCurrentTotalFileSize
     (addFilesToState remoteConfig
        [pdfFile ''a.pdf'' 6291456, pdfFile ''b.pdf'' 8388608, pdfFile ''c.pdf'' 4194304]
        emptyState) = 10485760"
proof -
  let ?a = "pdfFile ''a.pdf'' 6291456" and ?b = "pdfFile ''b.pdf'' 8388608"
    and ?c = "pdfFile ''c.pdf'' 4194304"
  let ?files = "[?a, ?b, ?c]"
  let ?new = "addLoop remoteConfig emptyState [] ?files"
  have l: "0 < maxTotalFileSizeMB remoteConfig" by simp
  have g: "getCurrentTotalFileSize emptyState = 0"
    by (simp add: getCurrentTotalFileSize_def emptyState_def)
  from C1_size_total [OF l, of "pdfFile ''b.pdf'' 8388608" emptyState "[pdfFile ''a.pdf'' 6291456]"]
    pdf_allowed_b [of 8388608] g
  have b: "\<not> v_isValid (validateFileType remoteConfig emptyState (pdfFile ''b.pdf'' 8388608)
                  [pdfFile ''a.pdf'' 6291456])"
    by simp
  from C1_size_total [OF l, of "pdfFile ''a.pdf'' 6291456" emptyState "[]"]
    pdf_allowed_a [of 6291456] g
  have a: "v_isValid (validateFileType remoteConfig emptyState (pdfFile ''a.pdf'' 6291456) [])"
    by simp
  note th = C1_size_total [OF l, where st = emptyState and files = ?files]
  note files = th [where i = 0, THEN conjunct2, THEN conjunct2, THEN conjunct1]
  then have len: "length ?new = 3" by (metis length_map length_Cons list.size(3) numeral_3_eq_3)
  then obtain x y z where new: "?new = [x, y, z]"
    by (auto simp: numeral_3_eq_3 length_Suc_conv)
  have sz: "fsize ?a = 6291456" "fsize ?b = 8388608" "fsize ?c = 4194304"
    by (simp_all add: pdfFile_def)
  note t0 = th [where i = 0, THEN conjunct2, THEN conjunct2, THEN conjunct2, THEN conjunct1]
  have x: "fs_isValid x \<and> fs_status x = Pending"
    using t0 pdf_allowed_a [of 6291456] g unfolding new Let_def by (auto simp: sz)
  from files have fx: "fs_file x = ?a" unfolding new by simp
  note t1 = th [where i = 1, THEN conjunct2, THEN conjunct2, THEN conjunct2, THEN conjunct1]
  have y: "\<not> fs_isValid y \<and> fs_status y = Invalid"
    using t1 x fx g unfolding new Let_def by (auto simp: sz)
  note t2 = th [where i = 2, THEN conjunct2, THEN conjunct2, THEN conjunct2, THEN conjunct1]
  have t: "take 2 [x, y, z] = [x, y]" by (simp add: numeral_2_eq_2)
  have s: "take (Suc 2) ?files = ?files" by (simp add: numeral_2_eq_2)
  have z: "fs_isValid z \<and> fs_status z = Pending \<and>
           getCurrentTotalFileSize (addFilesToState remoteConfig ?files emptyState) = 10485760"
    using t2 x y fx g pdf_allowed_c [of 4194304] unfolding new Let_def t s by (auto simp: sz)
  have v: "map fs_isValid ?new = [True, False, True]" unfolding new using x y z by simp
  have u: "map fs_status ?new = [Pending, Invalid, Pending]" unfolding new using x y z by simp
  from z have w: "getCurrentTotalFileSize (addFilesToState remoteConfig ?files emptyState) = 10485760"
    by simp
  show ?thesis
    by (intro conjI) (fact l pdf_allowed_b a b v u w)+
qed

text \<open>
  The claim as stated fails: with an existing remote file of 8 MB and the limit 10 MB a
  file of 6 MB is accepted, and the valid pending and the existing remote sizes then sum
  to 14 MB.
\<close>

theorem C1_remote_files_counterexample:
  "0 < maxTotalFileSizeMB remoteConfig \<and>
   v_isValid (validateFileType remoteConfig oneRemote (pdfFile ''a.pdf'' 6291456) []) \<and>
   int (getCurrentTotalFileSize (addFilesToState remoteConfig [pdfFile ''a.pdf'' 6291456] oneRemote) +
        existingRemoteSize (addFilesToState remoteConfig [pdfFile ''a.pdf'' 6291456] oneRemote)) >
     maxTotalFileSizeMB remoteConfig * 1024 * 1024"
proof -
  have g: "getCurrentTotalFileSize oneRemote = 0"
    by (simp add: getCurrentTotalFileSize_def oneRemote_def emptyState_def)
  have v: "v_isValid (validateFileType remoteConfig oneRemote (pdfFile ''a.pdf'' 6291456) [])"
    using validateFileType_size [of remoteConfig "pdfFile ''a.pdf'' 6291456" oneRemote "[]"]
      pdf_allowed_a [of 6291456] g
    by simp
  have n: "addLoop remoteConfig oneRemote [] [pdfFile ''a.pdf'' 6291456] =
      [\<lparr>fs_file = pdfFile ''a.pdf'' 6291456, fs_progress = 0, fs_status = Pending, fs_url = None,
        fs_error = map_option Rejection
                     (v_error (validateFileType remoteConfig oneRemote (pdfFile ''a.pdf'' 6291456) [])),
        fs_isValid = True\<rparr>]"
    using v by (simp add: Let_def)
  have t: "getCurrentTotalFileSize (addFilesToState remoteConfig [pdfFile ''a.pdf'' 6291456] oneRemote) =
           6291456"
    unfolding addFilesToState_def n
    by (simp add: getCurrentTotalFileSize_def oneRemote_def emptyState_def)
  have r: "existingRemoteSize (addFilesToState remoteConfig [pdfFile ''a.pdf'' 6291456] oneRemote) =
           8388608"
    by (simp add: existingRemoteSize_def addFilesToState_def oneRemote_def emptyState_def)
  show ?thesis unfolding t r using v by simp
qed

section \<open>C2: extension patterns, case and separators\<close>

text \<open>
  C2. Whether a file is valid depends on the string of allowed types only through its
  lower-case form; it does not change when separators are exchanged for one another; and
  it does not change when an extension pattern between separators gets a leading dot or
  loses it. An extension pattern alone accepts exactly the files whose lower-case name,
  from its last dot on, is the dot followed by the lower-case pattern. Without reference
  to how the extension is computed: an extension pattern \<open>p\<close> with nothing but white
  space around it passes the type check exactly for the files whose lower-case name is
  some \<open>base\<close>, a dot, and the lower-case \<open>p\<close>, where \<open>p\<close> has no dot; so the dot
  before the matched suffix is the last dot of the name, and a pattern with an inner dot
  matches no file. With the size limit off, the type check alone decides validity. So
  \<open>.PDF\<close>, \<open>pdf\<close> and \<open>PDF\<close> accept the same files. Strings are over the code
  units below 256; white space includes the no-break space and lower case the accented
  capitals.
\<close>

theorem C2_type_patterns:
  "(toLowerCase s' = toLowerCase s \<longrightarrow>
      v_isValid (validateFileType (cfg\<lparr>allowedFileTypes := s'\<rparr>) st f batch) =
      v_isValid (validateFileType (cfg\<lparr>allowedFileTypes := s\<rparr>) st f batch)) \<and>
   ((\<forall>c. isSep (g c) = isSep c) \<and> (\<forall>c. \<not> isSep c \<longrightarrow> g c = c) \<longrightarrow>
      v_isValid (validateFileType (cfg\<lparr>allowedFileTypes := map g s\<rparr>) st f batch) =
      v_isValid (validateFileType (cfg\<lparr>allowedFileTypes := s\<rparr>) st f batch)) \<and>
   (list_all isSpace (last (splitOn isSep pre)) \<and> list_all isSpace (hd (splitOn isSep post)) \<and>
    extensionPattern p \<longrightarrow>
      v_isValid (validateFileType (cfg\<lparr>allowedFileTypes := pre @ CHR ''.'' # p @ post\<rparr>) st f batch) =
      v_isValid (validateFileType (cfg\<lparr>allowedFileTypes := pre @ p @ post\<rparr>) st f batch)) \<and>
   (extensionPattern p \<longrightarrow>
      (typeRejected (cfg\<lparr>allowedFileTypes := p\<rparr>) f \<longleftrightarrow>
         fileExtension (toLowerCase (fname f)) \<noteq> CHR ''.'' # toLowerCase p)) \<and>
   (list_all isSpace w1 \<and> list_all isSpace w2 \<and> extensionPattern p \<longrightarrow>
      (\<not> typeRejected (cfg\<lparr>allowedFileTypes := w1 @ p @ w2\<rparr>) f \<longleftrightarrow>
         CHR ''.'' \<notin> set p \<and>
         (\<exists>base. toLowerCase (fname f) = base @ CHR ''.'' # toLowerCase p))) \<and>
   (maxTotalFileSizeMB cfg \<le> 0 \<longrightarrow>
      v_isValid (validateFileType cfg st f batch) = (\<not> typeRejected cfg f)) \<and>
   v_isValid (validateFileType (cfg\<lparr>allowedFileTypes := ''.PDF''\<rparr>) st f batch) =
     v_isValid (validateFileType (cfg\<lparr>allowedFileTypes := ''pdf''\<rparr>) st f batch) \<and>
   v_isValid (validateFileType (cfg\<lparr>allowedFileTypes := ''PDF''\<rparr>) st f batch) =
     v_isValid (validateFileType (cfg\<lparr>allowedFileTypes := ''pdf''\<rparr>) st f batch)"
proof -
  have lower: "v_isValid (validateFileType (cfg\<lparr>allowedFileTypes := a\<rparr>) st f batch) =
      v_isValid (validateFileType (cfg\<lparr>allowedFileTypes := b\<rparr>) st f batch)"
    if "toLowerCase a = toLowerCase b" for a b
  proof -
    have "parseAllowedTypes a = parseAllowedTypes (toLowerCase a)"
      by (simp add: parseAllowedTypes_toLower)
    also have "\<dots> = parseAllowedTypes b" unfolding that by (rule parseAllowedTypes_toLower)
    finally show ?thesis
      by (intro validateFileType_cong typeRejected_allowed_cong) simp_all
  qed
  have sep: "v_isValid (validateFileType (cfg\<lparr>allowedFileTypes := map g s\<rparr>) st f batch) =
      v_isValid (validateFileType (cfg\<lparr>allowedFileTypes := s\<rparr>) st f batch)"
    if "(\<forall>c. isSep (g c) = isSep c) \<and> (\<forall>c. \<not> isSep c \<longrightarrow> g c = c)"
  proof -
    from that have "parseAllowedTypes (map g s) = parseAllowedTypes s"
      by (intro parseAllowedTypes_swap) simp_all
    then show ?thesis
      by (intro validateFileType_cong typeRejected_allowed_cong) simp_all
  qed
  have dot: "v_isValid (validateFileType (cfg\<lparr>allowedFileTypes := x @ CHR ''.'' # q @ y\<rparr>) st f batch) =
      v_isValid (validateFileType (cfg\<lparr>allowedFileTypes := x @ q @ y\<rparr>) st f batch)"
    if "list_all isSpace (last (splitOn isSep x)) \<and> list_all isSpace (hd (splitOn isSep y)) \<and>
        extensionPattern q" for x q y
    using that by (intro validateFileType_cong typeRejected_dot) simp_all
  have one: "typeRejected (cfg\<lparr>allowedFileTypes := p\<rparr>) f \<longleftrightarrow>
         fileExtension (toLowerCase (fname f)) \<noteq> CHR ''.'' # toLowerCase p"
    if "extensionPattern p"
    using typeMatches_dot(2) [OF that]
    by (simp add: typeRejected_iff parseAllowedTypes_single [OF that])
  have d: "v_isValid (validateFileType (cfg\<lparr>allowedFileTypes := ''.PDF''\<rparr>) st f batch) =
     v_isValid (validateFileType (cfg\<lparr>allowedFileTypes := ''PDF''\<rparr>) st f batch)"
    using dot [of "[]" "[]" "''PDF''"] extensionPattern_PDF by simp
  have c: "v_isValid (validateFileType (cfg\<lparr>allowedFileTypes := ''PDF''\<rparr>) st f batch) =
     v_isValid (validateFileType (cfg\<lparr>allowedFileTypes := ''pdf''\<rparr>) st f batch)"
    by (rule lower) (simp only: toLowerCase_PDF [symmetric] toLowerCase_idem)
  have ext: "\<not> typeRejected (cfg\<lparr>allowedFileTypes := w1 @ p @ w2\<rparr>) f \<longleftrightarrow>
         CHR ''.'' \<notin> set p \<and>
         (\<exists>base. toLowerCase (fname f) = base @ CHR ''.'' # toLowerCase p)"
    if "list_all isSpace w1 \<and> list_all isSpace w2 \<and> extensionPattern p"
    using that by (intro typeRejected_extension) simp_all
  have off: "v_isValid (validateFileType cfg st f batch) = (\<not> typeRejected cfg f)"
    if "maxTotalFileSizeMB cfg \<le> 0"
    using that by (simp add: validateFileType_def rejected_def accepted_def)
  have 1: "toLowerCase s' = toLowerCase s \<longrightarrow>
      v_isValid (validateFileType (cfg\<lparr>allowedFileTypes := s'\<rparr>) st f batch) =
      v_isValid (validateFileType (cfg\<lparr>allowedFileTypes := s\<rparr>) st f batch)"
    using lower [of s' s] by (rule impI)
  have 2: "(\<forall>c. isSep (g c) = isSep c) \<and> (\<forall>c. \<not> isSep c \<longrightarrow> g c = c) \<longrightarrow>
      v_isValid (validateFileType (cfg\<lparr>allowedFileTypes := map g s\<rparr>) st f batch) =
      v_isValid (validateFileType (cfg\<lparr>allowedFileTypes := s\<rparr>) st f batch)"
    using sep by (rule impI)
  have 3: "list_all isSpace (last (splitOn isSep pre)) \<and> list_all isSpace (hd (splitOn isSep post)) \<and>
      extensionPattern p \<longrightarrow>
      v_isValid (validateFileType (cfg\<lparr>allowedFileTypes := pre @ CHR ''.'' # p @ post\<rparr>) st f batch) =
      v_isValid (validateFileType (cfg\<lparr>allowedFileTypes := pre @ p @ post\<rparr>) st f batch)"
    using dot [of pre post p] by (rule impI)
  have 4: "extensionPattern p \<longrightarrow>
      (typeRejected (cfg\<lparr>allowedFileTypes := p\<rparr>) f \<longleftrightarrow>
         fileExtension (toLowerCase (fname f)) \<noteq> CHR ''.'' # toLowerCase p)"
    using one by (rule impI)
  have 5: "list_all isSpace w1 \<and> list_all isSpace w2 \<and> extensionPattern p \<longrightarrow>
      (\<not> typeRejected (cfg\<lparr>allowedFileTypes := w1 @ p @ w2\<rparr>) f \<longleftrightarrow>
         CHR ''.'' \<notin> set p \<and>
         (\<exists>base. toLowerCase (fname f) = base @ CHR ''.'' # toLowerCase p))"
    using ext by (rule impI)
  have 6: "maxTotalFileSizeMB cfg \<le> 0 \<longrightarrow>
      v_isValid (validateFileType cfg st f batch) = (\<not> typeRejected cfg f)"
    using off by (rule impI)
  have 7: "v_isValid (validateFileType (cfg\<lparr>allowedFileTypes := ''.PDF''\<rparr>) st f batch) =
     v_isValid (validateFileType (cfg\<lparr>allowedFileTypes := ''pdf''\<rparr>) st f batch)"
    using d c by (rule trans)
  show ?thesis
    apply (intro conjI)
          apply (rule 1)
         apply (rule 2)
        apply (rule 3)
       apply (rule 4)
      apply (rule 5)
     apply (rule 6)
    apply (rule 7)
    apply (rule c)
    done
qed

text \<open>
  The theorem at strings that differ in case, in the separator, and in the dot of the
  pattern \<open>PDF\<close> between other patterns; at a name with several dots, which the pattern
  \<open>gz\<close> between a space and a no-break space accepts and the patterns \<open>tar\<close> and
  \<open>tar.gz\<close> reject; and at an accented capital as pattern.
\<close>

theorem C2_type_patterns_witness:
  "toLowerCase ''.PDF;DocX'' = toLowerCase ''.pdf;docx'' \<and>
   (\<forall>c. isSep (if c = CHR '';'' then CHR '','' else c) = isSep c) \<and>
   list_all isSpace (last (splitOn isSep ''jpg, '')) \<and>
   list_all isSpace (hd (splitOn isSep '';txt'')) \<and>
   extensionPattern ''PDF'' \<and>
   v_isValid (validateFileType (remoteConfig\<lparr>allowedFileTypes := ''.PDF;DocX''\<rparr>) emptyState
                (pdfFile ''a.pdf'' 3) []) =
   v_isValid (validateFileType (remoteConfig\<lparr>allowedFileTypes := ''.pdf;docx''\<rparr>) emptyState
                (pdfFile ''a.pdf'' 3) []) \<and>
   v_isValid (validateFileType (remoteConfig\<lparr>allowedFileTypes := ''.pdf,docx''\<rparr>) emptyState
                (pdfFile ''a.pdf'' 3) []) =
   v_isValid (validateFileType (remoteConfig\<lparr>allowedFileTypes := ''.pdf;docx''\<rparr>) emptyState
                (pdfFile ''a.pdf'' 3) []) \<and>
   v_isValid (validateFileType (remoteConfig\<lparr>allowedFileTypes := ''jpg, .PDF;txt''\<rparr>) emptyState
                (pdfFile ''a.pdf'' 3) []) =
   v_isValid (validateFileType (remoteConfig\<lparr>allowedFileTypes := ''jpg, PDF;txt''\<rparr>) emptyState
                (pdfFile ''a.pdf'' 3) []) \<and>
   \<not> typeRejected (remoteConfig\<lparr>allowedFileTypes := ''PDF''\<rparr>) (pdfFile ''a.pdf'' 3) \<and>
   list_all isSpace '' '' \<and> list_all isSpace [CHR 0xA0] \<and> extensionPattern ''gz'' \<and>
   \<not> typeRejected (remoteConfig\<lparr>allowedFileTypes := '' gz'' @ [CHR 0xA0]\<rparr>)
       (pdfFile ''Archive.tar.GZ'' 3) \<and>
   extensionPattern ''tar'' \<and>
   typeRejected (remoteConfig\<lparr>allowedFileTypes := ''tar''\<rparr>) (pdfFile ''Archive.tar.GZ'' 3) \<and>
   extensionPattern ''tar.gz'' \<and>
   typeRejected (remoteConfig\<lparr>allowedFileTypes := ''tar.gz''\<rparr>) (pdfFile ''Archive.tar.GZ'' 3) \<and>
   extensionPattern [CHR 0xC9] \<and>
   \<not> typeRejected (remoteConfig\<lparr>allowedFileTypes := [CHR 0xC9]\<rparr>) (pdfFile (''a.'' @ [CHR 0xE9]) 3) \<and>
   maxTotalFileSizeMB (remoteConfig\<lparr>maxTotalFileSizeMB := 0, allowedFileTypes := ''tar''\<rparr>) \<le> 0 \<and>
   \<not> v_isValid (validateFileType (remoteConfig\<lparr>maxTotalFileSizeMB := 0, allowedFileTypes := ''tar''\<rparr>)
                  emptyState (pdfFile ''Archive.tar.GZ'' 3) [])"
proof -
  let ?g = "\<lambda>c. if c = CHR '';'' then CHR '','' else c"
  let ?tgz = "pdfFile ''Archive.tar.GZ'' 3"
  have h1: "toLowerCase ''.PDF;DocX'' = toLowerCase ''.pdf;docx''"
    by (simp add: toLowerCase_def toLowerChar_def isUpperCode_def char_of_eq_iff)
  have h2: "\<forall>c. isSep (?g c) = isSep c" by (simp add: isSep_def)
  have h3: "\<forall>c. \<not> isSep c \<longrightarrow> ?g c = c" by (simp add: isSep_def)
  have h4: "list_all isSpace (last (splitOn isSep ''jpg, ''))"
    by (simp add: isSep_def isSpace_def)
  have h5: "list_all isSpace (hd (splitOn isSep '';txt''))"
    by (simp add: isSep_def)
  note h6 = extensionPattern_PDF
  have n: "list_all isSpace []" by simp
  note th = C2_type_patterns [where s' = "''.PDF;DocX''" and s = "''.pdf;docx''"
      and cfg = remoteConfig and st = emptyState and f = "pdfFile ''a.pdf'' 3" and batch = "[]"
      and g = ?g and pre = "''jpg, ''" and post = "'';txt''" and p = "''PDF''"
      and ?w1.0 = "[]" and ?w2.0 = "[]"]
  note t1 = th [THEN conjunct1]
  note t2 = th [THEN conjunct2, THEN conjunct1]
  note t3 = th [THEN conjunct2, THEN conjunct2, THEN conjunct1]
  note t4 = th [THEN conjunct2, THEN conjunct2, THEN conjunct2, THEN conjunct1]
  from t1 h1 have c1:
    "v_isValid (validateFileType (remoteConfig\<lparr>allowedFileTypes := ''.PDF;DocX''\<rparr>) emptyState
                (pdfFile ''a.pdf'' 3) []) =
     v_isValid (validateFileType (remoteConfig\<lparr>allowedFileTypes := ''.pdf;docx''\<rparr>) emptyState
                (pdfFile ''a.pdf'' 3) [])"
    by (rule mp)
  have m: "map ?g ''.pdf;docx'' = ''.pdf,docx''" by simp
  from h2 h3 have h23: "(\<forall>c. isSep (?g c) = isSep c) \<and> (\<forall>c. \<not> isSep c \<longrightarrow> ?g c = c)" ..
  from t2 h23 have
    "v_isValid (validateFileType (remoteConfig\<lparr>allowedFileTypes := map ?g ''.pdf;docx''\<rparr>) emptyState
                (pdfFile ''a.pdf'' 3) []) =
     v_isValid (validateFileType (remoteConfig\<lparr>allowedFileTypes := ''.pdf;docx''\<rparr>) emptyState
                (pdfFile ''a.pdf'' 3) [])"
    by (rule mp)
  then have c2:
    "v_isValid (validateFileType (remoteConfig\<lparr>allowedFileTypes := ''.pdf,docx''\<rparr>) emptyState
                (pdfFile ''a.pdf'' 3) []) =
     v_isValid (validateFileType (remoteConfig\<lparr>allowedFileTypes := ''.pdf;docx''\<rparr>) emptyState
                (pdfFile ''a.pdf'' 3) [])"
    unfolding m .
  from h4 h5 h6 have h456: "list_all isSpace (last (splitOn isSep ''jpg, '')) \<and>
      list_all isSpace (hd (splitOn isSep '';txt'')) \<and> extensionPattern ''PDF''"
    by (intro conjI)
  from t3 h456 have
    "v_isValid (validateFileType (remoteConfig\<lparr>allowedFileTypes := ''jpg, '' @ CHR ''.'' # ''PDF'' @ '';txt''\<rparr>)
                emptyState (pdfFile ''a.pdf'' 3) []) =
     v_isValid (validateFileType (remoteConfig\<lparr>allowedFileTypes := ''jpg, '' @ ''PDF'' @ '';txt''\<rparr>)
                emptyState (pdfFile ''a.pdf'' 3) [])"
    by (rule mp)
  then have c3:
    "v_isValid (validateFileType (remoteConfig\<lparr>allowedFileTypes := ''jpg, .PDF;txt''\<rparr>) emptyState
                (pdfFile ''a.pdf'' 3) []) =
     v_isValid (validateFileType (remoteConfig\<lparr>allowedFileTypes := ''jpg, PDF;txt''\<rparr>) emptyState
                (pdfFile ''a.pdf'' 3) [])"
    by simp
  have e: "fileExtension (toLowerCase (fname (pdfFile ''a.pdf'' 3))) = CHR ''.'' # toLowerCase ''PDF''"
    by (simp add: toLowerCase_PDF) (simp add: fileExtension_def toLowerCase_def toLowerChar_def isUpperCode_def char_of_eq_iff)
  from t4 h6 have "typeRejected (remoteConfig\<lparr>allowedFileTypes := ''PDF''\<rparr>) (pdfFile ''a.pdf'' 3) \<longleftrightarrow>
      fileExtension (toLowerCase (fname (pdfFile ''a.pdf'' 3))) \<noteq> CHR ''.'' # toLowerCase ''PDF''"
    by (rule mp)
  with e have c4: "\<not> typeRejected (remoteConfig\<lparr>allowedFileTypes := ''PDF''\<rparr>) (pdfFile ''a.pdf'' 3)"
    by simp
  have k1: "list_all isSpace '' ''" by (simp add: isSpace_def)
  have k2: "list_all isSpace [CHR 0xA0]" by (simp add: isSpace_def)
  have k3: "extensionPattern ''gz''" by (simp add: extensionPattern_def isSpace_def isSep_def)
  have k4: "extensionPattern ''tar''" by (simp add: extensionPattern_def isSpace_def isSep_def)
  have k5: "extensionPattern ''tar.gz''" by (simp add: extensionPattern_def isSpace_def isSep_def)
  have k6: "extensionPattern [CHR 0xC9]" by (simp add: extensionPattern_def isSpace_def isSep_def)
  have low: "toLowerCase (fname ?tgz) = ''archive.tar.gz''"
    by (simp add: pdfFile_def toLowerCase_def toLowerChar_def isUpperCode_def char_of_eq_iff)
  have "toLowerCase (fname ?tgz) = ''archive.tar'' @ CHR ''.'' # toLowerCase ''gz''"
    unfolding low by (simp add: toLowerCase_def toLowerChar_def isUpperCode_def)
  then have g1: "\<exists>base. toLowerCase (fname ?tgz) = base @ CHR ''.'' # toLowerCase ''gz''"
    by (rule exI [of _ "''archive.tar''"])
  have g2: "CHR ''.'' \<notin> set ''gz''" by simp
  note e1 = C2_type_patterns [where cfg = remoteConfig and f = ?tgz and ?w1.0 = "'' ''"
      and ?w2.0 = "[CHR 0xA0]" and p = "''gz''",
      THEN conjunct2, THEN conjunct2, THEN conjunct2, THEN conjunct2, THEN conjunct1]
  from k1 k2 k3 have "list_all isSpace '' '' \<and> list_all isSpace [CHR 0xA0] \<and> extensionPattern ''gz''"
    by (intro conjI)
  with e1 have "\<not> typeRejected (remoteConfig\<lparr>allowedFileTypes := '' '' @ ''gz'' @ [CHR 0xA0]\<rparr>) ?tgz \<longleftrightarrow>
      CHR ''.'' \<notin> set ''gz'' \<and> (\<exists>base. toLowerCase (fname ?tgz) = base @ CHR ''.'' # toLowerCase ''gz'')"
    by (rule mp)
  with g1 g2 have "\<not> typeRejected (remoteConfig\<lparr>allowedFileTypes := '' '' @ ''gz'' @ [CHR 0xA0]\<rparr>) ?tgz"
    by simp
  then have c5: "\<not> typeRejected (remoteConfig\<lparr>allowedFileTypes := '' gz'' @ [CHR 0xA0]\<rparr>) ?tgz"
    by simp
  have g3: "\<not> (\<exists>base. toLowerCase (fname ?tgz) = base @ CHR ''.'' # toLowerCase ''tar'')"
  proof
    assume "\<exists>base. toLowerCase (fname ?tgz) = base @ CHR ''.'' # toLowerCase ''tar''"
    then obtain base where "''archive.tar.gz'' = base @ CHR ''.'' # toLowerCase ''tar''"
      unfolding low by blast
    then have "last ''archive.tar.gz'' = last (base @ CHR ''.'' # toLowerCase ''tar'')" by simp
    then show False by (simp add: toLowerCase_def toLowerChar_def isUpperCode_def)
  qed
  note e2 = C2_type_patterns [where cfg = remoteConfig and f = ?tgz and ?w1.0 = "[]"
      and ?w2.0 = "[]" and p = "''tar''",
      THEN conjunct2, THEN conjunct2, THEN conjunct2, THEN conjunct2, THEN conjunct1]
  from n k4 have "list_all isSpace [] \<and> list_all isSpace [] \<and> extensionPattern ''tar''"
    by (intro conjI)
  with e2 have "\<not> typeRejected (remoteConfig\<lparr>allowedFileTypes := [] @ ''tar'' @ []\<rparr>) ?tgz \<longleftrightarrow>
      CHR ''.'' \<notin> set ''tar'' \<and> (\<exists>base. toLowerCase (fname ?tgz) = base @ CHR ''.'' # toLowerCase ''tar'')"
    by (rule mp)
  with g3 have "typeRejected (remoteConfig\<lparr>allowedFileTypes := [] @ ''tar'' @ []\<rparr>) ?tgz"
    by simp
  then have c6: "typeRejected (remoteConfig\<lparr>allowedFileTypes := ''tar''\<rparr>) ?tgz" by simp
  have g4: "CHR ''.'' \<in> set ''tar.gz''" by simp
  note e3 = C2_type_patterns [where cfg = remoteConfig and f = ?tgz and ?w1.0 = "[]"
      and ?w2.0 = "[]" and p = "''tar.gz''",
      THEN conjunct2, THEN conjunct2, THEN conjunct2, THEN conjunct2, THEN conjunct1]
  from n k5 have "list_all isSpace [] \<and> list_all isSpace [] \<and> extensionPattern ''tar.gz''"
    by (intro conjI)
  with e3 have "\<not> typeRejected (remoteConfig\<lparr>allowedFileTypes := [] @ ''tar.gz'' @ []\<rparr>) ?tgz \<longleftrightarrow>
      CHR ''.'' \<notin> set ''tar.gz'' \<and>
      (\<exists>base. toLowerCase (fname ?tgz) = base @ CHR ''.'' # toLowerCase ''tar.gz'')"
    by (rule mp)
  with g4 have "typeRejected (remoteConfig\<lparr>allowedFileTypes := [] @ ''tar.gz'' @ []\<rparr>) ?tgz"
    by blast
  then have c7: "typeRejected (remoteConfig\<lparr>allowedFileTypes := ''tar.gz''\<rparr>) ?tgz" by simp
  have up: "toLowerCase [CHR 0xC9] = [CHR 0xE9]"
    by (simp add: toLowerCase_def toLowerChar_def isUpperCode_def char_of_eq_iff)
  have "toLowerCase (fname (pdfFile (''a.'' @ [CHR 0xE9]) 3)) = ''a'' @ CHR ''.'' # toLowerCase [CHR 0xC9]"
    unfolding up by (simp add: pdfFile_def toLowerCase_def toLowerChar_def isUpperCode_def)
  then have g5: "\<exists>base. toLowerCase (fname (pdfFile (''a.'' @ [CHR 0xE9]) 3)) =
                   base @ CHR ''.'' # toLowerCase [CHR 0xC9]"
    by (rule exI [of _ "''a''"])
  have g6: "CHR ''.'' \<notin> set [CHR 0xC9]" by simp
  note e4 = C2_type_patterns [where cfg = remoteConfig and f = "pdfFile (''a.'' @ [CHR 0xE9]) 3"
      and ?w1.0 = "[]" and ?w2.0 = "[]" and p = "[CHR 0xC9]",
      THEN conjunct2, THEN conjunct2, THEN conjunct2, THEN conjunct2, THEN conjunct1]
  from n k6 have "list_all isSpace [] \<and> list_all isSpace [] \<and> extensionPattern [CHR 0xC9]"
    by (intro conjI)
  with e4 have "\<not> typeRejected (remoteConfig\<lparr>allowedFileTypes := [] @ [CHR 0xC9] @ []\<rparr>)
          (pdfFile (''a.'' @ [CHR 0xE9]) 3) \<longleftrightarrow>
      CHR ''.'' \<notin> set [CHR 0xC9] \<and>
      (\<exists>base. toLowerCase (fname (pdfFile (''a.'' @ [CHR 0xE9]) 3)) =
                base @ CHR ''.'' # toLowerCase [CHR 0xC9])"
    by (rule mp)
  with g5 g6 have "\<not> typeRejected (remoteConfig\<lparr>allowedFileTypes := [] @ [CHR 0xC9] @ []\<rparr>)
          (pdfFile (''a.'' @ [CHR 0xE9]) 3)"
    by blast
  then have c8: "\<not> typeRejected (remoteConfig\<lparr>allowedFileTypes := [CHR 0xC9]\<rparr>)
          (pdfFile (''a.'' @ [CHR 0xE9]) 3)"
    by simp
  let ?off = "remoteConfig\<lparr>maxTotalFileSizeMB := 0, allowedFileTypes := ''tar''\<rparr>"
  have o1: "maxTotalFileSizeMB ?off \<le> 0" by simp
  have "typeRejected ?off ?tgz = typeRejected (remoteConfig\<lparr>allowedFileTypes := ''tar''\<rparr>) ?tgz"
    by (simp add: typeRejected_iff)
  with c6 have o2: "typeRejected ?off ?tgz" by simp
  note e5 = C2_type_patterns [where cfg = ?off and f = ?tgz and st = emptyState and batch = "[]",
      THEN conjunct2, THEN conjunct2, THEN conjunct2, THEN conjunct2, THEN conjunct2, THEN conjunct1]
  from e5 o1 have "v_isValid (validateFileType ?off emptyState ?tgz []) = (\<not> typeRejected ?off ?tgz)"
    by (rule mp)
  with o2 have c9: "\<not> v_isValid (validateFileType ?off emptyState ?tgz [])"
    by simp
  show ?thesis
    by (intro conjI) (fact h1 h2 h4 h5 h6 c1 c2 c3 c4 k1 k2 k3 c5 k4 c6 k5 c7 k6 c8 o1 c9)+
qed
section \<open>C3: which list responses are accepted\<close>

lemma listResult_Inr_iff:
  "(\<exists>files. listResult r = Inr files) \<longleftrightarrow>
     (\<exists>b. rs_body r = Parsed b \<and>
        ((\<exists>fs. lb_files b = FilesArray fs) \<or>
         (rs_ok r \<and> lb_success b \<and> lb_files b = FilesFalsy)))"
  by (auto simp: listResult_def split: body.splits files_field.splits)

text \<open>
  C3, as the code has it. A list response is accepted exactly when its body parses as
  JSON and either holds an array of files (empty or not; the HTTP status and the
  \<^verbatim>\<open>success\<close> flag do not matter then), or the HTTP status is OK, \<^verbatim>\<open>success\<close>
  is true and \<^verbatim>\<open>files\<close> is absent. An accepted response with an array replaces the
  existing files by the array and reports them; a response that is not accepted leaves
  the existing files alone and reports nothing.
\<close>

theorem C3_list_response_accepted:
  assumes "isCloudFlowConfigured cfg" and "listOutcome en = Replied r"
  shows "((\<exists>files. listResult r = Inr files) \<longleftrightarrow>
           (\<exists>b. rs_body r = Parsed b \<and>
              ((\<exists>fs. lb_files b = FilesArray fs) \<or>
               (rs_ok r \<and> lb_success b \<and> lb_files b = FilesFalsy)))) \<and>
         (\<forall>b fs. rs_body r = Parsed b \<and> lb_files b = FilesArray fs \<longrightarrow>
            existingFiles (loadExistingFiles cfg en st) = map toExisting fs \<and>
            events (loadExistingFiles cfg en st) =
              events st @ [noEvent\<lparr>ev_existingFiles := Some (map toExisting fs)\<rparr>]) \<and>
         ((\<forall>files. listResult r \<noteq> Inr files) \<longrightarrow>
            existingFiles (loadExistingFiles cfg en st) = existingFiles st \<and>
            events (loadExistingFiles cfg en st) = events st)"
proof (intro conjI allI impI)
  show "(\<exists>files. listResult r = Inr files) \<longleftrightarrow>
           (\<exists>b. rs_body r = Parsed b \<and>
              ((\<exists>fs. lb_files b = FilesArray fs) \<or>
               (rs_ok r \<and> lb_success b \<and> lb_files b = FilesFalsy)))"
    by (rule listResult_Inr_iff)
next
  fix b fs assume h: "rs_body r = Parsed b \<and> lb_files b = FilesArray fs"
  then have lr: "listResult r = Inr (map toExisting fs)"
    by (simp add: listResult_def)
  show "existingFiles (loadExistingFiles cfg en st) = map toExisting fs"
    using assms lr by (simp add: loadExistingFiles_def receiveList_def emit_def)
  show "events (loadExistingFiles cfg en st) =
              events st @ [noEvent\<lparr>ev_existingFiles := Some (map toExisting fs)\<rparr>]"
    using assms lr by (simp add: loadExistingFiles_def receiveList_def emit_def)
next
  assume h: "\<forall>files. listResult r \<noteq> Inr files"
  then obtain e where "listResult r = Inl e" by (cases "listResult r") auto
  then show "existingFiles (loadExistingFiles cfg en st) = existingFiles st"
    and "events (loadExistingFiles cfg en st) = events st"
    using assms by (simp_all add: loadExistingFiles_def receiveList_def)
qed

text \<open>
  A status 500 with an empty array of files is accepted: the existing files become the
  empty list and the event is sent.
\<close>

theorem C3_list_response_accepted_witness:
  "isCloudFlowConfigured remoteConfig \<and> listOutcome happyEnv = Replied emptyList500 \<and>
   existingFiles (loadExistingFiles remoteConfig happyEnv emptyState) = [] \<and>
   events (loadExistingFiles remoteConfig happyEnv emptyState) =
     [noEvent\<lparr>ev_existingFiles := Some []\<rparr>]"
  using C3_list_response_accepted [OF remoteConfig_configured, of happyEnv emptyList500 emptyState]
    remoteConfig_configured
  by (simp add: happyEnv_def emptyList500_def emptyState_def)

text \<open>
  The claim as stated fails: a response that says \<^verbatim>\<open>success = true\<close> under a status
  500 and carries no array of files is an error.
\<close>

theorem C3_success_flag_counterexample:
  "lb_success \<lparr>lb_success = True, lb_files = FilesFalsy, lb_error = None\<rparr> \<and>
   listResult successOnly500 = Inl ''List files failed: Internal Server Error'' \<and>
   existingFiles
     (loadExistingFiles remoteConfig (happyEnv\<lparr>listOutcome := Replied successOnly500\<rparr>)
        (emptyState\<lparr>existingFiles := [\<lparr>ex_name = ''old.pdf'', ex_size = 1, ex_url = [],
                                        ex_lastModified = []\<rparr>]\<rparr>)) =
     [\<lparr>ex_name = ''old.pdf'', ex_size = 1, ex_url = [], ex_lastModified = []\<rparr>]"
  using remoteConfig_configured
  by (simp add: listResult_def successOnly500_def truthy_def loadExistingFiles_def
      receiveList_def happyEnv_def emptyState_def)

section \<open>C4: the simulated progress\<close>

text \<open>
  C4, as the code has it. Whatever the random values, the counter of the simulation never
  exceeds 95, and the progress that the ticks write into a file in flight is the floor of
  the counter, at most 95. When \<^verbatim>\<open>uploadToCloudFlow\<close> returns, every entry named
  like a result has progress 100 if the result is a success and 0 if it is a failure
  (for several files, when no two files of the call share a name).
\<close>

theorem C4_progress:
  "foldl tick 0 rs \<le> 95 \<and>
   (rs \<noteq> [] \<longrightarrow>
      (\<forall>fs \<in> set (fileStates (runTicks n 0 rs st)).
         fname (fs_file fs) = n \<longrightarrow> fs_progress fs = \<lfloor>foldl tick 0 rs\<rfloor> \<and> fs_progress fs \<le> 95)) \<and>
   (uploadToCloudFlow cfg en files st = Inr (results, st') \<and>
    (buttonAllowMultipleFiles cfg \<longrightarrow> distinct (map fname files)) \<longrightarrow>
      (\<forall>r \<in> set results. \<forall>fs \<in> set (fileStates st').
         fname (fs_file fs) = ur_fileName r \<longrightarrow>
         fs_progress fs = (if ur_success r then 100 else 0)))"
proof (intro conjI impI ballI)
  show le: "foldl tick 0 rs \<le> 95" by (simp add: foldl_tick_le)
  {
    fix fs
    assume ne: "rs \<noteq> []" and m: "fs \<in> set (fileStates (runTicks n 0 rs st))"
      and nm: "fname (fs_file fs) = n"
    show p: "fs_progress fs = \<lfloor>foldl tick 0 rs\<rfloor>"
      by (rule runTicks_progress [OF ne m nm])
    from le have "\<lfloor>foldl tick 0 rs\<rfloor> \<le> 95" by linarith
    with p show "fs_progress fs \<le> 95" by simp
  }
  fix r fs
  assume u: "uploadToCloudFlow cfg en files st = Inr (results, st') \<and>
    (buttonAllowMultipleFiles cfg \<longrightarrow> distinct (map fname files))"
    and r: "r \<in> set results" and m: "fs \<in> set (fileStates st')"
    and nm: "fname (fs_file fs) = ur_fileName r"
  from u have ur: "uploadToCloudFlow cfg en files st = Inr (results, st')" by simp
  have conf: "isCloudFlowConfigured cfg" by (rule uploadToCloudFlow_configured [OF ur])
  show "fs_progress fs = (if ur_success r then 100 else 0)"
  proof (cases "buttonAllowMultipleFiles cfg")
    case True
    with u have d: "distinct (map fname files)" by simp
    let ?st0 = "markUploading files st"
    from ur uploadToCloudFlow_multi [OF conf True, of en files st]
    have res: "results = fst (uploadEach cfg en files [] ?st0)"
      and st': "st' = applyResults results (snd (uploadEach cfg en files [] ?st0))"
      by auto
    from res have names: "map ur_fileName results = map fname files"
      by (simp add: uploadEach_results comp_def)
    with d have dr: "distinct (map ur_fileName results)" by simp
    let ?G = "\<lambda>fs. foldl (\<lambda>a r. if fname (fs_file fs) = ur_fileName r
                              then applyUpdate (resultUpdate r) a else a) fs results"
    from m st' have "fs \<in> ?G ` set (fileStates (snd (uploadEach cfg en files [] ?st0)))"
      by (simp add: applyResults_fileStates)
    then obtain fs0 where
      fs: "fs = foldl (\<lambda>a r. if fname (fs_file fs0) = ur_fileName r
                              then applyUpdate (resultUpdate r) a else a) fs0 results"
      by blast
    have keep: "fs_file (foldl (\<lambda>a r. if k = ur_fileName r
                              then applyUpdate (resultUpdate r) a else a) a0 xs) = fs_file a0"
      for k a0 xs
      by (induction xs arbitrary: a0) auto
    from fs keep have "fname (fs_file fs0) = fname (fs_file fs)" by simp
    with nm have "fname (fs_file fs0) = ur_fileName r" by simp
    from foldl_results_distinct [OF dr r this] fs show ?thesis by simp
  next
    case False
    from ur False conf obtain f rest where fl: "files = f # rest"
      by (cases files) (simp_all add: uploadToCloudFlow_def Let_def)
    let ?res = "snd (attemptUpload cfg en f)"
    from ur fl uploadToCloudFlow_single [OF conf False, of en f rest st]
    have res: "results = [?res]"
      and st': "st' = updateFileState (fname f)
            (if ur_success ?res
             then noUpdate\<lparr>u_status := Some Completed, u_url := Some (Some (ur_url ?res)),
                           u_progress := Some 100\<rparr>
             else noUpdate\<lparr>u_status := Some Failed,
                           u_error := Some (map_option Message (ur_error ?res)),
                           u_progress := Some 0\<rparr>)
            ((if ur_success ?res
              then updateFileState (fname f) (noUpdate\<lparr>u_progress := Some 100\<rparr>)
              else (\<lambda>s. s))
               (simulateProgress en f (markUploading (f # rest) st)
                  \<lparr>requests := requests (simulateProgress en f (markUploading (f # rest) st)) @
                                fst (attemptUpload cfg en f)\<rparr>))"
      by auto
    from res r have rr: "r = ?res" by simp
    with nm have nf: "fname (fs_file fs) = fname f" by simp
    from m obtain fs0 where "fs = applyUpdate
            (if ur_success ?res
             then noUpdate\<lparr>u_status := Some Completed, u_url := Some (Some (ur_url ?res)),
                           u_progress := Some 100\<rparr>
             else noUpdate\<lparr>u_status := Some Failed,
                           u_error := Some (map_option Message (ur_error ?res)),
                           u_progress := Some 0\<rparr>) fs0"
      unfolding st' using nf by (auto simp: updateFileState_def)
    then show ?thesis
      unfolding rr by (cases "ur_success ?res") (simp_all add: applyUpdate_def noUpdate_def)
  qed
qed


text \<open>
  Two ticks of one half bring the progress to 15; after the upload of one file has
  succeeded its progress is 100.
\<close>

theorem C4_progress_witness:
  "[1 / 2, 1 / 2] \<noteq> ([] :: real list) \<and>
   list_all (\<lambda>fs. fname (fs_file fs) = ''a.pdf'' \<longrightarrow> fs_progress fs = 15)
     (fileStates (runTicks ''a.pdf'' 0 [1 / 2, 1 / 2] onePending)) \<and>
   uploadToCloudFlow remoteConfig happyEnv [pdfFile ''a.pdf'' 3] onePending =
     Inr (fst (uploadEach remoteConfig happyEnv [pdfFile ''a.pdf'' 3] []
                 (markUploading [pdfFile ''a.pdf'' 3] onePending)),
          applyResults
            (fst (uploadEach remoteConfig happyEnv [pdfFile ''a.pdf'' 3] []
                    (markUploading [pdfFile ''a.pdf'' 3] onePending)))
            (snd (uploadEach remoteConfig happyEnv [pdfFile ''a.pdf'' 3] []
                    (markUploading [pdfFile ''a.pdf'' 3] onePending)))) \<and>
   list_all (\<lambda>fs. fname (fs_file fs) = ''a.pdf'' \<longrightarrow> fs_progress fs = 100)
     (fileStates
        (applyResults
           (fst (uploadEach remoteConfig happyEnv [pdfFile ''a.pdf'' 3] []
                   (markUploading [pdfFile ''a.pdf'' 3] onePending)))
           (snd (uploadEach remoteConfig happyEnv [pdfFile ''a.pdf'' 3] []
                   (markUploading [pdfFile ''a.pdf'' 3] onePending)))))"
proof -
  let ?R = "fst (uploadEach remoteConfig happyEnv [pdfFile ''a.pdf'' 3] []
                 (markUploading [pdfFile ''a.pdf'' 3] onePending))"
  let ?S = "applyResults ?R
            (snd (uploadEach remoteConfig happyEnv [pdfFile ''a.pdf'' 3] []
                    (markUploading [pdfFile ''a.pdf'' 3] onePending)))"
  have m: "buttonAllowMultipleFiles remoteConfig" by (simp add: remoteConfig_def)
  have u: "uploadToCloudFlow remoteConfig happyEnv [pdfFile ''a.pdf'' 3] onePending = Inr (?R, ?S)"
    by (rule uploadToCloudFlow_multi [OF remoteConfig_configured m])
  have d: "buttonAllowMultipleFiles remoteConfig \<longrightarrow> distinct (map fname [pdfFile ''a.pdf'' 3])"
    by simp
  have ne: "[1 / 2, 1 / 2] \<noteq> ([] :: real list)" by simp
  have t: "foldl tick 0 [1 / 2, 1 / 2] = 15" by (simp add: tick_def)
  note th = C4_progress [of "[1 / 2, 1 / 2]" "''a.pdf''" onePending remoteConfig happyEnv
      "[pdfFile ''a.pdf'' 3]" ?R ?S]
  from th ne t have a: "\<forall>fs \<in> set (fileStates (runTicks ''a.pdf'' 0 [1 / 2, 1 / 2] onePending)).
      fname (fs_file fs) = ''a.pdf'' \<longrightarrow> fs_progress fs = 15"
    by simp
  have R: "?R = [\<lparr>ur_fileName = ''a.pdf'', ur_url = ''https://blob/f'', ur_success = True,
                  ur_error = None, ur_flowRunId = Some ''run1''\<rparr>]"
    by (simp add: uploadEach_results attempt_happy)
  from th u d have "\<forall>r \<in> set ?R. \<forall>fs \<in> set (fileStates ?S).
         fname (fs_file fs) = ur_fileName r \<longrightarrow>
         fs_progress fs = (if ur_success r then 100 else 0)"
    by blast
  then have b: "\<forall>fs \<in> set (fileStates ?S). fname (fs_file fs) = ''a.pdf'' \<longrightarrow> fs_progress fs = 100"
    unfolding R by simp
  from a have a': "list_all (\<lambda>fs. fname (fs_file fs) = ''a.pdf'' \<longrightarrow> fs_progress fs = 15)
     (fileStates (runTicks ''a.pdf'' 0 [1 / 2, 1 / 2] onePending))"
    by (simp add: list_all_iff)
  from b have b': "list_all (\<lambda>fs. fname (fs_file fs) = ''a.pdf'' \<longrightarrow> fs_progress fs = 100)
     (fileStates ?S)"
    by (simp add: list_all_iff)
  from ne a' u b' show ?thesis by blast
qed

text \<open>
  The claim as stated fails: the cap is reached. After seven ticks with the random value
  14/15 the file is still uploading and its progress is 95.
\<close>

theorem C4_reaches_95_counterexample:
  "map (\<lambda>fs. (fs_status fs, fs_progress fs))
     (fileStates (simulateProgress eagerEnv (pdfFile ''a.pdf'' 3)
                    (markUploading [pdfFile ''a.pdf'' 3] onePending))) =
     [(Uploading, 95)]"
proof -
  have t: "foldl tick 0 [14 / 15, 14 / 15, 14 / 15, 14 / 15, 14 / 15, 14 / 15, 14 / 15] = 95"
    by (simp add: tick_def)
  have p: "progressTicks eagerEnv (pdfFile ''a.pdf'' 3) =
             [14 / 15, 14 / 15, 14 / 15, 14 / 15, 14 / 15, 14 / 15, 14 / 15]"
    by (simp add: eagerEnv_def)
  show ?thesis
    unfolding simulateProgress_def p
    by (simp only: runTicks_fileStates t markUploading_onePending)
       (simp add: entry_def pdfFile_def applyUpdate_def noUpdate_def)
qed

section \<open>C5: the timeout of a flow invocation\<close>




section \<open>C6: processing with a bound record identity\<close>

text \<open>
  C6, as the code has it. With a record identity bound, a call of \<^verbatim>\<open>processFiles\<close>
  on a non-empty list that ends with the status completed leaves the cumulative batch as
  it was, reports the results of this call only (every name reported is the name of a file
  of the call), and leaves no entry in the list of files under a name it reported. When
  several files are allowed, or when the files went the local JSON way, the names reported
  are the names of all the files of the call, so none of them is left.
\<close>

theorem C6_bound_record:
  assumes bound: "\<not> recordUidEmpty cfg" and ne: "files \<noteq> []"
    and ok: "ev_uploadStatus (last (events (processFiles cfg en files st))) = Some StatusCompleted"
  shows "cumulativeFilesJSON (processFiles cfg en files st) = cumulativeFilesJSON st \<and>
     (\<exists>j. ev_filesJSON (last (events (processFiles cfg en files st))) = Some j \<and>
          set (reportedNames j) \<subseteq> fname ` set files \<and>
          (\<forall>fs \<in> set (fileStates (processFiles cfg en files st)).
             fname (fs_file fs) \<notin> set (reportedNames j)) \<and>
          (buttonAllowMultipleFiles cfg \<or> \<not> isCloudFlowConfigured cfg \<longrightarrow>
             reportedNames j = map fname files))"
proof (cases "isCloudFlowConfigured cfg")
  case True
  let ?st0 = "emit (noEvent\<lparr>ev_uploadStatus := Some InProgress\<rparr>) st"
  from uploadToCloudFlow_Inr [OF True ne, of en ?st0] obtain results st1 where
    u: "uploadToCloudFlow cfg en files ?st0 = Inr (results, st1)"
    and rne: "results \<noteq> []"
    and sub: "set (map ur_fileName results) \<subseteq> fname ` set files"
    and all: "buttonAllowMultipleFiles cfg \<longrightarrow> map ur_fileName results = map fname files"
    by blast
  note p = processFiles_remote [OF True ne u]
  from ok have nofail: "\<not> list_ex (\<lambda>res. \<not> ur_success res) results"
    unfolding p by (simp split: if_splits)
  then have allok: "\<forall>res \<in> set results. ur_success res" by (simp add: list_ex_iff)
  with rne have some: "list_ex ur_success results"
    by (cases results) (auto simp: list_ex_iff)
  from allok have fl: "filter ur_success results = results" by (simp add: filter_id_conv)
  have cum: "cumulativeFilesJSON (processFiles cfg en files st) = cumulativeFilesJSON st"
    unfolding p using uploadToCloudFlow_frame(3) [OF u] by simp
  have j: "ev_filesJSON (last (events (processFiles cfg en files st))) =
             Some (ResultsJSON (map toEntry results))"
    unfolding p by simp
  have rn: "reportedNames (ResultsJSON (map toEntry results)) = map ur_fileName results"
    by (simp add: toEntry_def comp_def)
  have gone: "\<forall>fs \<in> set (fileStates (processFiles cfg en files st)).
             fname (fs_file fs) \<notin> set (map ur_fileName results)"
    unfolding p using some fl by simp
  show ?thesis
  proof (intro conjI exI [of _ "ResultsJSON (map toEntry results)"] impI)
    show "cumulativeFilesJSON (processFiles cfg en files st) = cumulativeFilesJSON st" by (rule cum)
    show "ev_filesJSON (last (events (processFiles cfg en files st))) =
             Some (ResultsJSON (map toEntry results))" by (rule j)
    show "set (reportedNames (ResultsJSON (map toEntry results))) \<subseteq> fname ` set files"
      unfolding rn by (rule sub)
    show "\<forall>fs \<in> set (fileStates (processFiles cfg en files st)).
             fname (fs_file fs) \<notin> set (reportedNames (ResultsJSON (map toEntry results)))"
      unfolding rn by (rule gone)
    show "reportedNames (ResultsJSON (map toEntry results)) = map fname files"
      if "buttonAllowMultipleFiles cfg \<or> \<not> isCloudFlowConfigured cfg"
      unfolding rn using that True all by simp
  qed
next
  case False
  show ?thesis
  proof (cases "processFilesAsJSON en files")
    case (Inl msg)
    with False ne have "ev_uploadStatus (last (events (processFiles cfg en files st))) =
                          Some StatusFailed"
      by (simp add: processFiles_def processFailed_def)
    with ok show ?thesis by simp
  next
    case (Inr batch)
    from processFilesAsJSON_names [OF Inr] have n: "map jf_name batch = map fname files" .
    have cum: "cumulativeFilesJSON (processFiles cfg en files st) = cumulativeFilesJSON st"
      using False ne Inr bound by (simp add: processFiles_def Let_def)
    have j: "ev_filesJSON (last (events (processFiles cfg en files st))) = Some (BatchJSON batch)"
      using False ne Inr bound by (simp add: processFiles_def Let_def)
    have gone: "\<forall>fs \<in> set (fileStates (processFiles cfg en files st)).
             fname (fs_file fs) \<notin> fname ` set files"
      using False ne Inr bound by (simp add: processFiles_def Let_def)
    show ?thesis
    proof (intro conjI exI [of _ "BatchJSON batch"] impI)
      show "cumulativeFilesJSON (processFiles cfg en files st) = cumulativeFilesJSON st"
        by (rule cum)
      show "ev_filesJSON (last (events (processFiles cfg en files st))) = Some (BatchJSON batch)"
        by (rule j)
      show "set (reportedNames (BatchJSON batch)) \<subseteq> fname ` set files"
        using n by simp
      show "\<forall>fs \<in> set (fileStates (processFiles cfg en files st)).
             fname (fs_file fs) \<notin> set (reportedNames (BatchJSON batch))"
        using gone n by simp
      show "reportedNames (BatchJSON batch) = map fname files" using n by simp
    qed
  qed
qed


text \<open>One pending file uploaded with several files allowed: nothing of it is left.\<close>

theorem C6_bound_record_witness:
  "\<not> recordUidEmpty remoteConfig \<and> [pdfFile ''a.pdf'' 3] \<noteq> [] \<and>
   ev_uploadStatus (last (events (processFiles remoteConfig happyEnv [pdfFile ''a.pdf'' 3]
                                    onePending))) = Some StatusCompleted \<and>
   cumulativeFilesJSON (processFiles remoteConfig happyEnv [pdfFile ''a.pdf'' 3] onePending) = [] \<and>
   list_all (\<lambda>fs. fname (fs_file fs) \<noteq> ''a.pdf'')
     (fileStates (processFiles remoteConfig happyEnv [pdfFile ''a.pdf'' 3] onePending))"
proof -
  let ?files = "[pdfFile ''a.pdf'' 3]"
  let ?st0 = "emit (noEvent\<lparr>ev_uploadStatus := Some InProgress\<rparr>) onePending"
  let ?res = "\<lparr>ur_fileName = ''a.pdf'', ur_url = ''https://blob/f'', ur_success = True,
            ur_error = None, ur_flowRunId = Some ''run1''\<rparr>"
  have ne: "?files \<noteq> []" by simp
  have m: "buttonAllowMultipleFiles remoteConfig" by (simp add: remoteConfig_def)
  have R: "fst (uploadEach remoteConfig happyEnv ?files [] (markUploading ?files ?st0)) = [?res]"
    by (simp add: uploadEach_results attempt_happy)
  from uploadToCloudFlow_multi [OF remoteConfig_configured m, of happyEnv ?files ?st0]
  obtain st1 where u: "uploadToCloudFlow remoteConfig happyEnv ?files ?st0 = Inr ([?res], st1)"
    unfolding R by blast
  note p = processFiles_remote [OF remoteConfig_configured ne u]
  have ok: "ev_uploadStatus (last (events (processFiles remoteConfig happyEnv ?files onePending))) =
             Some StatusCompleted"
    unfolding p by simp
  have c: "cumulativeFilesJSON onePending = []" by (simp add: onePending_def emptyState_def)
  from C6_bound_record [OF remoteConfig_bound ne ok] c m
  have "cumulativeFilesJSON (processFiles remoteConfig happyEnv ?files onePending) = [] \<and>
        (\<forall>fs \<in> set (fileStates (processFiles remoteConfig happyEnv ?files onePending)).
           fname (fs_file fs) \<notin> set (map fname ?files))"
    by auto
  then have "cumulativeFilesJSON (processFiles remoteConfig happyEnv ?files onePending) = []"
    and "list_all (\<lambda>fs. fname (fs_file fs) \<noteq> ''a.pdf'')
           (fileStates (processFiles remoteConfig happyEnv ?files onePending))"
    by (simp_all add: list_all_iff)
  with remoteConfig_bound ne ok show ?thesis by blast
qed

text \<open>
  The claim as stated fails when several files are not allowed: of two pending files the
  first is uploaded and reported, the call ends with the status completed, and the second
  file is still in the list, as uploading.
\<close>

theorem C6_single_mode_counterexample:
  "\<not> recordUidEmpty singleConfig \<and>
   ev_uploadStatus
     (last (events (processFiles singleConfig happyEnv [pdfFile ''a.pdf'' 3, pdfFile ''b.pdf'' 4]
                      twoPending))) = Some StatusCompleted \<and>
   map (\<lambda>fs. (fname (fs_file fs), fs_status fs))
     (fileStates (processFiles singleConfig happyEnv [pdfFile ''a.pdf'' 3, pdfFile ''b.pdf'' 4]
                    twoPending)) = [(''b.pdf'', Uploading)]"
proof -
  let ?files = "[pdfFile ''a.pdf'' 3, pdfFile ''b.pdf'' 4]"
  let ?st0 = "emit (noEvent\<lparr>ev_uploadStatus := Some InProgress\<rparr>) twoPending"
  let ?res = "\<lparr>ur_fileName = ''a.pdf'', ur_url = ''https://blob/f'', ur_success = True,
            ur_error = None, ur_flowRunId = Some ''run1''\<rparr>"
  from upload_two_single [of ?st0] obtain st1 where
    u: "uploadToCloudFlow singleConfig happyEnv ?files ?st0 = Inr ([?res], st1)"
    and m: "map (\<lambda>fs. (fname (fs_file fs), fs_status fs, fs_progress fs)) (fileStates st1) =
          [(''a.pdf'', Completed, 100), (''b.pdf'', Uploading, 0)]"
    by auto
  have ne: "?files \<noteq> []" by simp
  note p = processFiles_remote [OF singleConfig_configured ne u]
  have s: "ev_uploadStatus (last (events (processFiles singleConfig happyEnv ?files twoPending))) =
             Some StatusCompleted"
    unfolding p by simp
  from m obtain e1 e2 where l: "fileStates st1 = [e1, e2]"
    and e1: "fname (fs_file e1) = ''a.pdf''"
    and e2: "fname (fs_file e2) = ''b.pdf''" "fs_status e2 = Uploading"
    by (auto simp: map_eq_Cons_conv)
  have f: "map (\<lambda>fs. (fname (fs_file fs), fs_status fs))
     (fileStates (processFiles singleConfig happyEnv ?files twoPending)) = [(''b.pdf'', Uploading)]"
    unfolding p by (simp add: l e1 e2)
  from singleConfig_bound s f show ?thesis by blast
qed

section \<open>C7: the cumulative batch without a record identity\<close>

lemma recordUidEmpty_not_configured: "recordUidEmpty cfg \<Longrightarrow> \<not> isCloudFlowConfigured cfg"
  by (auto simp: recordUidEmpty_def isCloudFlowConfigured_def)

lemma processFiles_local_cumulative:
  assumes "recordUidEmpty cfg" and "\<forall>f \<in> set files. \<exists>c. readOutcome en f = ReadOk c"
  shows "\<exists>batch. map jf_name batch = map fname files \<and>
           cumulativeFilesJSON (processFiles cfg en files st) = cumulativeFilesJSON st @ batch"
proof (cases "files = []")
  case True
  then show ?thesis by (simp add: processFiles_def)
next
  case False
  from processFilesAsJSON_ok [OF assms(2)] obtain batch where
    b: "processFilesAsJSON en files = Inr batch" "map jf_name batch = map fname files"
    by blast
  have "cumulativeFilesJSON (processFiles cfg en files st) = cumulativeFilesJSON st @ batch"
    using False b assms(1) recordUidEmpty_not_configured [OF assms(1)]
    by (simp add: processFiles_def Let_def)
  with b show ?thesis by blast
qed

lemma handleDeleteExistingFile_cumulative:
  "cumulativeFilesJSON (handleDeleteExistingFile cfg en n st) = cumulativeFilesJSON st"
  by (simp add: handleDeleteExistingFile_def Let_def
      split: fetch_outcome.splits body.splits)

lemma step_cumulative:
  assumes "\<not> prefix (cumulativeFilesJSON s) (cumulativeFilesJSON (step cfg en a s))"
  shows "a = ClearNewFiles \<or> (\<exists>n. a = RemoveFile n) \<or> a = ContextChange"
proof (cases a)
  case (AddFiles x1)
  with assms show ?thesis by (simp add: addFilesToState_def)
next
  case (ProcessFiles x4)
  with assms processFiles_cumulative show ?thesis by simp
next
  case UploadAll
  with assms processFiles_cumulative show ?thesis
    by (auto simp: handleUploadAll_def Let_def split: if_splits)
next
  case LoadExisting
  with assms show ?thesis by simp
next
  case (DeleteExisting x7)
  with assms show ?thesis by (simp add: handleDeleteExistingFile_cumulative)
qed simp_all

text \<open>
  C7. Without a record identity, two calls of \<^verbatim>\<open>processFiles\<close> one after the other,
  each on files that can all be read, leave a cumulative batch with one more entry for
  each file of both calls, in order and under the names of the files; from an empty
  batch its length is the number of files of both calls. Of all the operations of the
  component, only \<^verbatim>\<open>clearNewFiles\<close>, \<^verbatim>\<open>removeFile\<close> and a change of context
  can yield a cumulative batch that does not begin with the one before.
\<close>

theorem C7_cumulative_batch:
  assumes "recordUidEmpty cfg"
    and "\<forall>f \<in> set files1. \<exists>c. readOutcome en1 f = ReadOk c"
    and "\<forall>f \<in> set files2. \<exists>c. readOutcome en2 f = ReadOk c"
  shows "length (cumulativeFilesJSON
                   (processFiles cfg en2 files2 (processFiles cfg en1 files1 st))) =
           length (cumulativeFilesJSON st) + length files1 + length files2 \<and>
         map jf_name (cumulativeFilesJSON
                        (processFiles cfg en2 files2 (processFiles cfg en1 files1 st))) =
           map jf_name (cumulativeFilesJSON st) @ map fname files1 @ map fname files2 \<and>
         (\<forall>cfg' en' a s.
            \<not> prefix (cumulativeFilesJSON s) (cumulativeFilesJSON (step cfg' en' a s)) \<longrightarrow>
            a = ClearNewFiles \<or> (\<exists>n. a = RemoveFile n) \<or> a = ContextChange)"
proof -
  from processFiles_local_cumulative [OF assms(1,2), of st] obtain b1 where
    b1: "map jf_name b1 = map fname files1"
        "cumulativeFilesJSON (processFiles cfg en1 files1 st) = cumulativeFilesJSON st @ b1"
    by blast
  from processFiles_local_cumulative [OF assms(1,3), of "processFiles cfg en1 files1 st"]
  obtain b2 where
    b2: "map jf_name b2 = map fname files2"
        "cumulativeFilesJSON (processFiles cfg en2 files2 (processFiles cfg en1 files1 st)) =
           cumulativeFilesJSON (processFiles cfg en1 files1 st) @ b2"
    by blast
  have names: "map jf_name (cumulativeFilesJSON
                        (processFiles cfg en2 files2 (processFiles cfg en1 files1 st))) =
           map jf_name (cumulativeFilesJSON st) @ map fname files1 @ map fname files2"
    using b1 b2 by simp
  have "length (map jf_name (cumulativeFilesJSON
                   (processFiles cfg en2 files2 (processFiles cfg en1 files1 st)))) =
        length (map jf_name (cumulativeFilesJSON st) @ map fname files1 @ map fname files2)"
    by (simp only: names)
  then have len: "length (cumulativeFilesJSON
                   (processFiles cfg en2 files2 (processFiles cfg en1 files1 st))) =
           length (cumulativeFilesJSON st) + length files1 + length files2"
    by simp
  from len names step_cumulative show ?thesis by blast
qed

text \<open>One file, then two files, from the empty state: three entries.\<close>

theorem C7_cumulative_batch_witness:
  "recordUidEmpty localConfig \<and>
   list_all (\<lambda>f. readOutcome happyEnv f = ReadOk ''data:application/pdf;base64,QUJD'')
     [pdfFile ''a.pdf'' 3, pdfFile ''b.pdf'' 4, pdfFile ''c.pdf'' 5] \<and>
   length (cumulativeFilesJSON
             (processFiles localConfig happyEnv [pdfFile ''b.pdf'' 4, pdfFile ''c.pdf'' 5]
                (processFiles localConfig happyEnv [pdfFile ''a.pdf'' 3] emptyState))) = 3"
proof -
  have r: "recordUidEmpty localConfig"
    by (simp add: recordUidEmpty_def localConfig_def truthy_def)
  have r1: "\<forall>f \<in> set [pdfFile ''a.pdf'' 3]. \<exists>c. readOutcome happyEnv f = ReadOk c"
    by (simp add: happyEnv_def)
  have r2: "\<forall>f \<in> set [pdfFile ''b.pdf'' 4, pdfFile ''c.pdf'' 5].
              \<exists>c. readOutcome happyEnv f = ReadOk c"
    by (simp add: happyEnv_def)
  have e: "cumulativeFilesJSON emptyState = []" by (simp add: emptyState_def)
  from C7_cumulative_batch [OF r r1 r2, of emptyState] e
  have "length (cumulativeFilesJSON
             (processFiles localConfig happyEnv [pdfFile ''b.pdf'' 4, pdfFile ''c.pdf'' 5]
                (processFiles localConfig happyEnv [pdfFile ''a.pdf'' 3] emptyState))) = 3"
    by simp
  moreover have "list_all (\<lambda>f. readOutcome happyEnv f = ReadOk ''data:application/pdf;base64,QUJD'')
     [pdfFile ''a.pdf'' 3, pdfFile ''b.pdf'' 4, pdfFile ''c.pdf'' 5]"
    by (simp add: happyEnv_def)
  ultimately show ?thesis using r by blast
qed

section \<open>C8: which files removeFile removes\<close>

text \<open>
  C8. \<^verbatim>\<open>removeFile\<close> has no branch that throws: it is a total function on states.
  When the entry found under the name is uploading, completed or failed, the state comes
  back as it was. When the list of files changes, the entry found under the name was
  pending or invalid, and the list is the old one without the entries of that name. When
  names are unique in the list, every entry that disappears has the name given and was
  pending or invalid.
\<close>

theorem C8_removeFile:
  "(\<forall>fs. find (\<lambda>fs. fname (fs_file fs) = fileName) (fileStates st) = Some fs \<and>
         fs_status fs \<in> {Uploading, Completed, Failed} \<longrightarrow>
         removeFile cfg fileName st = st) \<and>
   (fileStates (removeFile cfg fileName st) \<noteq> fileStates st \<longrightarrow>
      (\<exists>fs. find (\<lambda>fs. fname (fs_file fs) = fileName) (fileStates st) = Some fs \<and>
            fs_status fs \<in> {Pending, Invalid}) \<and>
      fileStates (removeFile cfg fileName st) =
        filter (\<lambda>fs. fname (fs_file fs) \<noteq> fileName) (fileStates st)) \<and>
   (distinct (map (\<lambda>fs. fname (fs_file fs)) (fileStates st)) \<longrightarrow>
      (\<forall>fs \<in> set (fileStates st). fs \<notin> set (fileStates (removeFile cfg fileName st)) \<longrightarrow>
         fname (fs_file fs) = fileName \<and> fs_status fs \<in> {Pending, Invalid}))"
proof (intro conjI allI impI ballI)
  fix fs
  assume "find (\<lambda>fs. fname (fs_file fs) = fileName) (fileStates st) = Some fs \<and>
         fs_status fs \<in> {Uploading, Completed, Failed}"
  then show "removeFile cfg fileName st = st"
    by (auto simp: removeFile_def)
next
  assume ch: "fileStates (removeFile cfg fileName st) \<noteq> fileStates st"
  show "fileStates (removeFile cfg fileName st) =
        filter (\<lambda>fs. fname (fs_file fs) \<noteq> fileName) (fileStates st)"
    using ch by (auto simp: removeFile_def Let_def emit_def split: if_splits option.splits)
  have nf: "find (\<lambda>fs. fname (fs_file fs) = fileName) (fileStates st) \<noteq> None"
  proof
    assume n: "find (\<lambda>fs. fname (fs_file fs) = fileName) (fileStates st) = None"
    then have "filter (\<lambda>fs. fname (fs_file fs) \<noteq> fileName) (fileStates st) = fileStates st"
      by (auto simp: find_None_iff filter_id_conv)
    with n ch show False
      by (auto simp: removeFile_def Let_def emit_def split: if_splits)
  qed
  then obtain fs where f: "find (\<lambda>fs. fname (fs_file fs) = fileName) (fileStates st) = Some fs"
    by auto
  with ch have "fs_status fs \<noteq> Uploading \<and> fs_status fs \<noteq> Completed \<and> fs_status fs \<noteq> Failed"
    by (auto simp: removeFile_def Let_def split: if_splits)
  with status_cases [of "fs_status fs"] have "fs_status fs \<in> {Pending, Invalid}" by auto
  with f show "\<exists>fs. find (\<lambda>fs. fname (fs_file fs) = fileName) (fileStates st) = Some fs \<and>
            fs_status fs \<in> {Pending, Invalid}" by blast
next
  fix fs
  assume d: "distinct (map (\<lambda>fs. fname (fs_file fs)) (fileStates st))"
    and m: "fs \<in> set (fileStates st)"
    and r: "fs \<notin> set (fileStates (removeFile cfg fileName st))"
  from m r have ch: "fileStates (removeFile cfg fileName st) \<noteq> fileStates st" by auto
  then have eq: "fileStates (removeFile cfg fileName st) =
        filter (\<lambda>fs. fname (fs_file fs) \<noteq> fileName) (fileStates st)"
    by (auto simp: removeFile_def Let_def emit_def split: if_splits option.splits)
  with m r have n: "fname (fs_file fs) = fileName" by auto
  with find_distinct_name [OF d m]
  have f: "find (\<lambda>fs. fname (fs_file fs) = fileName) (fileStates st) = Some fs"
    by simp
  with ch have "fs_status fs \<noteq> Uploading \<and> fs_status fs \<noteq> Completed \<and> fs_status fs \<noteq> Failed"
    by (auto simp: removeFile_def Let_def split: if_splits)
  with status_cases [of "fs_status fs"] have "fs_status fs \<in> {Pending, Invalid}" by auto
  then show "fs_status fs \<in> {Pending, Invalid}" .
  from n show "fname (fs_file fs) = fileName" .
qed

text \<open>
  The completed file stays and the state is untouched; the pending file goes, and only
  it.
\<close>

theorem C8_removeFile_witness:
  "find (\<lambda>fs. fname (fs_file fs) = ''b.pdf'') (fileStates pendingAndCompleted) =
     Some (entry (pdfFile ''b.pdf'' 4) Completed) \<and>
   removeFile remoteConfig ''b.pdf'' pendingAndCompleted = pendingAndCompleted \<and>
   distinct (map (\<lambda>fs. fname (fs_file fs)) (fileStates pendingAndCompleted)) \<and>
   fileStates (removeFile remoteConfig ''a.pdf'' pendingAndCompleted) \<noteq>
     fileStates pendingAndCompleted \<and>
   fileStates (removeFile remoteConfig ''a.pdf'' pendingAndCompleted) =
     [entry (pdfFile ''b.pdf'' 4) Completed]"
proof -
  have f: "find (\<lambda>fs. fname (fs_file fs) = ''b.pdf'') (fileStates pendingAndCompleted) =
     Some (entry (pdfFile ''b.pdf'' 4) Completed)"
    by (simp add: pendingAndCompleted_def emptyState_def entry_def pdfFile_def)
  have s: "fs_status (entry (pdfFile ''b.pdf'' 4) Completed) \<in> {Uploading, Completed, Failed}"
    by (simp add: entry_def)
  from C8_removeFile [of "''b.pdf''" pendingAndCompleted remoteConfig] f s
  have r: "removeFile remoteConfig ''b.pdf'' pendingAndCompleted = pendingAndCompleted"
    by blast
  have d: "distinct (map (\<lambda>fs. fname (fs_file fs)) (fileStates pendingAndCompleted))"
    by (simp add: pendingAndCompleted_def emptyState_def entry_def pdfFile_def)
  have fa: "find (\<lambda>fs. fname (fs_file fs) = ''a.pdf'') (fileStates pendingAndCompleted) =
     Some (entry (pdfFile ''a.pdf'' 3) Pending)"
    by (simp add: pendingAndCompleted_def emptyState_def entry_def pdfFile_def)
  have e: "fileStates (removeFile remoteConfig ''a.pdf'' pendingAndCompleted) =
     filter (\<lambda>fs. fname (fs_file fs) \<noteq> ''a.pdf'') (fileStates pendingAndCompleted)"
    by (simp add: removeFile_def fa Let_def entry_def)
  have l: "filter (\<lambda>fs. fname (fs_file fs) \<noteq> ''a.pdf'') (fileStates pendingAndCompleted) =
     [entry (pdfFile ''b.pdf'' 4) Completed]"
    by (simp add: pendingAndCompleted_def emptyState_def entry_def pdfFile_def)
  have n: "fileStates pendingAndCompleted \<noteq> [entry (pdfFile ''b.pdf'' 4) Completed]"
    by (simp add: pendingAndCompleted_def emptyState_def)
  from f r d e l n show ?thesis by simp
qed

section \<open>C9: without a remote configuration the files go the local JSON way\<close>

lemma not_configured:
  assumes "\<not> truthy (cloudFlowUploadUrl cfg) \<or> \<not> truthy (cloudFlowListFilesUrl cfg) \<or>
           \<not> truthy (cloudFlowDeleteUrl cfg) \<or> \<not> truthy (cloudFlowDownloadUrl cfg) \<or>
           \<not> truthy (containerPath cfg) \<or> \<not> truthy (recordUid cfg)"
  shows "\<not> isCloudFlowConfigured cfg"
  using assms by (auto simp: isCloudFlowConfigured_def)

text \<open>
  C9. When one of the upload, list, delete or download addresses, the container path or
  the record identity is absent or empty, \<^verbatim>\<open>isCloudFlowConfigured\<close> is false, and
  \<^verbatim>\<open>processFiles\<close>, given files that can all be read, sends no request, sets every
  entry named like one of the files to completed with progress 100, and emits the batch
  as JSON with the status completed (the cumulative batch without a record identity, the
  current one otherwise). With a record identity the entries so marked are then taken out
  of the list.
\<close>

theorem C9_local_json_mode:
  assumes missing:
      "\<not> truthy (cloudFlowUploadUrl cfg) \<or> \<not> truthy (cloudFlowListFilesUrl cfg) \<or>
       \<not> truthy (cloudFlowDeleteUrl cfg) \<or> \<not> truthy (cloudFlowDownloadUrl cfg) \<or>
       \<not> truthy (containerPath cfg) \<or> \<not> truthy (recordUid cfg)"
    and reads: "\<forall>f \<in> set files. \<exists>c. readOutcome en f = ReadOk c"
    and nonempty: "files \<noteq> []"
  shows "\<not> isCloudFlowConfigured cfg \<and>
         requests (processFiles cfg en files st) = requests st \<and>
         (\<forall>fs \<in> set (fileStates (processFiles cfg en files st)).
            fname (fs_file fs) \<in> fname ` set files \<longrightarrow>
            fs_status fs = Completed \<and> fs_progress fs = 100) \<and>
         (recordUidEmpty cfg \<longrightarrow>
            fileStates (processFiles cfg en files st) =
              map (\<lambda>fs. if fname (fs_file fs) \<in> fname ` set files
                         then applyUpdate (noUpdate\<lparr>u_status := Some Completed, u_progress := Some 100\<rparr>) fs else fs)
                (fileStates st)) \<and>
         (\<not> recordUidEmpty cfg \<longrightarrow>
            fileStates (processFiles cfg en files st) =
              filter (\<lambda>fs. fname (fs_file fs) \<notin> fname ` set files)
                (map (\<lambda>fs. if fname (fs_file fs) \<in> fname ` set files
                           then applyUpdate (noUpdate\<lparr>u_status := Some Completed, u_progress := Some 100\<rparr>) fs else fs)
                   (fileStates st))) \<and>
         (\<exists>batch. processFilesAsJSON en files = Inr batch \<and>
            map jf_name batch = map fname files \<and>
            map jf_size batch = map fsize files \<and>
            events (processFiles cfg en files st) =
              events st @
              [noEvent\<lparr>ev_filesJSON :=
                          Some (BatchJSON (if recordUidEmpty cfg
                                           then cumulativeFilesJSON st @ batch else batch)),
                        ev_uploadStatus := Some StatusCompleted\<rparr>])"
proof -
  have nc: "\<not> isCloudFlowConfigured cfg" by (rule not_configured [OF missing])
  obtain batch where b: "processFilesAsJSON en files = Inr batch"
    "map jf_name batch = map fname files" "map jf_size batch = map fsize files"
    using processFilesAsJSON_ok [OF reads] by blast
  have fsts: "fileStates (foldl (\<lambda>s f. updateFileState (fname f) (noUpdate\<lparr>u_status := Some Completed, u_progress := Some 100\<rparr>) s) st files) =
      map (\<lambda>fs. if fname (fs_file fs) \<in> fname ` set files
                         then applyUpdate (noUpdate\<lparr>u_status := Some Completed, u_progress := Some 100\<rparr>) fs else fs) (fileStates st)"
    by (rule foldl_update_fileStates)
  have upd: "fs_status (applyUpdate (noUpdate\<lparr>u_status := Some Completed, u_progress := Some 100\<rparr>) fs) = Completed \<and>
              fs_progress (applyUpdate (noUpdate\<lparr>u_status := Some Completed, u_progress := Some 100\<rparr>) fs) = 100" for fs
    by (simp add: applyUpdate_def noUpdate_def)
  have 1: "requests (processFiles cfg en files st) = requests st"
    using nc b nonempty by (simp add: processFiles_def Let_def)
  have 2: "\<forall>fs \<in> set (fileStates (processFiles cfg en files st)).
            fname (fs_file fs) \<in> fname ` set files \<longrightarrow>
            fs_status fs = Completed \<and> fs_progress fs = 100"
    using nc b nonempty fsts upd
    by (auto simp: processFiles_def Let_def)
  have 3: "recordUidEmpty cfg \<longrightarrow>
            fileStates (processFiles cfg en files st) =
              map (\<lambda>fs. if fname (fs_file fs) \<in> fname ` set files
                         then applyUpdate (noUpdate\<lparr>u_status := Some Completed, u_progress := Some 100\<rparr>) fs else fs)
                (fileStates st)"
    using nc b nonempty fsts by (simp add: processFiles_def Let_def)
  have 5: "\<not> recordUidEmpty cfg \<longrightarrow>
            fileStates (processFiles cfg en files st) =
              filter (\<lambda>fs. fname (fs_file fs) \<notin> fname ` set files)
                (map (\<lambda>fs. if fname (fs_file fs) \<in> fname ` set files
                           then applyUpdate (noUpdate\<lparr>u_status := Some Completed, u_progress := Some 100\<rparr>) fs else fs)
                   (fileStates st))"
    using nc b nonempty fsts by (simp add: processFiles_def Let_def)
  have 4: "events (processFiles cfg en files st) =
              events st @
              [noEvent\<lparr>ev_filesJSON :=
                          Some (BatchJSON (if recordUidEmpty cfg
                                           then cumulativeFilesJSON st @ batch else batch)),
                        ev_uploadStatus := Some StatusCompleted\<rparr>]"
    using nc b nonempty by (simp add: processFiles_def Let_def)
  from nc 1 2 3 4 5 b show ?thesis by blast
qed

text \<open>The theorem at a configuration without an upload address, for one pending file.\<close>

theorem C9_local_json_mode_witness:
  "\<not> truthy (cloudFlowUploadUrl localConfig) \<and>
   readOutcome happyEnv (pdfFile ''a.pdf'' 3) = ReadOk ''data:application/pdf;base64,QUJD'' \<and>
   \<not> isCloudFlowConfigured localConfig \<and>
   requests (processFiles localConfig happyEnv [pdfFile ''a.pdf'' 3] onePending) = [] \<and>
   map (\<lambda>fs. (fs_status fs, fs_progress fs))
     (fileStates (processFiles localConfig happyEnv [pdfFile ''a.pdf'' 3] onePending)) =
     [(Completed, 100)]"
  using C9_local_json_mode [of localConfig "[pdfFile ''a.pdf'' 3]" happyEnv onePending]
  by (simp add: localConfig_def remoteConfig_def truthy_def happyEnv_def onePending_def
      emptyState_def entry_def pdfFile_def recordUidEmpty_def applyUpdate_def noUpdate_def)

section \<open>C10: several files with the selection of several files switched off\<close>

text \<open>
  C10. With the remote configuration in place, the selection of several files switched
  off and two or more files given, \<^verbatim>\<open>uploadToCloudFlow\<close> first sets every entry
  named like one of the files to uploading with progress 0. It then returns exactly one
  result, the one of the first file; it sends at most one request, an upload request for
  the first file. In full: when the first file is read as a non-empty data URL, exactly
  one request is sent, to the upload address, without abort signal, carrying the name of
  the first file, the text after the first comma of its data URL, the container path, the
  combined folder path, its size and its type (or \<^verbatim>\<open>application/octet-stream\<close>
  when it has none); when the first file cannot be read, no request is sent and the
  result is a failure. When the endpoint answers OK with a body that reports success, the
  result is a success with the address and the run identifier of the body. The entries
  named like the first file end completed with progress 100 on success and failed with
  progress 0 otherwise. No entry is added or removed. Every entry named like one of the
  other files, and not like the first, is still uploading with progress 0 in the end.
\<close>

theorem C10_single_file_mode:
  assumes conf: "isCloudFlowConfigured cfg" and single: "\<not> buttonAllowMultipleFiles cfg"
    and two: "2 \<le> length files"
  shows "(\<forall>fs \<in> set (fileStates (markUploading files st)).
            fname (fs_file fs) \<in> fname ` set files \<longrightarrow>
            fs_status fs = Uploading \<and> fs_progress fs = 0) \<and>
         (\<exists>st'. uploadToCloudFlow cfg en files st =
                  Inr ([snd (attemptUpload cfg en (hd files))], st') \<and>
            ur_fileName (snd (attemptUpload cfg en (hd files))) = fname (hd files) \<and>
            requests st' = requests st @ fst (attemptUpload cfg en (hd files)) \<and>
            length (fst (attemptUpload cfg en (hd files))) \<le> 1 \<and>
            (\<forall>rq \<in> set (fst (attemptUpload cfg en (hd files))).
               \<exists>d. rq = uploadRequest cfg (hd files) d) \<and>
            (\<forall>fs \<in> set (fileStates st').
               fname (fs_file fs) \<in> fname ` set (tl files) \<and>
               fname (fs_file fs) \<noteq> fname (hd files) \<longrightarrow>
               fs_status fs = Uploading \<and> fs_progress fs = 0) \<and>
            (\<forall>d. readOutcome en (hd files) = ReadOk d \<and> d \<noteq> [] \<longrightarrow>
               requests st' = requests st @
                 [\<lparr>rq_url = orEmpty (cloudFlowUploadUrl cfg), rq_authorization = None,
                   rq_payload =
                     UploadPayload (fname (hd files)) (base64Part d) (orEmpty (containerPath cfg))
                       (getCombinedFolderPath cfg) (fsize (hd files))
                       (if ftype (hd files) = [] then ''application/octet-stream''
                        else ftype (hd files)),
                   rq_signal = None\<rparr>]) \<and>
            ((\<exists>m. readOutcome en (hd files) = ReadError m) \<or>
             readOutcome en (hd files) = ReadOk [] \<longrightarrow>
               requests st' = requests st \<and>
               \<not> ur_success (snd (attemptUpload cfg en (hd files)))) \<and>
            (\<forall>d r b. readOutcome en (hd files) = ReadOk d \<and> d \<noteq> [] \<and>
                     uploadOutcome en (hd files) = Replied r \<and> rs_ok r \<and>
                     rs_body r = Parsed b \<and> ub_success b \<longrightarrow>
               snd (attemptUpload cfg en (hd files)) =
                 \<lparr>ur_fileName = fname (hd files), ur_url = orEmpty (ub_url b),
                  ur_success = True, ur_error = None, ur_flowRunId = ub_flowRunId b\<rparr>) \<and>
            (\<forall>r. uploadOutcome en (hd files) = Replied r \<and> \<not> rs_ok r \<longrightarrow>
               \<not> ur_success (snd (attemptUpload cfg en (hd files)))) \<and>
            (\<forall>fs \<in> set (fileStates st').
               fname (fs_file fs) = fname (hd files) \<longrightarrow>
               fs_status fs =
                 (if ur_success (snd (attemptUpload cfg en (hd files))) then Completed
                  else Failed) \<and>
               fs_progress fs =
                 (if ur_success (snd (attemptUpload cfg en (hd files))) then 100 else 0)) \<and>
            map (\<lambda>fs. fname (fs_file fs)) (fileStates st') =
              map (\<lambda>fs. fname (fs_file fs)) (fileStates st))"
proof -
  from two obtain f rest where fl: "files = f # rest" by (cases files) auto
  then have hd: "hd files = f" by simp
  let ?res = "snd (attemptUpload cfg en f)"
  let ?u = "if ur_success ?res
             then noUpdate\<lparr>u_status := Some Completed, u_url := Some (Some (ur_url ?res)),
                           u_progress := Some 100\<rparr>
             else noUpdate\<lparr>u_status := Some Failed,
                           u_error := Some (map_option Message (ur_error ?res)),
                           u_progress := Some 0\<rparr>"
  let ?st2 = "simulateProgress en f (markUploading (f # rest) st)
                  \<lparr>requests := requests (simulateProgress en f (markUploading (f # rest) st)) @
                                fst (attemptUpload cfg en f)\<rparr>"
  let ?st' = "updateFileState (fname f) ?u
            ((if ur_success ?res
              then updateFileState (fname f) (noUpdate\<lparr>u_progress := Some 100\<rparr>)
              else (\<lambda>s. s)) ?st2)"
  have u: "uploadToCloudFlow cfg en files st = Inr ([?res], ?st')"
    unfolding fl by (rule uploadToCloudFlow_single [OF conf single])
  have rq: "requests ?st' = requests st @ fst (attemptUpload cfg en f)"
    by simp
  have others: "fs_status fs = Uploading \<and> fs_progress fs = 0"
    if m: "fs \<in> set (fileStates ?st')"
      and n: "fname (fs_file fs) \<in> fname ` set (tl files) \<and> fname (fs_file fs) \<noteq> fname (hd files)"
    for fs
  proof -
    from n fl have ne: "fname (fs_file fs) \<noteq> fname f" and inl: "fname (fs_file fs) \<in> fname ` set files"
      by auto
    from updateFileState_others [OF m ne]
    have "fs \<in> set (fileStates ?st2)"
      by (cases "ur_success ?res") (auto dest: updateFileState_others simp: ne)
    then have "fs \<in> set (fileStates (runTicks (fname f) 0 (progressTicks en f) (markUploading files st)))"
      by (simp add: simulateProgress_def fl)
    from runTicks_others [OF this ne] have "fs \<in> set (fileStates (markUploading files st))" .
    from markUploading_marked [OF this inl] show ?thesis .
  qed
  have first: "\<forall>fs \<in> set (fileStates (markUploading files st)).
            fname (fs_file fs) \<in> fname ` set files \<longrightarrow>
            fs_status fs = Uploading \<and> fs_progress fs = 0"
    using markUploading_marked by blast
  from attemptUpload_requests [of cfg en f]
  have len: "length (fst (attemptUpload cfg en (hd files))) \<le> 1"
    and pay: "\<forall>rq \<in> set (fst (attemptUpload cfg en (hd files))). \<exists>d. rq = uploadRequest cfg (hd files) d"
    by (simp_all add: fl)
  have nm: "ur_fileName (snd (attemptUpload cfg en (hd files))) = fname (hd files)" by simp
  have sent: "\<forall>d. readOutcome en (hd files) = ReadOk d \<and> d \<noteq> [] \<longrightarrow>
               requests ?st' = requests st @
                 [\<lparr>rq_url = orEmpty (cloudFlowUploadUrl cfg), rq_authorization = None,
                   rq_payload =
                     UploadPayload (fname (hd files)) (base64Part d) (orEmpty (containerPath cfg))
                       (getCombinedFolderPath cfg) (fsize (hd files))
                       (if ftype (hd files) = [] then ''application/octet-stream''
                        else ftype (hd files)),
                   rq_signal = None\<rparr>]"
    unfolding rq hd using attemptUpload_read [of en f _ cfg] by simp
  have unsent: "(\<exists>m. readOutcome en (hd files) = ReadError m) \<or>
             readOutcome en (hd files) = ReadOk [] \<longrightarrow>
               requests ?st' = requests st \<and>
               \<not> ur_success (snd (attemptUpload cfg en (hd files)))"
    unfolding rq hd using attemptUpload_unread [of en f cfg] by simp
  have ok: "\<forall>d r b. readOutcome en (hd files) = ReadOk d \<and> d \<noteq> [] \<and>
                     uploadOutcome en (hd files) = Replied r \<and> rs_ok r \<and>
                     rs_body r = Parsed b \<and> ub_success b \<longrightarrow>
               snd (attemptUpload cfg en (hd files)) =
                 \<lparr>ur_fileName = fname (hd files), ur_url = orEmpty (ub_url b),
                  ur_success = True, ur_error = None, ur_flowRunId = ub_flowRunId b\<rparr>"
    unfolding hd using attemptUpload_success [of en f _ _ _ cfg] by blast
  have refused: "\<forall>r. uploadOutcome en (hd files) = Replied r \<and> \<not> rs_ok r \<longrightarrow>
               \<not> ur_success (snd (attemptUpload cfg en (hd files)))"
    unfolding hd using attemptUpload_refused [of en f _ cfg] by blast
  have named: "fs_status fs = (if ur_success ?res then Completed else Failed) \<and>
               fs_progress fs = (if ur_success ?res then 100 else 0)"
    if m: "fs \<in> set (fileStates ?st')" and n: "fname (fs_file fs) = fname f" for fs
  proof -
    from updateFileState_named [OF m n] obtain fs0 where "fs = applyUpdate ?u fs0" ..
    then show ?thesis by (simp add: applyUpdate_def noUpdate_def)
  qed
  then have named': "\<forall>fs \<in> set (fileStates ?st').
               fname (fs_file fs) = fname (hd files) \<longrightarrow>
               fs_status fs =
                 (if ur_success (snd (attemptUpload cfg en (hd files))) then Completed
                  else Failed) \<and>
               fs_progress fs =
                 (if ur_success (snd (attemptUpload cfg en (hd files))) then 100 else 0)"
    unfolding hd by blast
  have names: "map (\<lambda>fs. fname (fs_file fs)) (fileStates ?st') =
              map (\<lambda>fs. fname (fs_file fs)) (fileStates st)"
    by (simp add: markUploading_def)
  have u': "uploadToCloudFlow cfg en files st = Inr ([snd (attemptUpload cfg en (hd files))], ?st')"
    using u unfolding hd .
  have rq': "requests ?st' = requests st @ fst (attemptUpload cfg en (hd files))"
    using rq unfolding hd .
  have others': "\<forall>fs \<in> set (fileStates ?st').
               fname (fs_file fs) \<in> fname ` set (tl files) \<and>
               fname (fs_file fs) \<noteq> fname (hd files) \<longrightarrow>
               fs_status fs = Uploading \<and> fs_progress fs = 0"
    using others by blast
  show ?thesis
    apply (rule conjI)
     apply (rule first)
    apply (rule exI [of _ ?st'])
    apply (intro conjI)
              apply (rule u')
             apply (rule nm)
            apply (rule rq')
           apply (rule len)
          apply (rule pay)
         apply (rule others')
        apply (rule sent)
       apply (rule unsent)
      apply (rule ok)
     apply (rule refused)
     apply (rule named')
    apply (rule names)
    done
qed

text \<open>
  Two pending files and an endpoint that reports success: one result, one request, which
  carries the first file, the first file completed, and the second file still uploading.
\<close>

theorem C10_single_file_mode_witness:
  "isCloudFlowConfigured singleConfig \<and> \<not> buttonAllowMultipleFiles singleConfig \<and>
   2 \<le> length [pdfFile ''a.pdf'' 3, pdfFile ''b.pdf'' 4] \<and>
   (\<exists>st'. uploadToCloudFlow singleConfig happyEnv [pdfFile ''a.pdf'' 3, pdfFile ''b.pdf'' 4]
            twoPending =
            Inr ([\<lparr>ur_fileName = ''a.pdf'', ur_url = ''https://blob/f'', ur_success = True,
                   ur_error = None, ur_flowRunId = Some ''run1''\<rparr>], st') \<and>
          requests st' =
            [\<lparr>rq_url = ''https://flow/upload'', rq_authorization = None,
              rq_payload = UploadPayload ''a.pdf'' (Some ''QUJD'') ''docs'' ''r1'' 3
                             ''application/pdf'',
              rq_signal = None\<rparr>] \<and>
          map (\<lambda>fs. fname (fs_file fs)) (fileStates st') = [''a.pdf'', ''b.pdf''] \<and>
          list_all (\<lambda>fs. if fname (fs_file fs) = ''a.pdf''
                          then fs_status fs = Completed \<and> fs_progress fs = 100
                          else fs_status fs = Uploading \<and> fs_progress fs = 0)
            (fileStates st'))"
proof -
  let ?a = "pdfFile ''a.pdf'' 3" and ?b = "pdfFile ''b.pdf'' 4"
  let ?d = "''data:application/pdf;base64,QUJD''"
  let ?res = "\<lparr>ur_fileName = ''a.pdf'', ur_url = ''https://blob/f'', ur_success = True,
               ur_error = None, ur_flowRunId = Some ''run1''\<rparr>"
  let ?rq = "\<lparr>rq_url = ''https://flow/upload'', rq_authorization = None,
              rq_payload = UploadPayload ''a.pdf'' (Some ''QUJD'') ''docs'' ''r1'' 3
                             ''application/pdf'',
              rq_signal = None\<rparr>"
  have two: "2 \<le> length [?a, ?b]" by simp
  have h: "hd [?a, ?b] = ?a" "tl [?a, ?b] = [?b]" by simp_all
  have rd: "readOutcome happyEnv ?a = ReadOk ?d \<and> ?d \<noteq> []" by (simp add: happyEnv_def)
  have up: "readOutcome happyEnv ?a = ReadOk ?d \<and> ?d \<noteq> [] \<and>
            uploadOutcome happyEnv ?a = Replied uploaded200 \<and> rs_ok uploaded200 \<and>
            rs_body uploaded200 =
              Parsed \<lparr>ub_success = True, ub_url = Some ''https://blob/f'', ub_error = None,
                       ub_flowRunId = Some ''run1''\<rparr> \<and>
            ub_success \<lparr>ub_success = True, ub_url = Some ''https://blob/f'', ub_error = None,
                        ub_flowRunId = Some ''run1''\<rparr>"
    by (simp add: happyEnv_def uploaded200_def)
  have b64: "base64Part ?d = Some ''QUJD''" by (simp add: base64Part_def)
  have cf: "orEmpty (cloudFlowUploadUrl singleConfig) = ''https://flow/upload''"
    "orEmpty (containerPath singleConfig) = ''docs''" "getCombinedFolderPath singleConfig = ''r1''"
    by (simp_all add: singleConfig_def remoteConfig_def orEmpty_def getCombinedFolderPath_def
        truthy_def)
  have st: "requests twoPending = []"
    "map (\<lambda>fs. fname (fs_file fs)) (fileStates twoPending) = [''a.pdf'', ''b.pdf'']"
    by (simp_all add: twoPending_def emptyState_def entry_def)
  from C10_single_file_mode [OF singleConfig_configured singleConfig_single two,
      of twoPending happyEnv, THEN conjunct2]
  obtain st' where
    u: "uploadToCloudFlow singleConfig happyEnv [?a, ?b] twoPending =
        Inr ([snd (attemptUpload singleConfig happyEnv (hd [?a, ?b]))], st')"
    and o: "\<forall>fs \<in> set (fileStates st').
               fname (fs_file fs) \<in> fname ` set (tl [?a, ?b]) \<and>
               fname (fs_file fs) \<noteq> fname (hd [?a, ?b]) \<longrightarrow>
               fs_status fs = Uploading \<and> fs_progress fs = 0"
    and s: "\<forall>d. readOutcome happyEnv (hd [?a, ?b]) = ReadOk d \<and> d \<noteq> [] \<longrightarrow>
               requests st' = requests twoPending @
                 [\<lparr>rq_url = orEmpty (cloudFlowUploadUrl singleConfig), rq_authorization = None,
                   rq_payload =
                     UploadPayload (fname (hd [?a, ?b])) (base64Part d)
                       (orEmpty (containerPath singleConfig))
                       (getCombinedFolderPath singleConfig) (fsize (hd [?a, ?b]))
                       (if ftype (hd [?a, ?b]) = [] then ''application/octet-stream''
                        else ftype (hd [?a, ?b])),
                   rq_signal = None\<rparr>]"
    and k: "\<forall>d r b. readOutcome happyEnv (hd [?a, ?b]) = ReadOk d \<and> d \<noteq> [] \<and>
                     uploadOutcome happyEnv (hd [?a, ?b]) = Replied r \<and> rs_ok r \<and>
                     rs_body r = Parsed b \<and> ub_success b \<longrightarrow>
               snd (attemptUpload singleConfig happyEnv (hd [?a, ?b])) =
                 \<lparr>ur_fileName = fname (hd [?a, ?b]), ur_url = orEmpty (ub_url b),
                  ur_success = True, ur_error = None, ur_flowRunId = ub_flowRunId b\<rparr>"
    and n: "\<forall>fs \<in> set (fileStates st').
               fname (fs_file fs) = fname (hd [?a, ?b]) \<longrightarrow>
               fs_status fs =
                 (if ur_success (snd (attemptUpload singleConfig happyEnv (hd [?a, ?b])))
                  then Completed else Failed) \<and>
               fs_progress fs =
                 (if ur_success (snd (attemptUpload singleConfig happyEnv (hd [?a, ?b])))
                  then 100 else 0)"
    and m: "map (\<lambda>fs. fname (fs_file fs)) (fileStates st') =
              map (\<lambda>fs. fname (fs_file fs)) (fileStates twoPending)"
    by blast
  from k [unfolded h, rule_format, OF up]
  have res: "snd (attemptUpload singleConfig happyEnv ?a) = ?res"
    by (simp add: orEmpty_def)
  from u have u': "uploadToCloudFlow singleConfig happyEnv [?a, ?b] twoPending = Inr ([?res], st')"
    unfolding h res .
  from s [unfolded h, rule_format, OF rd] have rq: "requests st' = [?rq]"
    by (simp add: b64 cf st)
  from m have m': "map (\<lambda>fs. fname (fs_file fs)) (fileStates st') = [''a.pdf'', ''b.pdf'']"
    unfolding st .
  have all: "list_all (\<lambda>fs. if fname (fs_file fs) = ''a.pdf''
                          then fs_status fs = Completed \<and> fs_progress fs = 100
                          else fs_status fs = Uploading \<and> fs_progress fs = 0)
            (fileStates st')"
    unfolding list_all_iff
  proof
    fix fs assume i: "fs \<in> set (fileStates st')"
    then have "fname (fs_file fs) \<in> set (map (\<lambda>fs. fname (fs_file fs)) (fileStates st'))"
      by simp
    then have c: "fname (fs_file fs) = ''a.pdf'' \<or> fname (fs_file fs) = ''b.pdf''"
      unfolding m' by simp
    show "if fname (fs_file fs) = ''a.pdf''
          then fs_status fs = Completed \<and> fs_progress fs = 100
          else fs_status fs = Uploading \<and> fs_progress fs = 0"
    proof (cases "fname (fs_file fs) = ''a.pdf''")
      case True
      with n [unfolded h res, rule_format, OF i] show ?thesis by simp
    next
      case False
      with c have "fname (fs_file fs) = ''b.pdf''" by simp
      with o [unfolded h, rule_format, OF i] show ?thesis by simp
    qed
  qed
  from u' rq m' all have
    "\<exists>st'. uploadToCloudFlow singleConfig happyEnv [?a, ?b] twoPending = Inr ([?res], st') \<and>
          requests st' = [?rq] \<and>
          map (\<lambda>fs. fname (fs_file fs)) (fileStates st') = [''a.pdf'', ''b.pdf''] \<and>
          list_all (\<lambda>fs. if fname (fs_file fs) = ''a.pdf''
                          then fs_status fs = Completed \<and> fs_progress fs = 100
                          else fs_status fs = Uploading \<and> fs_progress fs = 0)
            (fileStates st')"
    by (intro exI [of _ st'] conjI)
  with singleConfig_configured singleConfig_single two show ?thesis by (intro conjI)
qed
end
